(* ===== verification/Prelude.thy ===== *)
theory Prelude
  imports Main "HOL-Library.Word" "HOL-Library.List_Lexorder" "HOL-Library.Char_ord"
begin

text \<open>
  What every component shares: the effect type of Go functions that talk to the outside
  world, its combinators, the frame conditions over it, and the lemma collections of the
  development.

  A Go function that returns \<open>(T, error)\<close> and changes some state is a function from the
  state to an \<open>outcome\<close> and the new state. \<open>Ret\<close> is a nil error, \<open>Fail\<close> a non-nil
  one, \<open>Panic\<close> a run-time panic (a nil dereference), \<open>Hang\<close> a call that never
  returns. The last two cannot be handled by the caller.
\<close>

named_theorems io_simps "unfolding rules of the effect combinators"
named_theorems text_simps "rules on Go strings"

section \<open>Outcomes and effects\<close>

datatype ('e, 'a) outcome = Ret 'a | Fail 'e | Panic | Hang

type_synonym ('s, 'e, 'a) io = "'s \<Rightarrow> ('e, 'a) outcome \<times> 's"

definition ret :: "'a \<Rightarrow> ('s, 'e, 'a) io" where
  "ret a s = (Ret a, s)"

definition fail :: "'e \<Rightarrow> ('s, 'e, 'a) io" where
  "fail e s = (Fail e, s)"

definition panic :: "('s, 'e, 'a) io" where
  "panic s = (Panic, s)"

text \<open>
  \<open>onErr m h k\<close> is \<^verbatim>\<open>x, err := m(); if err != nil { h }; k\<close>. The plain
  \<^verbatim>\<open>if err != nil { return err }\<close> is \<open>onErr m fail k\<close>, and
  \<^verbatim>\<open>_ = m()\<close>, which drops the error, is \<open>ignoring m k\<close>.
\<close>

definition onErr :: "('s, 'e, 'a) io \<Rightarrow> ('e \<Rightarrow> ('s, 'f, 'b) io) \<Rightarrow> ('a \<Rightarrow> ('s, 'f, 'b) io)
    \<Rightarrow> ('s, 'f, 'b) io" where
  "onErr m h k s =
     (case m s of
        (Ret a, s') \<Rightarrow> k a s'
      | (Fail e, s') \<Rightarrow> h e s'
      | (Panic, s') \<Rightarrow> (Panic, s')
      | (Hang, s') \<Rightarrow> (Hang, s'))"

definition ignoring :: "('s, 'e, 'a) io \<Rightarrow> ('s, 'f, 'b) io \<Rightarrow> ('s, 'f, 'b) io" where
  "ignoring m k = onErr m (\<lambda>_. k) (\<lambda>_. k)"

definition inspect :: "('s \<Rightarrow> 'r) \<Rightarrow> ('r \<Rightarrow> ('s, 'e, 'a) io) \<Rightarrow> ('s, 'e, 'a) io" where
  "inspect f k s = k (f s) s"

lemmas effect_defs = ret_def fail_def panic_def inspect_def

lemma ret_run [io_simps]: "ret a s = (Ret a, s)" by (simp add: ret_def)
lemma fail_run [io_simps]: "fail e s = (Fail e, s)" by (simp add: fail_def)
lemma panic_run [io_simps]: "panic s = (Panic, s)" by (simp add: panic_def)
lemma inspect_run [io_simps]: "inspect f k s = k (f s) s" by (simp add: inspect_def)

lemma onErr_Ret [io_simps]: "m s = (Ret a, t) \<Longrightarrow> onErr m h k s = k a t"
  by (simp add: onErr_def)

lemma onErr_Fail [io_simps]: "m s = (Fail e, t) \<Longrightarrow> onErr m h k s = h e t"
  by (simp add: onErr_def)

lemma onErr_Panic [io_simps]: "m s = (Panic, t) \<Longrightarrow> onErr m h k s = (Panic, t)"
  by (simp add: onErr_def)

lemma onErr_Hang [io_simps]: "m s = (Hang, t) \<Longrightarrow> onErr m h k s = (Hang, t)"
  by (simp add: onErr_def)

lemma ignoring_run [io_simps]:
  "ignoring m k s =
     (case m s of (Panic, t) \<Rightarrow> (Panic, t) | (Hang, t) \<Rightarrow> (Hang, t) | (_, t) \<Rightarrow> k t)"
  by (auto simp: ignoring_def onErr_def split: outcome.splits prod.splits)

lemma onErr_cases [consumes 1, case_names Ret Fail Panic Hang]:
  assumes "onErr m h k s = (r, t)"
  obtains a u where "m s = (Ret a, u)" and "k a u = (r, t)"
  | e u where "m s = (Fail e, u)" and "h e u = (r, t)"
  | "m s = (Panic, t)" and "r = Panic"
  | "m s = (Hang, t)" and "r = Hang"
  using assms by (auto simp: onErr_def split: outcome.splits prod.splits)

lemma ignoring_cases [consumes 1, case_names run Panic Hang]:
  assumes "ignoring m k s = (r, t)"
  obtains r' u where "m s = (r', u)" and "k u = (r, t)" and "r' \<noteq> Hang"
  | "m s = (Panic, t)" and "r = Panic"
  | "m s = (Hang, t)" and "r = Hang"
  using assms by (auto simp: ignoring_run split: outcome.splits prod.splits)

lemma fail_not_Ret [simp]: "fail e s \<noteq> (Ret b, t)"
  by (simp add: fail_def)

lemma ignoring_fail_not_Ret [simp]:
  "(\<And>t. k t \<noteq> (Ret b, u)) \<Longrightarrow> ignoring m k s \<noteq> (Ret b, u)"
  by (auto simp: ignoring_run split: outcome.splits prod.splits)

section \<open>Frame conditions\<close>

text \<open>
  An effect stays within a relation when every run of it, whatever its outcome, leads from
  a state to a related one.
\<close>

definition stays :: "('s \<Rightarrow> 's \<Rightarrow> bool) \<Rightarrow> ('s, 'e, 'a) io \<Rightarrow> bool" where
  "stays R m \<longleftrightarrow> (\<forall>s. R s (snd (m s)))"

lemma staysI: "(\<And>s. R s (snd (m s))) \<Longrightarrow> stays R m"
  by (simp add: stays_def)

lemma stays_snd: "stays R m \<Longrightarrow> R s (snd (m s))"
  by (simp add: stays_def)

lemma staysD: "stays R m \<Longrightarrow> m s = (r, t) \<Longrightarrow> R s t"
  by (metis stays_def snd_conv)

locale frame =
  fixes R :: "'s \<Rightarrow> 's \<Rightarrow> bool"
  assumes frame_refl: "R s s"
    and frame_trans: "R s t \<Longrightarrow> R t u \<Longrightarrow> R s u"
begin

lemma stays_ret: "stays R (ret a)"
  by (simp add: stays_def ret_def frame_refl)

lemma stays_fail: "stays R (fail e)"
  by (simp add: stays_def fail_def frame_refl)

lemma stays_panic: "stays R panic"
  by (simp add: stays_def panic_def frame_refl)

lemma stays_inspect: "(\<And>r. stays R (k r)) \<Longrightarrow> stays R (inspect f k)"
  by (simp add: stays_def inspect_def)

lemma stays_onErr:
  assumes "stays R m" and "\<And>e. stays R (h e)" and "\<And>a. stays R (k a)"
  shows "stays R (onErr m h k)"
proof (rule staysI)
  fix s
  obtain r t where m: "m s = (r, t)" by (cases "m s")
  then have st: "R s t" using assms(1) by (rule staysD [rotated])
  show "R s (snd (onErr m h k s))"
    using assms(2,3) st by (cases r) (auto simp: onErr_def m stays_def intro: frame_trans)
qed

lemma stays_ignoring: "stays R m \<Longrightarrow> stays R k \<Longrightarrow> stays R (ignoring m k)"
  by (simp add: ignoring_def stays_onErr)

lemma stays_if: "stays R m \<Longrightarrow> stays R k \<Longrightarrow> stays R (if b then m else k)"
  by simp

lemma stays_option:
  "stays R m \<Longrightarrow> (\<And>x. stays R (k x)) \<Longrightarrow> stays R (case v of None \<Rightarrow> m | Some x \<Rightarrow> k x)"
  by (cases v) auto

lemmas stays_intros = stays_ret stays_fail stays_panic stays_inspect stays_onErr
  stays_ignoring stays_if stays_option

end

section \<open>Codecs\<close>

text \<open>
  A codec is a pair of routines where decoding undoes encoding on a domain. The code relies
  on several: decimal numbers, percent escapes, base64, the list of seen indexes.
\<close>

locale codec =
  fixes enc :: "'a \<Rightarrow> 'b" and dec :: "'b \<Rightarrow> 'a option" and ok :: "'a \<Rightarrow> bool"
  assumes dec_enc: "ok x \<Longrightarrow> dec (enc x) = Some x"
begin

lemma enc_inject: "ok x \<Longrightarrow> ok y \<Longrightarrow> enc x = enc y \<longleftrightarrow> x = y"
  by (metis dec_enc option.inject)

lemma dec_enc_all: "\<forall>x\<in>set xs. ok x \<Longrightarrow> those (map dec (map enc xs)) = Some xs"
  by (induction xs) (auto simp: dec_enc)

end

section \<open>Lists\<close>

lemma takeWhile_all [simp]: "\<forall>x\<in>set xs. P x \<Longrightarrow> takeWhile P xs = xs"
  by (simp add: takeWhile_eq_all_conv)

lemma those_map_Some [simp]: "those (map Some xs) = Some xs"
  by (induction xs) auto

lemma those_SomeD: "those ys = Some xs \<Longrightarrow> ys = map Some xs"
  by (induction ys arbitrary: xs) (auto split: option.splits)

text \<open>Go's conversions to a signed type keep the low bits.\<close>

definition to_int32 :: "int \<Rightarrow> int" where
  "to_int32 i = signed_take_bit 31 i"

definition in_int64 :: "int \<Rightarrow> bool" where
  "in_int64 i \<longleftrightarrow> - (2 ^ 63) \<le> i \<and> i < 2 ^ 63"

lemma to_int32_id: "- (2 ^ 31) \<le> i \<Longrightarrow> i < 2 ^ 31 \<Longrightarrow> to_int32 i = i"
  by (simp add: to_int32_def signed_take_bit_int_eq_self_iff)

end
