(* ===== verification/GoUrl.thy ===== *)
theory GoUrl
  imports GoText
begin

text \<open>
  Go's \<^verbatim>\<open>net/url\<close> as the client uses it: form encoding of parameters
  (\<^verbatim>\<open>url.Values\<close>), parsing of a base address, and printing an address back after its
  query has been replaced. The reader of form-encoded text at the end stands for what a server
  does with a request; the code does not contain it, the laws about requests are stated with it.
\<close>

section \<open>Escaping\<close>

datatype url_mode = encodePath | encodeUserPassword | encodeHost | encodeZone
  | encodeQueryComponent | encodeFragment

definition is_alnum :: "char \<Rightarrow> bool" where
  "is_alnum c \<longleftrightarrow> (48 \<le> byte c \<and> byte c \<le> 57) \<or> (65 \<le> byte c \<and> byte c \<le> 90)
     \<or> (97 \<le> byte c \<and> byte c \<le> 122)"

definition shouldEscape :: "url_mode \<Rightarrow> char \<Rightarrow> bool" where
  "shouldEscape mode c =
     (if is_alnum c then False
      else if (mode = encodeHost \<or> mode = encodeZone) \<and> c \<in> set (CHR 0x27 # ''!$&()*+,;=:[]<>\"'') then False
      else if c \<in> set ''-_.~'' then False
      else if c \<in> set ''$&+,/:;=?@'' then
        (case mode of
           encodePath \<Rightarrow> c = CHR ''?''
         | encodeUserPassword \<Rightarrow> c \<in> set ''@/?:''
         | encodeQueryComponent \<Rightarrow> True
         | encodeFragment \<Rightarrow> False
         | _ \<Rightarrow> True)
      else if mode = encodeFragment \<and> c \<in> set ''!()*'' then False
      else True)"

definition hex_digit :: "nat \<Rightarrow> char" where
  "hex_digit n = (if n < 10 then char_of (48 + n) else char_of (55 + n))"

definition unhex :: "char \<Rightarrow> nat option" where
  "unhex c =
     (if 48 \<le> byte c \<and> byte c \<le> 57 then Some (byte c - 48)
      else if 97 \<le> byte c \<and> byte c \<le> 102 then Some (byte c - 87)
      else if 65 \<le> byte c \<and> byte c \<le> 70 then Some (byte c - 55)
      else None)"

definition escape_char :: "url_mode \<Rightarrow> char \<Rightarrow> string" where
  "escape_char mode c =
     (if c = CHR '' '' \<and> mode = encodeQueryComponent then ''+''
      else if shouldEscape mode c
      then [CHR ''%'', hex_digit (byte c div 16), hex_digit (byte c mod 16)]
      else [c])"

definition escape :: "url_mode \<Rightarrow> string \<Rightarrow> string" where
  "escape mode s = concat (map (escape_char mode) s)"

abbreviation QueryEscape :: "string \<Rightarrow> string" where
  "QueryEscape \<equiv> escape encodeQueryComponent"

definition decode_escape :: "url_mode \<Rightarrow> char \<Rightarrow> char \<Rightarrow> char option" where
  "decode_escape mode a b =
     (case (unhex a, unhex b) of
        (Some x, Some y) \<Rightarrow>
          (let v = char_of (16 * x + y); is25 = (a = CHR ''2'' \<and> b = CHR ''5'') in
           if mode = encodeHost \<and> x < 8 \<and> \<not> is25 then None
           else if mode = encodeZone \<and> \<not> is25 \<and> v \<noteq> CHR '' '' \<and> shouldEscape encodeHost v then None
           else Some v)
      | _ \<Rightarrow> None)"

definition plain_ok :: "url_mode \<Rightarrow> char \<Rightarrow> bool" where
  "plain_ok mode c \<longleftrightarrow>
     \<not> ((mode = encodeHost \<or> mode = encodeZone) \<and> byte c < 128 \<and> shouldEscape mode c)"

fun unescape :: "url_mode \<Rightarrow> string \<Rightarrow> string option" where
  "unescape mode [] = Some []"
| "unescape mode (c # cs) =
     (if c = CHR ''%'' then
        (case cs of
           a # b # rest \<Rightarrow>
             (case (decode_escape mode a b, unescape mode rest) of
                (Some v, Some out) \<Rightarrow> Some (v # out)
              | _ \<Rightarrow> None)
         | _ \<Rightarrow> None)
      else if c = CHR ''+'' \<and> mode = encodeQueryComponent then
        map_option (Cons (CHR '' '')) (unescape mode cs)
      else if plain_ok mode c then map_option (Cons c) (unescape mode cs)
      else None)"

lemma unhex_hex_digit [simp]: "n < 16 \<Longrightarrow> unhex (hex_digit n) = Some n"
  by (auto simp: hex_digit_def unhex_def)

lemma decode_escape_hex:
  assumes "mode \<noteq> encodeHost" and "mode \<noteq> encodeZone"
  shows "decode_escape mode (hex_digit (byte c div 16)) (hex_digit (byte c mod 16)) = Some c"
proof -
  have "byte c div 16 < 16" by (rule less_mult_imp_div_less) simp
  moreover have "byte c mod 16 < 16" by simp
  moreover have "char_of (16 * (byte c div 16) + byte c mod 16) = c" by simp
  ultimately show ?thesis using assms by (simp add: decode_escape_def Let_def del: div_mult_mod_eq)
qed

lemma escape_char_head [simp]:
  "shouldEscape mode (CHR ''%'')" "shouldEscape encodeQueryComponent (CHR ''+'')"
  by (simp_all add: shouldEscape_def is_alnum_def)

lemma unescape_escape_char:
  assumes "mode \<noteq> encodeHost" and "mode \<noteq> encodeZone"
  shows "unescape mode (escape_char mode c @ s) = map_option (Cons c) (unescape mode s)"
proof (cases "c = CHR '' '' \<and> mode = encodeQueryComponent")
  case True
  then show ?thesis by (simp add: escape_char_def)
next
  case no_space: False
  show ?thesis
  proof (cases "shouldEscape mode c")
    case True
    with no_space show ?thesis
      using decode_escape_hex [OF assms, of c]
      by (auto simp: escape_char_def split: option.splits)
  next
    case False
    then have "c \<noteq> CHR ''%''" "\<not> (c = CHR ''+'' \<and> mode = encodeQueryComponent)" by auto
    with False no_space assms show ?thesis by (auto simp: escape_char_def plain_ok_def)
  qed
qed

lemma unescape_escape:
  assumes "mode \<noteq> encodeHost" and "mode \<noteq> encodeZone"
  shows "unescape mode (escape mode s) = Some s"
  using assms by (induction s) (simp_all add: escape_def unescape_escape_char)

interpretation query_component: codec QueryEscape "unescape encodeQueryComponent" "\<lambda>_. True"
  by unfold_locales (simp add: unescape_escape)

interpretation path_component: codec "escape encodePath" "unescape encodePath" "\<lambda>_. True"
  by unfold_locales (simp add: unescape_escape)

section \<open>Form values\<close>

text \<open>
  \<^verbatim>\<open>url.Values\<close> filled by \<^verbatim>\<open>Add\<close> is the list of pairs in the order they were added.
  \<^verbatim>\<open>Encode\<close> writes the keys in ascending order and the values of one key in the
  order of their addition: a stable sort on the keys.
\<close>

type_synonym form = "(string \<times> string) list"

definition encode_pair :: "string \<times> string \<Rightarrow> string" where
  "encode_pair kv = QueryEscape (fst kv) @ ''='' @ QueryEscape (snd kv)"

definition Encode :: "form \<Rightarrow> string" where
  "Encode ps = join ''&'' (map encode_pair (sort_key fst ps))"

definition decode_pair :: "string \<Rightarrow> (string \<times> string) option" where
  "decode_pair s =
     (case (unescape encodeQueryComponent (takeWhile (\<lambda>c. c \<noteq> CHR ''='') s),
            unescape encodeQueryComponent (drop 1 (dropWhile (\<lambda>c. c \<noteq> CHR ''='') s))) of
        (Some k, Some v) \<Rightarrow> Some (k, v)
      | _ \<Rightarrow> None)"

definition ReadForm :: "string \<Rightarrow> form option" where
  "ReadForm s = (if s = [] then Some [] else those (map decode_pair (split_on (CHR ''&'') s)))"

lemma hex_digit_alnum: "n < 16 \<Longrightarrow> is_alnum (hex_digit n)"
  by (auto simp: hex_digit_def is_alnum_def)

lemma unescaped_query_char:
  "\<not> shouldEscape encodeQueryComponent c \<Longrightarrow> is_alnum c \<or> c \<in> set ''-_.~''"
  by (simp add: shouldEscape_def split: if_splits)

lemma escape_char_query:
  assumes "c \<in> set (escape_char encodeQueryComponent d)"
  shows "is_alnum c \<or> c \<in> set ''-_.~+%''"
proof (cases "d = CHR '' '' \<or> \<not> shouldEscape encodeQueryComponent d")
  case True
  then show ?thesis
    using assms unescaped_query_char [of d] by (auto simp: escape_char_def split: if_splits)
next
  case False
  have "byte d div 16 < 16" by (rule less_mult_imp_div_less) simp
  then have "is_alnum (hex_digit (byte d div 16))" "is_alnum (hex_digit (byte d mod 16))"
    by (simp_all add: hex_digit_alnum)
  then show ?thesis using assms False by (auto simp: escape_char_def)
qed

lemma QueryEscape_chars: "c \<in> set (QueryEscape s) \<Longrightarrow> is_alnum c \<or> c \<in> set ''-_.~+%''"
  unfolding escape_def by (auto dest!: escape_char_query)

lemma not_alnum [simp]: "\<not> is_alnum (CHR ''='')" "\<not> is_alnum (CHR ''&'')"
  "\<not> is_alnum (CHR ''?'')" "\<not> is_alnum (CHR ''#'')"
  by (simp_all add: is_alnum_def)

lemma QueryEscape_sep [simp]:
  "CHR ''='' \<notin> set (QueryEscape s)" "CHR ''&'' \<notin> set (QueryEscape s)"
  "CHR ''?'' \<notin> set (QueryEscape s)" "CHR ''#'' \<notin> set (QueryEscape s)"
  by (auto dest!: QueryEscape_chars)

lemma decode_encode_pair: "decode_pair (encode_pair kv) = Some kv"
proof -
  have k: "\<forall>c\<in>set (QueryEscape (fst kv)). c \<noteq> CHR ''=''" by (metis QueryEscape_sep(1))
  then have "takeWhile (\<lambda>c. c \<noteq> CHR ''='') (encode_pair kv) = QueryEscape (fst kv)"
    and "dropWhile (\<lambda>c. c \<noteq> CHR ''='') (encode_pair kv) = ''='' @ QueryEscape (snd kv)"
    by (simp_all add: encode_pair_def takeWhile_append dropWhile_append)
  then show ?thesis by (simp add: decode_pair_def unescape_escape)
qed

interpretation pair_list: text_codec encode_pair decode_pair "\<lambda>_. True" "CHR ''&''"
  by (unfold_locales, rule decode_encode_pair, simp add: encode_pair_def)

lemma encode_pair_nonempty [simp]: "encode_pair kv \<noteq> []"
  by (simp add: encode_pair_def)

lemma Encode_Nil_iff: "Encode ps = [] \<longleftrightarrow> ps = []"
  by (simp add: Encode_def join_Nil_iff) (metis set_empty set_sort)

lemma ReadForm_Encode: "ReadForm (Encode ps) = Some (sort_key fst ps)"
proof (cases "ps = []")
  case True
  then show ?thesis by (simp add: ReadForm_def Encode_def)
next
  case False
  then have "sort_key fst ps \<noteq> []" by (metis set_empty set_sort)
  with False show ?thesis
    using pair_list.list_dec_enc [of "sort_key fst ps"]
    by (simp add: ReadForm_def Encode_Nil_iff) (simp add: Encode_def)
qed

end
