(* ===== verification/GoAddress.thy ===== *)
theory GoAddress
  imports GoUrl
begin

text \<open>
  \<^verbatim>\<open>url.Parse\<close> and \<^verbatim>\<open>URL.String\<close> of Go's \<^verbatim>\<open>net/url\<close>: the client
  parses the configured base address, and reparses each endpoint to attach its parameters. The
  last section proves what both amount to on an ordinary address: the query is appended after a
  question mark and nothing else changes.
\<close>

record url =
  Scheme :: string
  Opaque :: string
  User :: "(string \<times> string option) option"
  Host :: string
  Path :: string
  RawPath :: string
  ForceQuery :: bool
  RawQuery :: string
  Fragment :: string
  RawFragment :: string

definition empty_url :: url where
  "empty_url = \<lparr>Scheme = [], Opaque = [], User = None, Host = [], Path = [], RawPath = [],
     ForceQuery = False, RawQuery = [], Fragment = [], RawFragment = []\<rparr>"

section \<open>Parsing\<close>

definition is_alpha :: "char \<Rightarrow> bool" where
  "is_alpha c \<longleftrightarrow> (65 \<le> byte c \<and> byte c \<le> 90) \<or> (97 \<le> byte c \<and> byte c \<le> 122)"

definition to_lower_ascii :: "char \<Rightarrow> char" where
  "to_lower_ascii c = (if 65 \<le> byte c \<and> byte c \<le> 90 then char_of (byte c + 32) else c)"

text \<open>\<^verbatim>\<open>split\<close>: cut at the first separator, which the rest keeps or loses.\<close>

definition cut :: "char \<Rightarrow> bool \<Rightarrow> string \<Rightarrow> string \<times> string" where
  "cut sep drop_sep s =
     (takeWhile (\<lambda>c. c \<noteq> sep) s,
      (if drop_sep then drop 1 (dropWhile (\<lambda>c. c \<noteq> sep) s) else dropWhile (\<lambda>c. c \<noteq> sep) s))"

definition cut_last :: "char \<Rightarrow> string \<Rightarrow> (string \<times> string) option" where
  "cut_last sep s =
     (if sep \<in> set s
      then Some (rev (drop 1 (dropWhile (\<lambda>c. c \<noteq> sep) (rev s))), rev (takeWhile (\<lambda>c. c \<noteq> sep) (rev s)))
      else None)"

text \<open>\<open>None\<close> is a missing scheme; a text without a scheme is all rest.\<close>

fun scan_scheme :: "string \<Rightarrow> string \<Rightarrow> string \<Rightarrow> (string \<times> string) option" where
  "scan_scheme whole acc [] = Some ([], whole)"
| "scan_scheme whole acc (c # cs) =
     (if is_alpha c then scan_scheme whole (acc @ [c]) cs
      else if is_digit c \<or> c \<in> set ''+-.'' then
        (if acc = [] then Some ([], whole) else scan_scheme whole (acc @ [c]) cs)
      else if c = CHR '':'' then (if acc = [] then None else Some (acc, cs))
      else Some ([], whole))"

definition getScheme :: "string \<Rightarrow> (string \<times> string) option" where
  "getScheme s = scan_scheme s [] s"

definition validUserinfo :: "string \<Rightarrow> bool" where
  "validUserinfo s \<longleftrightarrow>
     list_all (\<lambda>c. is_alnum c \<or> c \<in> set (CHR 0x27 # ''-._:~!$&()*+,;=%@'')) s"

definition validOptionalPort :: "string \<Rightarrow> bool" where
  "validOptionalPort p =
     (case p of [] \<Rightarrow> True | c # cs \<Rightarrow> c = CHR '':'' \<and> list_all is_digit cs)"

fun find_zone :: "string \<Rightarrow> nat option" where
  "find_zone [] = None"
| "find_zone (c # cs) =
     (if take 3 (c # cs) = ''%25'' then Some 0 else map_option Suc (find_zone cs))"

definition parseHost :: "string \<Rightarrow> string option" where
  "parseHost host =
     (if take 1 host = ''['' then
        (case cut_last (CHR '']'') host of
           None \<Rightarrow> None
         | Some (before, colonPort) \<Rightarrow>
             if \<not> validOptionalPort colonPort then None
             else
               (case find_zone before of
                  Some z \<Rightarrow>
                    (case (unescape encodeHost (take z host),
                           unescape encodeZone (drop z before),
                           unescape encodeHost (CHR '']'' # colonPort)) of
                       (Some h1, Some h2, Some h3) \<Rightarrow> Some (h1 @ h2 @ h3)
                     | _ \<Rightarrow> None)
                | None \<Rightarrow> unescape encodeHost host))
      else
        (case cut_last (CHR '':'') host of
           Some (_, port) \<Rightarrow>
             if validOptionalPort (CHR '':'' # port) then unescape encodeHost host else None
         | None \<Rightarrow> unescape encodeHost host))"

definition parseUserinfo :: "string \<Rightarrow> (string \<times> string option) option" where
  "parseUserinfo s =
     (if \<not> validUserinfo s then None
      else if CHR '':'' \<notin> set s then
        map_option (\<lambda>u. (u, None)) (unescape encodeUserPassword s)
      else
        (case cut (CHR '':'') True s of
           (u, p) \<Rightarrow>
             (case (unescape encodeUserPassword u, unescape encodeUserPassword p) of
                (Some u', Some p') \<Rightarrow> Some (u', Some p')
              | _ \<Rightarrow> None)))"

definition parseAuthority :: "string \<Rightarrow> ((string \<times> string option) option \<times> string) option" where
  "parseAuthority authority =
     (case cut_last (CHR ''@'') authority of
        None \<Rightarrow> map_option (Pair None) (parseHost authority)
      | Some (userinfo, h) \<Rightarrow>
          (case parseHost h of
             None \<Rightarrow> None
           | Some host \<Rightarrow> map_option (\<lambda>u. (Some u, host)) (parseUserinfo userinfo)))"

definition setPath :: "string \<Rightarrow> url \<Rightarrow> url option" where
  "setPath p u =
     map_option (\<lambda>path. u\<lparr>Path := path, RawPath := (if p = escape encodePath path then [] else p)\<rparr>)
       (unescape encodePath p)"

definition setFragment :: "string \<Rightarrow> url \<Rightarrow> url option" where
  "setFragment f u =
     map_option (\<lambda>frag. u\<lparr>Fragment := frag,
                          RawFragment := (if f = escape encodeFragment frag then [] else f)\<rparr>)
       (unescape encodeFragment f)"

definition contains_ctl :: "string \<Rightarrow> bool" where
  "contains_ctl s \<longleftrightarrow> list_ex (\<lambda>c. byte c < 32 \<or> byte c = 127) s"

definition split_query :: "string \<Rightarrow> url \<Rightarrow> string \<times> url" where
  "split_query s u =
     (if HasSuffix s ''?'' \<and> count_list s (CHR ''?'') = 1
      then (butlast s, u\<lparr>ForceQuery := True\<rparr>)
      else (case cut (CHR ''?'') True s of (rest, q) \<Rightarrow> (rest, u\<lparr>RawQuery := q\<rparr>)))"

definition parse_rest :: "string \<Rightarrow> url \<Rightarrow> url option" where
  "parse_rest rest u =
     (if take 1 rest \<noteq> ''/'' \<and> Scheme u \<noteq> [] then Some (u\<lparr>Opaque := rest\<rparr>)
      else if take 1 rest \<noteq> ''/'' \<and> CHR '':'' \<in> set (takeWhile (\<lambda>c. c \<noteq> CHR ''/'') rest) then None
      else if (Scheme u \<noteq> [] \<or> take 3 rest \<noteq> ''///'') \<and> take 2 rest = ''//'' then
        (case cut (CHR ''/'') False (drop 2 rest) of
           (authority, rest') \<Rightarrow>
             (case parseAuthority authority of
                None \<Rightarrow> None
              | Some (usr, host) \<Rightarrow> setPath rest' (u\<lparr>User := usr, Host := host\<rparr>)))
      else setPath rest u)"

definition parse_no_fragment :: "string \<Rightarrow> url option" where
  "parse_no_fragment s =
     (if contains_ctl s then None
      else if s = ''*'' then Some (empty_url\<lparr>Path := ''*''\<rparr>)
      else
        (case getScheme s of
           None \<Rightarrow> None
         | Some (scheme, rest) \<Rightarrow>
             (case split_query rest (empty_url\<lparr>Scheme := map to_lower_ascii scheme\<rparr>) of
                (rest', u) \<Rightarrow> parse_rest rest' u)))"

definition url_Parse :: "string \<Rightarrow> url option" where
  "url_Parse rawURL =
     (case cut (CHR ''#'') True rawURL of
        (s, frag) \<Rightarrow>
          (case parse_no_fragment s of
             None \<Rightarrow> None
           | Some u \<Rightarrow> if frag = [] then Some u else setFragment frag u))"

section \<open>Printing\<close>

definition validEncoded :: "url_mode \<Rightarrow> string \<Rightarrow> bool" where
  "validEncoded mode s \<longleftrightarrow>
     list_all (\<lambda>c. c \<in> set (CHR 0x27 # ''!$&()*+,;=:@[]%'') \<or> \<not> shouldEscape mode c) s"

definition escaped_or_raw :: "url_mode \<Rightarrow> string \<Rightarrow> string \<Rightarrow> string" where
  "escaped_or_raw mode raw plain =
     (if raw \<noteq> [] \<and> validEncoded mode raw \<and> unescape mode raw = Some plain then raw
      else if mode = encodePath \<and> plain = ''*'' then ''*''
      else escape mode plain)"

definition userinfo_String :: "string \<times> string option \<Rightarrow> string" where
  "userinfo_String up =
     escape encodeUserPassword (fst up)
     @ (case snd up of None \<Rightarrow> [] | Some p \<Rightarrow> CHR '':'' # escape encodeUserPassword p)"

definition url_authority_part :: "url \<Rightarrow> string" where
  "url_authority_part u =
     (if Scheme u \<noteq> [] \<or> Host u \<noteq> [] \<or> User u \<noteq> None then
        (if Host u \<noteq> [] \<or> Path u \<noteq> [] \<or> User u \<noteq> None then ''//'' else [])
        @ (case User u of None \<Rightarrow> [] | Some up \<Rightarrow> userinfo_String up @ ''@'')
        @ (if Host u \<noteq> [] then escape encodeHost (Host u) else [])
      else [])"

definition url_path_part :: "url \<Rightarrow> string \<Rightarrow> string" where
  "url_path_part u before =
     (let path = escaped_or_raw encodePath (RawPath u) (Path u);
          slash = (if path \<noteq> [] \<and> hd path \<noteq> CHR ''/'' \<and> Host u \<noteq> [] then ''/'' else []);
          dot = (if before @ slash = [] \<and> CHR '':'' \<in> set path
                   \<and> CHR ''/'' \<notin> set (takeWhile (\<lambda>c. c \<noteq> CHR '':'') path)
                 then ''./'' else [])
      in slash @ dot @ path)"

definition url_String :: "url \<Rightarrow> string" where
  "url_String u =
     (let scheme = (if Scheme u \<noteq> [] then Scheme u @ '':'' else []);
          middle =
            (if Opaque u \<noteq> [] then Opaque u
             else url_authority_part u @ url_path_part u (scheme @ url_authority_part u));
          query = (if ForceQuery u \<or> RawQuery u \<noteq> [] then CHR ''?'' # RawQuery u else []);
          frag = (if Fragment u \<noteq> []
                  then CHR ''#'' # escaped_or_raw encodeFragment (RawFragment u) (Fragment u) else [])
      in scheme @ middle @ query @ frag)"

section \<open>Ordinary addresses\<close>

text \<open>
  An ordinary address is \<^verbatim>\<open>http\<close> or \<^verbatim>\<open>https\<close>, a host of letters, digits, dots
  and hyphens, perhaps a decimal port, and a path that needs no escaping.
\<close>

definition host_char :: "char \<Rightarrow> bool" where
  "host_char c \<longleftrightarrow> is_alnum c \<or> c = CHR ''.'' \<or> c = CHR ''-''"

definition path_char :: "char \<Rightarrow> bool" where
  "path_char c \<longleftrightarrow> \<not> shouldEscape encodePath c"

definition plain_address :: "string \<Rightarrow> string \<Rightarrow> string \<Rightarrow> string \<Rightarrow> bool" where
  "plain_address scheme host port path \<longleftrightarrow>
     (scheme = ''http'' \<or> scheme = ''https'')
     \<and> host \<noteq> [] \<and> list_all host_char host
     \<and> (port = [] \<or> (hd port = CHR '':'' \<and> list_all is_digit (tl port)))
     \<and> (path = [] \<or> hd path = CHR ''/'') \<and> list_all path_char path"

definition address :: "string \<Rightarrow> string \<Rightarrow> string \<Rightarrow> string \<Rightarrow> string" where
  "address scheme host port path = scheme @ ''://'' @ host @ port @ path"

definition address_url :: "string \<Rightarrow> string \<Rightarrow> string \<Rightarrow> string \<Rightarrow> url" where
  "address_url scheme host port path =
     empty_url\<lparr>Scheme := scheme, Host := host @ port, Path := path\<rparr>"

definition addr_char :: "char \<Rightarrow> bool" where
  "addr_char c \<longleftrightarrow> c \<noteq> CHR ''#'' \<and> c \<noteq> CHR ''?'' \<and> c \<noteq> CHR ''%'' \<and> 32 \<le> byte c \<and> byte c \<noteq> 127"

lemma is_alnum_addr [simp]: "is_alnum c \<Longrightarrow> addr_char c"
  by (auto simp: is_alnum_def addr_char_def)

lemma host_char_addr: "host_char c \<Longrightarrow> addr_char c"
  by (auto simp: host_char_def) (simp_all add: addr_char_def)

lemma is_digit_alnum: "is_digit c \<Longrightarrow> is_alnum c"
  by (simp add: is_digit_def is_alnum_def)

lemma path_char_cases: "path_char c \<Longrightarrow> is_alnum c \<or> c \<in> set ''-_.~$&+,/:;=@''"
  by (auto simp: path_char_def shouldEscape_def split: if_splits)

lemma path_char_addr: "path_char c \<Longrightarrow> addr_char c"
  by (drule path_char_cases) (auto simp: addr_char_def is_alnum_def)

lemma unescape_id: "list_all (\<lambda>c. c \<noteq> CHR ''%'' \<and> plain_ok mode c) s \<Longrightarrow>
    mode \<noteq> encodeQueryComponent \<Longrightarrow> unescape mode s = Some s"
  by (induction s) auto

lemma escape_id: "list_all (\<lambda>c. \<not> shouldEscape mode c) s \<Longrightarrow>
    mode \<noteq> encodeQueryComponent \<Longrightarrow> escape mode s = s"
  by (induction s) (auto simp: escape_def escape_char_def)

lemma cut_absent: "sep \<notin> set s \<Longrightarrow> cut sep d s = (s, [])"
proof -
  assume "sep \<notin> set s"
  then have "\<forall>c\<in>set s. c \<noteq> sep" by auto
  then have "dropWhile (\<lambda>c. c \<noteq> sep) s = []" by simp
  with \<open>\<forall>c\<in>set s. c \<noteq> sep\<close> show ?thesis by (simp only: cut_def takeWhile_all) simp
qed

lemma cut_at: "sep \<notin> set a \<Longrightarrow> cut sep False (a @ sep # b) = (a, sep # b)"
proof -
  assume "sep \<notin> set a"
  then have "\<forall>c\<in>set a. c \<noteq> sep" by auto
  then show ?thesis by (simp add: cut_def takeWhile_append dropWhile_append)
qed

lemma cut_last_absent: "sep \<notin> set s \<Longrightarrow> cut_last sep s = None"
  by (simp add: cut_last_def)

lemma cut_last_at: "sep \<notin> set b \<Longrightarrow> cut_last sep (a @ sep # b) = Some (a, b)"
proof -
  assume "sep \<notin> set b"
  then have "\<forall>c\<in>set (rev b). c \<noteq> sep" by auto
  then show ?thesis by (simp add: cut_last_def takeWhile_append dropWhile_append)
qed

lemma split_query_absent: "CHR ''?'' \<notin> set s \<Longrightarrow> split_query s u = (s, u\<lparr>RawQuery := []\<rparr>)"
  by (simp add: split_query_def cut_absent count_list_0_iff)

lemma contains_ctl_addr: "list_all addr_char s \<Longrightarrow> \<not> contains_ctl s"
proof -
  assume "list_all addr_char s"
  then have "\<forall>c\<in>set s. \<not> (byte c < 32 \<or> byte c = 127)"
    by (simp add: list_all_iff addr_char_def not_less)
  then show ?thesis by (simp only: contains_ctl_def list_ex_iff) blast
qed

lemma addr_char_absent:
  assumes "list_all addr_char s"
  shows "CHR ''#'' \<notin> set s" "CHR ''?'' \<notin> set s" "CHR ''%'' \<notin> set s"
  using assms by (auto simp: list_all_iff addr_char_def)

lemma host_char_absent:
  assumes "list_all host_char s"
  shows "CHR '':'' \<notin> set s" "CHR ''/'' \<notin> set s" "CHR ''@'' \<notin> set s"
  using assms by (auto simp: list_all_iff host_char_def is_alnum_def)

lemma digits_absent:
  assumes "list_all is_digit s"
  shows "CHR '':'' \<notin> set s" "CHR ''/'' \<notin> set s" "CHR ''@'' \<notin> set s"
  using assms by (auto simp: list_all_iff is_digit_def)

lemma alnum_noescape: "is_alnum c \<Longrightarrow> \<not> shouldEscape mode c \<and> c \<noteq> CHR ''%''"
  by (auto simp: shouldEscape_def) (simp add: is_alnum_def)

lemma dot_noescape: "\<not> shouldEscape mode (CHR ''.'')" "\<not> shouldEscape mode (CHR ''-'')"
  by (simp_all add: shouldEscape_def)

lemma host_char_noescape: "host_char c \<Longrightarrow> \<not> shouldEscape encodeHost c \<and> c \<noteq> CHR ''%''"
  by (auto simp: host_char_def dot_noescape dest: alnum_noescape)

lemma digit_noescape: "is_digit c \<Longrightarrow> \<not> shouldEscape encodeHost c \<and> c \<noteq> CHR ''%''"
  by (simp add: alnum_noescape is_digit_alnum)

lemma colon_noescape: "\<not> shouldEscape encodeHost (CHR '':'')"
  by (simp add: shouldEscape_def)

lemma parseHost_plain:
  assumes "plain_address scheme host port path"
  shows "parseHost (host @ port) = Some (host @ port)" and "escape encodeHost (host @ port) = host @ port"
    and "CHR ''@'' \<notin> set (host @ port)" and "CHR ''/'' \<notin> set (host @ port)"
    and "list_all addr_char (host @ port)"
proof -
  have h: "host \<noteq> []" "list_all host_char host"
    and p: "port = [] \<or> (hd port = CHR '':'' \<and> list_all is_digit (tl port))"
    using assms by (auto simp: plain_address_def)
  have hp: "list_all (\<lambda>c. \<not> shouldEscape encodeHost c \<and> c \<noteq> CHR ''%'') (host @ port)"
    using h(2) p host_char_noescape digit_noescape colon_noescape
    by (cases port) (auto simp: list_all_iff)
  then have un: "unescape encodeHost (host @ port) = Some (host @ port)"
    by (intro unescape_id) (auto simp: list_all_iff plain_ok_def)
  have "take 1 (host @ port) \<noteq> ''[''"
    using h by (cases host) (auto simp: host_char_def is_alnum_def)
  moreover have "cut_last (CHR '':'') (host @ port) = (if port = [] then None else Some (host, tl port))"
    using host_char_absent [OF h(2)] p digits_absent [of "tl port"]
    by (cases port) (auto simp: cut_last_absent cut_last_at)
  moreover have "port \<noteq> [] \<Longrightarrow> validOptionalPort (CHR '':'' # tl port)"
    using p by (simp add: validOptionalPort_def)
  ultimately show "parseHost (host @ port) = Some (host @ port)"
    using un by (auto simp: parseHost_def)
  show "escape encodeHost (host @ port) = host @ port"
    using hp by (intro escape_id) (auto simp: list_all_iff)
  show "CHR ''@'' \<notin> set (host @ port)" "CHR ''/'' \<notin> set (host @ port)"
    using host_char_absent [OF h(2)] p digits_absent [of "tl port"] by (cases port; auto)+
  show "list_all addr_char (host @ port)"
    using h(2) p by (cases port) (auto simp: list_all_iff host_char_addr is_digit_alnum addr_char_def [of "CHR '':''"])
qed

lemma getScheme_address:
  assumes "scheme = ''http'' \<or> scheme = ''https''"
  shows "getScheme (scheme @ CHR '':'' # rest) = Some (scheme, rest)"
  using assms by (auto simp: getScheme_def is_alpha_def is_digit_def)

lemma setPath_plain:
  assumes "list_all path_char path"
  shows "setPath path u = Some (u\<lparr>Path := path, RawPath := []\<rparr>)"
proof -
  have "unescape encodePath path = Some path"
    using assms path_char_addr by (intro unescape_id) (auto simp: list_all_iff addr_char_def plain_ok_def)
  moreover have "escape encodePath path = path"
    using assms by (intro escape_id) (auto simp: list_all_iff path_char_def)
  ultimately show ?thesis by (simp add: setPath_def)
qed

lemma parse_rest_address:
  assumes "plain_address scheme host port path"
  shows "parse_rest (''//'' @ host @ port @ path) (empty_url\<lparr>Scheme := scheme, RawQuery := q\<rparr>) =
    Some ((address_url scheme host port path)\<lparr>RawQuery := q\<rparr>)"
proof -
  note plain = parseHost_plain [OF assms]
  have path: "path = [] \<or> hd path = CHR ''/''" "list_all path_char path" and "scheme \<noteq> []"
    using assms by (auto simp: plain_address_def)
  have "cut (CHR ''/'') False ((host @ port) @ path) = (host @ port, path)"
    using path(1) plain(4) by (cases path) (auto simp: cut_absent cut_at simp flip: append_assoc)
  moreover have "parseAuthority (host @ port) = Some (None, host @ port)"
    using plain(1,3) by (simp add: parseAuthority_def cut_last_absent)
  ultimately show ?thesis
    using \<open>scheme \<noteq> []\<close> by (simp add: parse_rest_def setPath_plain [OF path(2)] address_url_def empty_url_def)
qed

lemma address_chars:
  assumes "plain_address scheme host port path"
  shows "list_all addr_char (''//'' @ host @ port @ path)"
    and "list_all addr_char (address scheme host port path)"
  using assms parseHost_plain(5) [OF assms]
  by (auto simp: plain_address_def address_def list_all_iff path_char_addr
      addr_char_def [of "CHR ''/''"] addr_char_def [of "CHR '':''"] addr_char_def [of "CHR ''h''"]
      addr_char_def [of "CHR ''t''"] addr_char_def [of "CHR ''p''"] addr_char_def [of "CHR ''s''"])

lemma url_Parse_address:
  assumes "plain_address scheme host port path"
  shows "url_Parse (address scheme host port path) = Some (address_url scheme host port path)"
proof -
  note chars = address_chars [OF assms]
  have scheme: "scheme = ''http'' \<or> scheme = ''https''" using assms by (auto simp: plain_address_def)
  have low: "map to_lower_ascii scheme = scheme" using scheme by (auto simp: to_lower_ascii_def)
  have "address scheme host port path \<noteq> ''*''" using scheme by (auto simp: address_def)
  then have "parse_no_fragment (address scheme host port path) =
      parse_rest (''//'' @ host @ port @ path) (empty_url\<lparr>Scheme := scheme, RawQuery := []\<rparr>)"
    using contains_ctl_addr [OF chars(2)] split_query_absent [OF addr_char_absent(2) [OF chars(1)]]
      getScheme_address [OF scheme]
    by (simp add: parse_no_fragment_def) (simp add: address_def low)
  then show ?thesis
    using parse_rest_address [OF assms, of "[]"]
    by (simp add: url_Parse_def cut_absent [OF addr_char_absent(1) [OF chars(2)]] address_url_def empty_url_def)
qed

definition query_char :: "char \<Rightarrow> bool" where
  "query_char c \<longleftrightarrow> 32 \<le> byte c \<and> byte c \<noteq> 127 \<and> c \<noteq> CHR ''#'' \<and> c \<noteq> CHR ''?''"

lemma alnum_query_char: "is_alnum c \<Longrightarrow> query_char c"
  by (auto simp: is_alnum_def query_char_def)

lemma QueryEscape_query_char: "c \<in> set (QueryEscape s) \<Longrightarrow> query_char c"
  using QueryEscape_chars [of c s] alnum_query_char [of c] by (auto simp: query_char_def)

lemma url_String_address:
  assumes "plain_address scheme host port path" and "q \<noteq> []"
  shows "url_String ((address_url scheme host port path)\<lparr>RawQuery := q\<rparr>) =
    address scheme host port path @ ''?'' @ q"
proof -
  note plain = parseHost_plain [OF assms(1)]
  have parts: "scheme \<noteq> []" "host \<noteq> []" "path = [] \<or> hd path = CHR ''/''" "list_all path_char path"
    using assms(1) by (auto simp: plain_address_def)
  have "escape encodePath path = path"
    using parts(4) by (intro escape_id) (auto simp: list_all_iff path_char_def)
  then have "escaped_or_raw encodePath [] path = path" by (auto simp: escaped_or_raw_def)
  then show ?thesis
    using parts(1-3) assms(2) plain(2)
    by (auto simp: url_String_def address_url_def empty_url_def url_authority_part_def
        url_path_part_def Let_def address_def)
qed

lemma join_chars: "c \<in> set (join sep ws) \<Longrightarrow> c \<in> set sep \<or> (\<exists>w\<in>set ws. c \<in> set w)"
  by (induction sep ws rule: join.induct) auto

lemma Encode_query_char: "list_all query_char (Encode ps)"
proof -
  have "query_char c" if "c \<in> set (Encode ps)" for c
  proof -
    from that consider "c = CHR ''&''" | kv where "c \<in> set (encode_pair kv)"
      by (auto simp: Encode_def dest!: join_chars)
    then show "query_char c"
    proof cases
      case 1
      then show ?thesis by (simp add: query_char_def)
    next
      case 2
      then have "c = CHR ''='' \<or> c \<in> set (QueryEscape (fst kv)) \<or> c \<in> set (QueryEscape (snd kv))"
        by (auto simp: encode_pair_def)
      then show ?thesis by (auto simp: QueryEscape_query_char) (simp add: query_char_def)
    qed
  qed
  then show ?thesis by (simp add: list_all_iff)
qed

lemma contains_ctl_simps:
  "contains_ctl (a @ b) \<longleftrightarrow> contains_ctl a \<or> contains_ctl b"
  "contains_ctl (CHR ''?'' # b) \<longleftrightarrow> contains_ctl b"
  by (simp_all add: contains_ctl_def)

lemma contains_ctl_query: "\<forall>c\<in>set s. query_char c \<Longrightarrow> \<not> contains_ctl s"
proof -
  assume "\<forall>c\<in>set s. query_char c"
  then have "\<forall>c\<in>set s. \<not> (byte c < 32 \<or> byte c = 127)" by (simp add: query_char_def not_less)
  then show ?thesis by (simp only: contains_ctl_def list_ex_iff) blast
qed

lemma split_query_at:
  assumes "CHR ''?'' \<notin> set s" and "CHR ''?'' \<notin> set q" and "q \<noteq> []"
  shows "split_query (s @ CHR ''?'' # q) u = (s, u\<lparr>RawQuery := q\<rparr>)"
proof -
  have "\<forall>c\<in>set s. c \<noteq> CHR ''?''" using assms(1) by auto
  then have "cut (CHR ''?'') True (s @ CHR ''?'' # q) = (s, q)"
    by (simp add: cut_def takeWhile_append dropWhile_append)
  moreover have "\<not> HasSuffix (s @ CHR ''?'' # q) ''?''"
  proof
    assume "HasSuffix (s @ CHR ''?'' # q) ''?''"
    then have "last (s @ CHR ''?'' # q) = CHR ''?''"
      by (metis HasSuffix_def append_take_drop_id last_snoc)
    then show False using assms(2,3) by (metis last_ConsR last_appendR last_in_set list.distinct(1))
  qed
  ultimately show ?thesis by (simp add: split_query_def)
qed

text \<open>An ordinary address with an encoded query is parsed into the same parts and the query.\<close>

lemma url_Parse_query:
  assumes "plain_address scheme host port path" and "ps \<noteq> []"
  shows "url_Parse (address scheme host port path @ CHR ''?'' # Encode ps) =
    Some ((address_url scheme host port path)\<lparr>RawQuery := Encode ps\<rparr>)"
proof -
  note chars = address_chars [OF assms(1)]
  let ?rest = "''//'' @ host @ port @ path" and ?a = "address scheme host port path"
  have scheme: "scheme = ''http'' \<or> scheme = ''https''" using assms(1) by (auto simp: plain_address_def)
  have low: "map to_lower_ascii scheme = scheme" using scheme by (auto simp: to_lower_ascii_def)
  have q: "\<forall>c\<in>set (Encode ps). query_char c" using Encode_query_char [of ps] by (simp add: list_all_iff)
  then have absent: "CHR ''#'' \<notin> set (Encode ps)" "CHR ''?'' \<notin> set (Encode ps)"
    by (auto simp: query_char_def)
  have "?a @ CHR ''?'' # Encode ps \<noteq> ''*''" using scheme by (auto simp: address_def)
  moreover have "\<not> contains_ctl (?a @ CHR ''?'' # Encode ps)"
    using contains_ctl_addr [OF chars(2)] contains_ctl_query [OF q] by (simp add: contains_ctl_simps)
  moreover have "getScheme (?a @ CHR ''?'' # Encode ps) = Some (scheme, ?rest @ CHR ''?'' # Encode ps)"
    using getScheme_address [OF scheme] by (simp add: address_def)
  moreover have "split_query (?rest @ CHR ''?'' # Encode ps) u = (?rest, u\<lparr>RawQuery := Encode ps\<rparr>)" for u
    using assms(2) absent(2) by (intro split_query_at addr_char_absent(2) [OF chars(1)]) (simp_all add: Encode_Nil_iff)
  ultimately have "parse_no_fragment (?a @ CHR ''?'' # Encode ps) =
      Some ((address_url scheme host port path)\<lparr>RawQuery := Encode ps\<rparr>)"
    using parse_rest_address [OF assms(1)] by (simp add: parse_no_fragment_def low)
  moreover have "CHR ''#'' \<notin> set (?a @ CHR ''?'' # Encode ps)"
    using addr_char_absent(1) [OF chars(2)] absent(1) by simp
  ultimately show ?thesis by (simp add: url_Parse_def cut_absent)
qed

end
