(* ===== verification/GoBase64.thy ===== *)
theory GoBase64
  imports GoText
begin

text \<open>
  \<^verbatim>\<open>base64.StdEncoding\<close>: the client sends the password in it and the volume listing
  wraps its page tokens in it. Encoding works on groups of three bytes, with \<open>=\<close> padding;
  decoding ignores line breaks and rejects everything else outside the alphabet, a wrong
  length and wrong padding.
\<close>

definition b64_alphabet :: string where
  "b64_alphabet = ''ABCDEFGHIJKLMNOPQRSTUVWXYZabcdefghijklmnopqrstuvwxyz0123456789+/''"

definition b64_char :: "nat \<Rightarrow> char" where
  "b64_char n = b64_alphabet ! n"

definition b64_val :: "char \<Rightarrow> nat option" where
  "b64_val c =
     (if 65 \<le> byte c \<and> byte c \<le> 90 then Some (byte c - 65)
      else if 97 \<le> byte c \<and> byte c \<le> 122 then Some (byte c - 71)
      else if 48 \<le> byte c \<and> byte c \<le> 57 then Some (byte c + 4)
      else if c = CHR ''+'' then Some 62
      else if c = CHR ''/'' then Some 63
      else None)"

fun EncodeToString :: "string \<Rightarrow> string" where
  "EncodeToString [] = []"
| "EncodeToString [a] =
     [b64_char (byte a div 4), b64_char (byte a mod 4 * 16), CHR ''='', CHR ''='']"
| "EncodeToString [a, b] =
     [b64_char (byte a div 4), b64_char (byte a mod 4 * 16 + byte b div 16),
      b64_char (byte b mod 16 * 4), CHR ''='']"
| "EncodeToString (a # b # c # rest) =
     b64_char (byte a div 4) # b64_char (byte a mod 4 * 16 + byte b div 16)
     # b64_char (byte b mod 16 * 4 + byte c div 64) # b64_char (byte c mod 64)
     # EncodeToString rest"

fun b64_quanta :: "string \<Rightarrow> string option" where
  "b64_quanta [] = Some []"
| "b64_quanta (p # q # r # s # rest) =
     (case (b64_val p, b64_val q) of
        (Some i, Some j) \<Rightarrow>
          if r = CHR ''='' then
            (if s = CHR ''='' \<and> rest = [] then Some [char_of (i * 4 + j div 16)] else None)
          else
            (case b64_val r of
               None \<Rightarrow> None
             | Some k \<Rightarrow>
                 if s = CHR ''='' then
                   (if rest = []
                    then Some [char_of (i * 4 + j div 16), char_of (j mod 16 * 16 + k div 4)]
                    else None)
                 else
                   (case (b64_val s, b64_quanta rest) of
                      (Some l, Some out) \<Rightarrow>
                        Some (char_of (i * 4 + j div 16) # char_of (j mod 16 * 16 + k div 4)
                              # char_of (k mod 4 * 64 + l) # out)
                    | _ \<Rightarrow> None))
      | _ \<Rightarrow> None)"
| "b64_quanta _ = None"

definition is_newline :: "char \<Rightarrow> bool" where
  "is_newline c \<longleftrightarrow> c = char_of (10 :: nat) \<or> c = char_of (13 :: nat)"

definition DecodeString :: "string \<Rightarrow> string option" where
  "DecodeString s = b64_quanta (filter (\<lambda>c. \<not> is_newline c) s)"

section \<open>Decoding undoes encoding\<close>

lemma b64_char_table:
  "\<forall>n\<in>set [0..<64]. b64_val (b64_char n) = Some n \<and> \<not> is_newline (b64_char n) \<and> b64_char n \<noteq> CHR ''=''"
  by (simp add: upt_rec b64_char_def b64_alphabet_def b64_val_def is_newline_def nth_Cons_numeral
      char_of_def)

lemma b64_char_ok [simp]:
  assumes "n < 64"
  shows "b64_val (b64_char n) = Some n" and "\<not> is_newline (b64_char n)" and "b64_char n \<noteq> CHR ''=''"
  using b64_char_table assms by auto

lemma pad_not_newline [simp]: "\<not> is_newline (CHR ''='')"
  by (simp add: is_newline_def char_of_def)

lemma byte_div [simp]: "byte x div 4 < 64" "byte x div 16 < 16" "byte x div 64 < 4"
  by (rule less_mult_imp_div_less, simp)+

lemma sextets [simp]:
  "byte x mod 4 * 16 < 64" "byte x mod 4 * 16 + byte y div 16 < 64"
  "byte y mod 16 * 4 < 64" "byte y mod 16 * 4 + byte z div 64 < 64" "byte z mod 64 < 64"
proof -
  have "byte x mod 4 < 4" "byte y mod 16 < 16" by simp_all
  moreover have "byte y div 16 < 16" "byte z div 64 < 4" by simp_all
  ultimately show "byte x mod 4 * 16 < 64" "byte x mod 4 * 16 + byte y div 16 < 64"
    "byte y mod 16 * 4 < 64" "byte y mod 16 * 4 + byte z div 64 < 64" by linarith+
qed simp

lemma octets [simp]:
  "byte y div 16 div 16 = 0" "byte z div 64 div 4 = 0"
  "byte y div 16 mod 16 * 16 + byte y mod 16 = byte y"
  "byte z div 64 mod 4 * 64 + byte z mod 64 = byte z"
proof -
  show "byte y div 16 div 16 = 0" "byte z div 64 div 4 = 0" by simp_all
  have "byte y div 16 mod 16 = byte y div 16" "byte z div 64 mod 4 = byte z div 64" by simp_all
  then show "byte y div 16 mod 16 * 16 + byte y mod 16 = byte y"
    "byte z div 64 mod 4 * 64 + byte z mod 64 = byte z"
    by (simp_all only: div_mult_mod_eq)
qed

lemma EncodeToString_no_newline [simp]:
  "filter (\<lambda>c. \<not> is_newline c) (EncodeToString s) = EncodeToString s"
  by (induction s rule: EncodeToString.induct) simp_all

lemma b64_quanta_Encode: "b64_quanta (EncodeToString s) = Some s"
proof (induction s rule: EncodeToString.induct)
  case (2 a)
  then show ?case by simp
next
  case (3 a b)
  then show ?case by simp
next
  case (4 a b c rest)
  then show ?case by simp
qed simp

lemma Decode_Encode: "DecodeString (EncodeToString s) = Some s"
  by (simp add: DecodeString_def b64_quanta_Encode)

interpretation base64: codec EncodeToString DecodeString "\<lambda>_. True"
  by unfold_locales (rule Decode_Encode)

lemma EncodeToString_Nil_iff [simp]: "EncodeToString s = [] \<longleftrightarrow> s = []"
  by (cases s rule: EncodeToString.cases) auto

end
