(* ===== verification/GoUtf8.thy ===== *)
theory GoUtf8
  imports GoText
begin

text \<open>
  Decoding of a Go string into runes, as \<^verbatim>\<open>range\<close> loops, \<^verbatim>\<open>strings.Map\<close> and the
  regular expressions see it: a byte that starts no valid UTF-8 sequence is one replacement
  rune of width one. Runes are natural numbers.
\<close>

definition RuneError :: nat where
  "RuneError = 65533"

definition cont :: "nat \<Rightarrow> bool" where
  "cont b \<longleftrightarrow> 128 \<le> b \<and> b \<le> 191"

text \<open>The rune and its width at the head of a non-empty byte list.\<close>

definition decode_two :: "nat \<Rightarrow> nat list \<Rightarrow> nat \<times> nat" where
  "decode_two b0 rest =
     (case rest of
        b1 # _ \<Rightarrow> if cont b1 then ((b0 - 192) * 64 + (b1 - 128), 2) else (RuneError, 1)
      | [] \<Rightarrow> (RuneError, 1))"

definition decode_three :: "nat \<Rightarrow> nat list \<Rightarrow> nat \<times> nat" where
  "decode_three b0 rest =
     (case rest of
        b1 # b2 # _ \<Rightarrow>
          if (if b0 = 224 then 160 else 128) \<le> b1 \<and> b1 \<le> (if b0 = 237 then 159 else 191) \<and> cont b2
          then ((b0 - 224) * 4096 + (b1 - 128) * 64 + (b2 - 128), 3)
          else (RuneError, 1)
      | _ \<Rightarrow> (RuneError, 1))"

definition decode_four :: "nat \<Rightarrow> nat list \<Rightarrow> nat \<times> nat" where
  "decode_four b0 rest =
     (case rest of
        b1 # b2 # b3 # _ \<Rightarrow>
          if (if b0 = 240 then 144 else 128) \<le> b1 \<and> b1 \<le> (if b0 = 244 then 143 else 191)
             \<and> cont b2 \<and> cont b3
          then ((b0 - 240) * 262144 + (b1 - 128) * 4096 + (b2 - 128) * 64 + (b3 - 128), 4)
          else (RuneError, 1)
      | _ \<Rightarrow> (RuneError, 1))"

definition decode_rune :: "nat \<Rightarrow> nat list \<Rightarrow> nat \<times> nat" where
  "decode_rune b0 rest =
     (if b0 < 128 then (b0, 1)
      else if 194 \<le> b0 \<and> b0 \<le> 223 then decode_two b0 rest
      else if 224 \<le> b0 \<and> b0 \<le> 239 then decode_three b0 rest
      else if 240 \<le> b0 \<and> b0 \<le> 244 then decode_four b0 rest
      else (RuneError, 1))"

function go_runes :: "nat list \<Rightarrow> nat list" where
  "go_runes [] = []"
| "go_runes (b # rest) = (case decode_rune b rest of (r, w) \<Rightarrow> r # go_runes (drop (w - 1) rest))"
  by pat_completeness auto
termination
  by (relation "measure length") auto

definition runes :: "string \<Rightarrow> nat list" where
  "runes s = go_runes (map of_char s)"

lemma go_runes_ascii: "list_all (\<lambda>b. b < 128) bs \<Longrightarrow> go_runes bs = bs"
  by (induction bs) (simp_all add: decode_rune_def)

lemma runes_ascii: "list_all (\<lambda>c. byte c < 128) s \<Longrightarrow> runes s = map of_char s"
  by (simp add: runes_def go_runes_ascii list_all_iff)

section \<open>Lower case\<close>

text \<open>
  \<^verbatim>\<open>unicode.ToLower\<close> as far as its value can be an ASCII rune: the capital letters, the
  dotted capital I (U+0130) and the Kelvin sign (U+212A). Every other rune above ASCII lowers
  to a rune above ASCII, which is all the caller observes of it.
\<close>

definition rune_lower :: "nat \<Rightarrow> nat" where
  "rune_lower r =
     (if 65 \<le> r \<and> r \<le> 90 then r + 32
      else if r = 304 then 105
      else if r = 8490 then 107
      else r)"

section \<open>White space\<close>

definition is_space_rune :: "nat \<Rightarrow> bool" where
  "is_space_rune r \<longleftrightarrow>
     (9 \<le> r \<and> r \<le> 13) \<or> r = 32 \<or> r = 133 \<or> r = 160 \<or> r = 5760 \<or> (8192 \<le> r \<and> r \<le> 8202)
     \<or> r = 8232 \<or> r = 8233 \<or> r = 8239 \<or> r = 8287 \<or> r = 12288"

definition trim_runes :: "nat list \<Rightarrow> nat list" where
  "trim_runes rs = rev (dropWhile is_space_rune (rev (dropWhile is_space_rune rs)))"

lemma trim_runes_id: "list_all (\<lambda>r. \<not> is_space_rune r) rs \<Longrightarrow> trim_runes rs = rs"
proof -
  assume a: "list_all (\<lambda>r. \<not> is_space_rune r) rs"
  have id: "dropWhile is_space_rune xs = xs" if "list_all (\<lambda>r. \<not> is_space_rune r) xs" for xs
    using that by (cases xs) auto
  from a have "list_all (\<lambda>r. \<not> is_space_rune r) (rev rs)" by (simp add: list_all_iff)
  with a show ?thesis by (simp add: trim_runes_def id)
qed

end
