(* ===== verification/XmlData.thy ===== *)
theory XmlData
  imports GoUtf8
begin

text \<open>
  Documents of the NAS and the part of \<^verbatim>\<open>encoding/xml\<close> that fills the client's
  structs. A document is its tree of elements and character data; attributes, comments and
  processing instructions are never read by the client. A struct field tagged \<open>a>b>c\<close>
  receives every element reached from the root by the tags \<open>a\<close>, \<open>b\<close>, \<open>c\<close> in document
  order: a scalar keeps the last one, a slice collects them, and one number that does not parse
  makes the whole document an error.
\<close>

datatype xml = Elem (tag: string) (children: "xml list") | CData (chardata: string)

definition has_tag :: "string \<Rightarrow> xml \<Rightarrow> bool" where
  "has_tag t x = (case x of Elem n _ \<Rightarrow> n = t | CData _ \<Rightarrow> False)"

fun xml_select :: "string list \<Rightarrow> xml \<Rightarrow> xml list" where
  "xml_select [] x = [x]"
| "xml_select (t # ts) (Elem n cs) = concat (map (xml_select ts) (filter (has_tag t) cs))"
| "xml_select (t # ts) (CData s) = []"

text \<open>The character data directly inside an element; data of nested elements is skipped.\<close>

definition xml_text :: "xml \<Rightarrow> string" where
  "xml_text x =
     (case x of
        Elem _ cs \<Rightarrow> concat (map (\<lambda>y. case y of CData s \<Rightarrow> s | Elem _ _ \<Rightarrow> []) cs)
      | CData s \<Rightarrow> s)"

section \<open>Numbers\<close>

text \<open>Empty data is zero; otherwise white space is trimmed and the rest must parse.\<close>

definition trimmed_ascii :: "string \<Rightarrow> string option" where
  "trimmed_ascii s =
     (let rs = trim_runes (runes s)
      in if list_all (\<lambda>r. r < 128) rs then Some (map char_of rs) else None)"

definition int_of_text :: "string \<Rightarrow> int option" where
  "int_of_text s = (if s = [] then Some 0 else Option.bind (trimmed_ascii s) Atoi)"

definition uint64_of_text :: "string \<Rightarrow> 64 word option" where
  "uint64_of_text s = (if s = [] then Some 0 else Option.bind (trimmed_ascii s) ParseUint64)"

section \<open>Fields\<close>

definition xml_string :: "string list \<Rightarrow> xml \<Rightarrow> string" where
  "xml_string path root = (case xml_select path root of [] \<Rightarrow> [] | es \<Rightarrow> xml_text (last es))"

definition xml_ints :: "string list \<Rightarrow> xml \<Rightarrow> int list option" where
  "xml_ints path root = those (map (\<lambda>e. int_of_text (xml_text e)) (xml_select path root))"

definition last_or :: "'a \<Rightarrow> 'a list \<Rightarrow> 'a" where
  "last_or d xs = (if xs = [] then d else last xs)"

definition xml_int :: "string list \<Rightarrow> xml \<Rightarrow> int option" where
  "xml_int path root = map_option (last_or 0) (xml_ints path root)"

definition xml_uint64 :: "string list \<Rightarrow> xml \<Rightarrow> 64 word option" where
  "xml_uint64 path root =
     map_option (last_or 0)
       (those (map (\<lambda>e. uint64_of_text (xml_text e)) (xml_select path root)))"

section \<open>Building documents\<close>

text \<open>Leaf elements, and what the readers return on them.\<close>

definition leaf :: "string \<Rightarrow> string \<Rightarrow> xml" where
  "leaf t s = Elem t [CData s]"

lemma has_tag_simps [simp]:
  "has_tag t (Elem n cs) \<longleftrightarrow> n = t" "\<not> has_tag t (CData s)" "has_tag t (leaf n s) \<longleftrightarrow> n = t"
  by (auto simp: has_tag_def leaf_def)

lemma xml_text_leaf [simp]: "xml_text (leaf t s) = s"
  by (simp add: xml_text_def leaf_def)

lemma trimmed_ascii_id:
  assumes "list_all (\<lambda>c. byte c < 128 \<and> \<not> is_space_rune (byte c)) s"
  shows "trimmed_ascii s = Some s"
proof -
  have "runes s = map of_char s" using assms by (intro runes_ascii) (simp add: list_all_iff)
  moreover have "trim_runes (map of_char s) = map of_char s"
    using assms by (intro trim_runes_id) (simp add: list_all_iff)
  ultimately show ?thesis using assms by (auto simp: trimmed_ascii_def list_all_iff comp_def)
qed

lemma Itoa_plain: "list_all (\<lambda>c. byte c < 128 \<and> \<not> is_space_rune (byte c)) (Itoa i)"
  by (auto simp: list_all_iff is_digit_def is_space_rune_def dest!: Itoa_chars)

lemma int_of_text_Itoa: "in_int64 i \<Longrightarrow> int_of_text (Itoa i) = Some i"
  by (simp add: int_of_text_def trimmed_ascii_id [OF Itoa_plain] Atoi_Itoa)

lemma uint64_of_text_dec: "n < 2 ^ 64 \<Longrightarrow> uint64_of_text (dec_nat n) = Some (of_nat n)"
  using trimmed_ascii_id [OF Itoa_plain [of "int n"]]
  by (simp add: uint64_of_text_def ParseUint64_def Itoa_def)

interpretation xml_number: codec Itoa int_of_text in_int64
  by unfold_locales (rule int_of_text_Itoa)

lemma int_of_text_int64: "int_of_text s = Some i \<Longrightarrow> in_int64 i"
  by (auto simp: int_of_text_def bind_eq_Some_conv in_int64_def [of 0] dest: Atoi_int64 split: if_splits)

lemma xml_ints_int64:
  assumes "xml_ints path root = Some is"
  shows "\<forall>i\<in>set is. in_int64 i"
proof
  fix i assume "i \<in> set is"
  moreover have "map (\<lambda>e. int_of_text (xml_text e)) (xml_select path root) = map Some is"
    using assms by (simp add: xml_ints_def those_SomeD)
  ultimately have "Some i \<in> set (map (\<lambda>e. int_of_text (xml_text e)) (xml_select path root))"
    by simp
  then obtain e where "int_of_text (xml_text e) = Some i" by auto
  then show "in_int64 i" by (rule int_of_text_int64)
qed

lemma xml_int_int64: "xml_int path root = Some i \<Longrightarrow> in_int64 i"
  by (auto simp: xml_int_def last_or_def in_int64_def [of 0] dest!: xml_ints_int64)

end
