(* ===== verification/NasData.thy ===== *)
theory NasData
  imports XmlData
begin

text \<open>
  The response structs of \<^verbatim>\<open>qnap/api.go\<close> and how \<^verbatim>\<open>xml.Unmarshal\<close> fills them:
  one record per struct, one reader per struct with the paths of its field tags. A reader
  returns \<open>None\<close> where a numeric field does not parse. With them the status texts the driver
  branches on.
\<close>

section \<open>Login\<close>

record loginRespXML =
  login_AuthPassed :: string
  login_AuthSid :: string

definition unmarshalLogin :: "xml \<Rightarrow> loginRespXML option" where
  "unmarshalLogin d = Some
     \<lparr>login_AuthPassed = xml_string [''authPassed''] d, login_AuthSid = xml_string [''authSid''] d\<rparr>"

section \<open>Storage pools and logical volumes\<close>

record storagePoolSubscriptionInfo =
  PoolID :: int
  CapacityBytes :: "64 word"
  FreesizeBytes :: "64 word"
  MaxThickCreateSizeBytes :: "64 word"
  ThinVolumeTotal :: "64 word"
  ThinLUNTotal :: "64 word"
  ThickVolumeTotal :: "64 word"
  ThickLUNTotal :: "64 word"
  VaultTotal :: "64 word"
  SnapshotBytes :: "64 word"

record storagePoolSubscriptionResp =
  pool_Result :: string
  PoolSubscription :: storagePoolSubscriptionInfo

definition unmarshalPoolInfo :: "xml \<Rightarrow> storagePoolSubscriptionInfo option" where
  "unmarshalPoolInfo d =
     (let f = (\<lambda>t. xml_uint64 [''PoolSubscription'', t] d)
      in case (xml_int [''PoolSubscription'', ''poolID''] d,
               those [f ''capacity_bytes'', f ''freesize_bytes'', f ''max_thick_create_size_bytes'',
                      f ''thinVolTotal'', f ''thinLUNTotal'', f ''thickVolTotal'', f ''thickLUNTotal'',
                      f ''vaultTotal'', f ''snapshot_bytes'']) of
           (Some p, Some [c, r, m, tv, tn, kv, kn, v, s]) \<Rightarrow> Some
             \<lparr>PoolID = p, CapacityBytes = c, FreesizeBytes = r, MaxThickCreateSizeBytes = m,
              ThinVolumeTotal = tv, ThinLUNTotal = tn, ThickVolumeTotal = kv, ThickLUNTotal = kn,
              VaultTotal = v, SnapshotBytes = s\<rparr>
         | _ \<Rightarrow> None)"

definition unmarshalPool :: "xml \<Rightarrow> storagePoolSubscriptionResp option" where
  "unmarshalPool d =
     map_option (\<lambda>i. \<lparr>pool_Result = xml_string [''result''] d, PoolSubscription = i\<rparr>)
       (unmarshalPoolInfo d)"

record logicalVolumeInfo =
  vol_Index :: string
  vol_Status :: string
  vol_Label :: string
  vol_LUNIndex :: string
  vol_Type :: string
  StaticVolume :: string
  vol_StoragePoolID :: string
  VirtualJBOD :: string
  UIType :: string
  LogicalVolumeType :: string
  MetadataSize :: string
  EncryptFSEnabled :: string
  EncryptFSActive :: string
  CacheVolIsConverting :: string
  Unclean :: string
  NeedsRehash :: string
  Creating :: string
  BaseID :: string
  MappingName :: string

definition VolumeTypeString :: "logicalVolumeInfo \<Rightarrow> string" where
  "VolumeTypeString l =
     (if vol_Type l = ''1'' then ''Thick Volume''
      else if vol_Type l = ''3'' then ''Block-based Thick LUN''
      else ''Unknown ID '' @ vol_Type l)"

record storageLogicalVolumeResp =
  lv_Result :: string
  VolumeCreatingProcess :: int
  Volumes :: "logicalVolumeInfo list"

definition unmarshalVolume :: "xml \<Rightarrow> logicalVolumeInfo" where
  "unmarshalVolume d =
     (let f = (\<lambda>t. xml_string [t] d)
      in \<lparr>vol_Index = f ''vol_no'', vol_Status = f ''vol_status'', vol_Label = f ''vol_label'',
          vol_LUNIndex = f ''LUNIndex'', vol_Type = f ''volume_type'', StaticVolume = f ''static_volume'',
          vol_StoragePoolID = f ''poolID'', VirtualJBOD = f ''pool_vjbod'',
          UIType = f ''volume_ui_type'', LogicalVolumeType = f ''lv_type'',
          MetadataSize = f ''tp_metadata_size'', EncryptFSEnabled = f ''encryptfs_bool'',
          EncryptFSActive = f ''encryptfs_active_bool'',
          CacheVolIsConverting = f ''cache_vol_is_converting'', Unclean = f ''unclean'',
          NeedsRehash = f ''need_rehash'', Creating = f ''creating'', BaseID = f ''baseID'',
          MappingName = f ''mappingName''\<rparr>)"

definition unmarshalVolumes :: "xml \<Rightarrow> storageLogicalVolumeResp option" where
  "unmarshalVolumes d =
     map_option (\<lambda>n. \<lparr>lv_Result = xml_string [''result''] d, VolumeCreatingProcess = n,
                      Volumes = map unmarshalVolume (xml_select [''Volume_Index'', ''row''] d)\<rparr>)
       (xml_int [''vol_creating_process''] d)"

section \<open>LUNs\<close>

record lunTarget =
  lt_TargetIndex :: string
  lt_LUNNumber :: string
  lt_LUNEnable :: string

record lunInitiator =
  li_InitiatorIndex :: string
  li_InitiatorIQN :: string
  li_AccessMode :: string

record lunResp =
  lun_AuthPassed :: string
  lun_Result :: string
  lun_Index :: string
  lun_Name :: string
  lun_Path :: string
  lun_VolFree :: string
  lun_Capacity :: string
  lun_Status :: string
  lun_OPPercent :: string
  lun_Enable :: string
  lun_ThinAllocate :: string
  lun_IsRemoving :: string
  lun_BMap :: string
  lun_SerialNum :: string
  lun_BackupStatus :: string
  lun_IsSnap :: string
  lun_CapacityBytes :: string
  lun_VolumeBase :: string
  lun_VirtualBased :: string
  lun_VirtualDiskName :: string
  lun_WCEnable :: string
  lun_FUAEnable :: string
  lun_Threshold :: string
  lun_NAA :: string
  lun_SectorSize :: string
  lun_SSDCache :: string
  lun_StoragePoolID :: string
  lun_VolumeNumber :: string
  lun_PoolType :: string
  lun_SnapshotCount :: string
  lun_LogicalVolumeCapacity :: string
  lun_LogicalVolumeAllocated :: string
  lun_BlockBaseUsedPercent :: string
  lun_BlockSize :: string
  lun_FileBaseUsedPercent :: string
  lun_Targets :: "lunTarget list"
  lun_Initiators :: "lunInitiator list"

definition lun_StatusString :: "lunResp \<Rightarrow> string" where
  "lun_StatusString l =
     (if lun_Status l = ''-1'' then ''removing''
      else if lun_Status l = ''-2'' then ''not_found''
      else if lun_Status l = ''0'' then ''creating''
      else if lun_Status l = ''1'' then ''ready''
      else ''unknown LUN status '' @ lun_Status l)"

definition unmarshalLunTarget :: "xml \<Rightarrow> lunTarget" where
  "unmarshalLunTarget d =
     \<lparr>lt_TargetIndex = xml_string [''targetIndex''] d, lt_LUNNumber = xml_string [''LUNNumber''] d,
      lt_LUNEnable = xml_string [''LUNEnable''] d\<rparr>"

definition unmarshalLunInitiator :: "xml \<Rightarrow> lunInitiator" where
  "unmarshalLunInitiator d =
     \<lparr>li_InitiatorIndex = xml_string [''initiatorIndex''] d,
      li_InitiatorIQN = xml_string [''initiatorIQN''] d,
      li_AccessMode = xml_string [''accessMode''] d\<rparr>"

definition unmarshalLun :: "xml \<Rightarrow> lunResp option" where
  "unmarshalLun d =
     (let f = (\<lambda>t. xml_string [''LUNInfo'', ''row'', t] d)
      in Some
         \<lparr>lun_AuthPassed = xml_string [''authPassed''] d, lun_Result = xml_string [''result''] d,
          lun_Index = f ''LUNIndex'', lun_Name = f ''LUNName'', lun_Path = f ''LUNPath'',
          lun_VolFree = f ''LUNVolFree'', lun_Capacity = f ''LUNCapacity'',
          lun_Status = f ''LUNStatus'', lun_OPPercent = f ''LUNOPPercent'',
          lun_Enable = f ''LUNEnable'', lun_ThinAllocate = f ''LUNThinAllocate'',
          lun_IsRemoving = f ''isRemoving'', lun_BMap = f ''bMap'',
          lun_SerialNum = f ''LUNSerialNum'', lun_BackupStatus = f ''LUNBackupStatus'',
          lun_IsSnap = f ''isSnap'', lun_CapacityBytes = f ''capacity_bytes'',
          lun_VolumeBase = f ''VolumeBase'', lun_VirtualBased = f ''virtual_based'',
          lun_VirtualDiskName = f ''virtual_disk_name'', lun_WCEnable = f ''WCEnable'',
          lun_FUAEnable = f ''FUAEnable'', lun_Threshold = f ''LUNThreshold'',
          lun_NAA = f ''LUNNAA'', lun_SectorSize = f ''LUNSectorSize'',
          lun_SSDCache = f ''ssd_cache'', lun_StoragePoolID = f ''poolID'',
          lun_VolumeNumber = f ''volno'', lun_PoolType = f ''pool_type'',
          lun_SnapshotCount = f ''snapshot_count'', lun_LogicalVolumeCapacity = f ''lv_capacity'',
          lun_LogicalVolumeAllocated = f ''lv_allocated'',
          lun_BlockBaseUsedPercent = f ''block_base_used_percent'',
          lun_BlockSize = f ''block_size'',
          lun_FileBaseUsedPercent = f ''file_base_used_percent'',
          lun_Targets = map unmarshalLunTarget
            (xml_select [''LUNInfo'', ''row'', ''LUNTargetList'', ''row''] d),
          lun_Initiators = map unmarshalLunInitiator
            (xml_select [''LUNInfo'', ''row'', ''LUNInitList'', ''LUNInitInfo''] d)\<rparr>)"

section \<open>Targets\<close>

record initConnInfo =
  ConnectionType :: string
  ic_InitiatorIQN :: string
  ic_IP :: string
  ConnectionStatus :: string
  ServerName :: string

record targetInfo =
  TargetIndex :: int
  target_Name :: string
  IQN :: string
  Alias :: string
  target_Status :: string
  TargetLUNs :: "int list"
  InitiatorConnections :: "initConnInfo list"

definition target_StatusString :: "targetInfo \<Rightarrow> string" where
  "target_StatusString t =
     (if target_Status t = ''-1'' then ''offline''
      else if target_Status t = ''0'' then ''ready''
      else if target_Status t = ''1'' then ''connected''
      else ''unknown status '' @ target_Status t)"

record targetListResp =
  tl_AuthPassed :: string
  tl_Result :: string
  Targets :: "targetInfo list"

definition unmarshalInitConn :: "xml \<Rightarrow> initConnInfo" where
  "unmarshalInitConn d =
     \<lparr>ConnectionType = xml_string [''connection_type''] d,
      ic_InitiatorIQN = xml_string [''initiatorIQN''] d, ic_IP = xml_string [''IP''] d,
      ConnectionStatus = xml_string [''connection_status''] d,
      ServerName = xml_string [''server_name''] d\<rparr>"

definition unmarshalTarget :: "xml \<Rightarrow> targetInfo option" where
  "unmarshalTarget d =
     (case (xml_int [''targetIndex''] d, xml_ints [''targetLUNList'', ''LUNIndex''] d) of
        (Some i, Some luns) \<Rightarrow> Some
          \<lparr>TargetIndex = i, target_Name = xml_string [''targetName''] d,
           IQN = xml_string [''targetIQN''] d, Alias = xml_string [''targetAlias''] d,
           target_Status = xml_string [''targetStatus''] d, TargetLUNs = luns,
           InitiatorConnections = map unmarshalInitConn
             (xml_select [''initiatorConnList'', ''initiatorConnInfo''] d)\<rparr>
      | _ \<Rightarrow> None)"

definition unmarshalTargetList :: "xml \<Rightarrow> targetListResp option" where
  "unmarshalTargetList d =
     map_option (\<lambda>ts. \<lparr>tl_AuthPassed = xml_string [''authPassed''] d,
                       tl_Result = xml_string [''result''] d, Targets = ts\<rparr>)
       (those (map unmarshalTarget (xml_select [''iSCSITargetList'', ''targetInfo''] d)))"

section \<open>Results of changes\<close>

text \<open>
  Creating and deleting targets, creating initiators, deleting and attaching LUNs all answer
  with the same two fields; creating a LUN answers with one more.
\<close>

record resultResp =
  rr_AuthPassed :: string
  rr_Result :: int

record createBlockLUNResp =
  cb_AuthPassed :: string
  cb_Result :: int
  VolumeID :: int

definition unmarshalResult :: "xml \<Rightarrow> resultResp option" where
  "unmarshalResult d =
     map_option (\<lambda>r. \<lparr>rr_AuthPassed = xml_string [''authPassed''] d, rr_Result = r\<rparr>)
       (xml_int [''result''] d)"

definition unmarshalCreateBlockLUN :: "xml \<Rightarrow> createBlockLUNResp option" where
  "unmarshalCreateBlockLUN d =
     (case (xml_int [''result''] d, xml_int [''volumeID''] d) of
        (Some r, Some v) \<Rightarrow> Some
          \<lparr>cb_AuthPassed = xml_string [''authPassed''] d, cb_Result = r, VolumeID = v\<rparr>
      | _ \<Rightarrow> None)"

section \<open>Ranges\<close>

lemma unmarshalTarget_int64:
  assumes "unmarshalTarget d = Some t"
  shows "in_int64 (TargetIndex t)" and "\<forall>l\<in>set (TargetLUNs t). in_int64 l"
  using assms xml_int_int64 xml_ints_int64
  by (auto simp: unmarshalTarget_def split: option.splits)

lemma unmarshalTargetList_int64:
  assumes "unmarshalTargetList d = Some r" and "t \<in> set (Targets r)"
  shows "in_int64 (TargetIndex t)"
proof -
  obtain ts where ts: "those (map unmarshalTarget (xml_select [''iSCSITargetList'', ''targetInfo''] d)) = Some ts"
    and r: "Targets r = ts"
    using assms(1) by (auto simp: unmarshalTargetList_def)
  have "Some t \<in> set (map Some ts)" using assms(2) r by simp
  then have "Some t \<in> set (map unmarshalTarget (xml_select [''iSCSITargetList'', ''targetInfo''] d))"
    by (simp only: those_SomeD [OF ts])
  then obtain e where "unmarshalTarget e = Some t" by auto
  then show ?thesis by (rule unmarshalTarget_int64(1))
qed

end
