(* ===== verification/Client.thy ===== *)
theory Client
  imports GoAddress GoBase64 NasData
begin

text \<open>
  \<^verbatim>\<open>qnap/api.go\<close> and \<^verbatim>\<open>qnap/utils.go\<close>: the client of the NAS. The NAS with the
  network in front of it is a parameter \<open>nas\<close>, a function from a request and the hidden state
  \<open>'w\<close> of the other side to a reply and its new state; nothing is assumed of it here, and a reply
  may never come. The mutable \<^verbatim>\<open>Client\<close> a driver points to is the field \<open>cl\<close> of the state.
\<close>

section \<open>Requests and replies\<close>

record http_request =
  req_method :: string
  req_url :: string
  req_header :: form
  req_body :: string

text \<open>
  A call fails in transport, or returns a status and a body, or gets no reply: the HTTP client has
  no timeout and every request is made with the background context, so that nothing ends a call
  to a NAS that accepts the connection and stays silent. The body cannot be read (\<open>Inl\<close>), is no
  well-formed document (\<open>Inr None\<close>), or is a document.
\<close>

datatype http_reply = DoErr string | Response int "string + xml option" | NoReply

type_synonym 'w nas = "http_request \<Rightarrow> 'w \<Rightarrow> http_reply \<times> 'w"

datatype gerror = ErrorString string | TransportError string | UrlError | XmlError

section \<open>The client\<close>

record client =
  baseURL :: url
  loginEndpoint :: string
  diskManageEndpoint :: string
  iscsiPortalEndpoint :: string
  iscsiTargetSettingsEndpoint :: string
  iscsiLunSettingsEndpoint :: string
  Username :: string
  Password :: string
  sid :: string

record 'w st =
  cl :: client
  net :: 'w

definition NewClient :: "string \<Rightarrow> string \<Rightarrow> string \<Rightarrow> gerror + client" where
  "NewClient username password qnapURL =
     (let trimmedBase = TrimRight qnapURL ''/''
      in case url_Parse trimmedBase of
           None \<Rightarrow> Inl UrlError
         | Some parsedURL \<Rightarrow> Inr
             \<lparr>baseURL = parsedURL,
              loginEndpoint = trimmedBase @ ''/cgi-bin/authLogin.cgi'',
              diskManageEndpoint = trimmedBase @ ''/cgi-bin/disk/disk_manage.cgi'',
              iscsiPortalEndpoint = trimmedBase @ ''/cgi-bin/disk/iscsi_portal_setting.cgi'',
              iscsiTargetSettingsEndpoint = trimmedBase @ ''/cgi-bin/disk/iscsi_target_setting.cgi'',
              iscsiLunSettingsEndpoint = trimmedBase @ ''/cgi-bin/disk/iscsi_lun_setting.cgi'',
              Username = username,
              Password = EncodeToString password,
              sid = ''''\<rparr>)"

definition b2is :: "bool \<Rightarrow> string" where
  "b2is value = (if value then ''1'' else ''0'')"

definition b2yn :: "bool \<Rightarrow> string" where
  "b2yn value = (if value then ''yes'' else ''no'')"

text \<open>\<open>None\<close> is the nil dereference after a failed parse.\<close>

definition addParamsToURL :: "string \<Rightarrow> form \<Rightarrow> string option" where
  "addParamsToURL base params =
     (case url_Parse base of
        None \<Rightarrow> None
      | Some parsedURL \<Rightarrow> Some (url_String (parsedURL\<lparr>RawQuery := Encode params\<rparr>)))"

definition withURL :: "string \<Rightarrow> form \<Rightarrow> (string \<Rightarrow> ('s, 'e, 'a) io) \<Rightarrow> ('s, 'e, 'a) io" where
  "withURL base params k =
     (case addParamsToURL base params of None \<Rightarrow> panic | Some endpoint \<Rightarrow> k endpoint)"

definition post_request :: "string \<Rightarrow> string \<Rightarrow> http_request" where
  "post_request endpoint payload =
     \<lparr>req_method = ''POST'', req_url = endpoint,
      req_header = [(''Content-Type'', ''application/x-www-form-urlencoded''),
                    (''Content-Length'', Itoa (int (length payload)))],
      req_body = payload\<rparr>"

definition client_Do :: "'w nas \<Rightarrow> http_request
    \<Rightarrow> ('w st, gerror, int \<times> (string + xml option)) io" where
  "client_Do nas req s =
     (case nas req (net s) of
        (DoErr e, w) \<Rightarrow> (Fail (TransportError e), s\<lparr>net := w\<rparr>)
      | (Response code body, w) \<Rightarrow> (Ret (code, body), s\<lparr>net := w\<rparr>)
      | (NoReply, w) \<Rightarrow> (Hang, s\<lparr>net := w\<rparr>))"

definition postFormReq :: "'w nas \<Rightarrow> string \<Rightarrow> string
    \<Rightarrow> ('w st, gerror, xml option \<times> int) io" where
  "postFormReq nas endpoint payload =
     (if url_Parse endpoint = None then fail UrlError
      else
        onErr (client_Do nas (post_request endpoint payload)) fail (\<lambda>(statusCode, res).
        case res of
          Inl e \<Rightarrow> fail (TransportError e)
        | Inr body \<Rightarrow> ret (body, statusCode)))"

definition getSid :: "(string \<Rightarrow> ('w st, 'e, 'a) io) \<Rightarrow> ('w st, 'e, 'a) io" where
  "getSid = inspect (\<lambda>s. sid (cl s))"

text \<open>
  What every operation does with its reply: the error of the call, the status check, and
  \<^verbatim>\<open>xml.Unmarshal\<close> into the operation's struct.
\<close>

definition postXML :: "'w nas \<Rightarrow> (xml \<Rightarrow> 'x option) \<Rightarrow> string \<Rightarrow> string
    \<Rightarrow> ('w st, gerror, 'x) io" where
  "postXML nas unmarshal endpoint payload =
     onErr (postFormReq nas endpoint payload) fail (\<lambda>(xmlBytes, statusCode).
     if statusCode \<noteq> 200 then fail (ErrorString ''status code not 200'')
     else case Option.bind xmlBytes unmarshal of
            None \<Rightarrow> fail XmlError
          | Some xmlStruct \<Rightarrow> ret xmlStruct)"

definition set_sid :: "string \<Rightarrow> ('w st, 'e, unit) io" where
  "set_sid v s = (Ret (), s\<lparr>cl := (cl s)\<lparr>sid := v\<rparr>\<rparr>)"

definition Login :: "'w nas \<Rightarrow> ('w st, gerror, unit) io" where
  "Login nas =
     inspect cl (\<lambda>c.
     onErr (postXML nas unmarshalLogin (loginEndpoint c)
              (Encode [(''user'', Username c), (''pwd'', Password c)])) fail (\<lambda>xmlStruct.
     if login_AuthPassed xmlStruct \<noteq> ''1'' then fail (ErrorString ''invalid username or password'')
     else set_sid (login_AuthSid xmlStruct)))"

section \<open>Storage pools and volumes\<close>

definition GetStoragePoolSubscription :: "'w nas \<Rightarrow> int
    \<Rightarrow> ('w st, gerror, storagePoolSubscriptionResp) io" where
  "GetStoragePoolSubscription nas poolID =
     inspect cl (\<lambda>c. getSid (\<lambda>sd.
     withURL (diskManageEndpoint c) [(''sid'', sd), (''store'', ''poolSubsc'')] (\<lambda>endpoint.
     onErr (postXML nas unmarshalPool endpoint
              (Encode [(''func'', ''extra_get''), (''Pool_Subs'', ''1''), (''poolID'', Itoa poolID)]))
       fail (\<lambda>xmlStruct.
     if pool_Result xmlStruct = ''-1'' then fail (ErrorString ''invalid pool id'')
     else if pool_Result xmlStruct \<noteq> ''0'' then fail (ErrorString ''unknown error occurred'')
     else ret xmlStruct))))"

definition GetStorageLogicalVolumes :: "'w nas \<Rightarrow> ('w st, gerror, storageLogicalVolumeResp) io" where
  "GetStorageLogicalVolumes nas =
     inspect cl (\<lambda>c. getSid (\<lambda>sd.
     withURL (diskManageEndpoint c) [(''sid'', sd), (''store'', ''lvList'')] (\<lambda>endpoint.
     onErr (postXML nas unmarshalVolumes endpoint
              (Encode [(''func'', ''extra_get''), (''extra_vol_index'', ''1'')])) fail (\<lambda>xmlStruct.
     if lv_Result xmlStruct \<noteq> ''0'' then fail (ErrorString ''unknown error occurred'')
     else ret xmlStruct))))"

section \<open>iSCSI LUNs and targets\<close>

definition newline :: string where
  "newline = [char_of (10 :: nat)]"

definition GetStorageISCSILun :: "'w nas \<Rightarrow> int \<Rightarrow> ('w st, gerror, lunResp) io" where
  "GetStorageISCSILun nas lunID =
     inspect cl (\<lambda>c. getSid (\<lambda>sd.
     withURL (iscsiPortalEndpoint c)
       [(''sid'', sd), (''func'', ''extra_get''), (''lun_info'', ''1''), (''lunID'', Itoa lunID)]
       (\<lambda>endpoint.
     onErr (postXML nas unmarshalLun endpoint '''') fail (\<lambda>xmlStruct.
     if lun_Result xmlStruct \<noteq> ''0'' then fail (ErrorString ''unknown error occurred'')
     else ret (xmlStruct\<lparr>lun_Capacity := Trim (lun_Capacity xmlStruct) newline\<rparr>)))))"

definition GetStorageISCSITargetList :: "'w nas \<Rightarrow> ('w st, gerror, targetListResp) io" where
  "GetStorageISCSITargetList nas =
     inspect cl (\<lambda>c. getSid (\<lambda>sd.
     withURL (iscsiPortalEndpoint c)
       [(''sid'', sd), (''func'', ''extra_get''), (''targetList'', ''1'')] (\<lambda>endpoint.
     onErr (postXML nas unmarshalTargetList endpoint '''') fail (\<lambda>xmlStruct.
     if tl_Result xmlStruct \<noteq> ''0'' then fail (ErrorString ''unknown error occurred'')
     else ret xmlStruct))))"

definition CreateStorageISCSITarget :: "'w nas \<Rightarrow> string \<Rightarrow> bool \<Rightarrow> bool \<Rightarrow> bool
    \<Rightarrow> ('w st, gerror, int) io" where
  "CreateStorageISCSITarget nas name dataDigest headerDigest clusterMode =
     inspect cl (\<lambda>c. getSid (\<lambda>sd.
     withURL (iscsiTargetSettingsEndpoint c) [(''sid'', sd)] (\<lambda>endpoint.
     onErr (postXML nas unmarshalResult endpoint
              (Encode [(''func'', ''add_target''), (''targetName'', name), (''targetAlias'', name),
                       (''bTargetDataDigest'', b2is dataDigest),
                       (''bTargetHeaderDigest'', b2is headerDigest),
                       (''bTargetClusterEnable'', b2is clusterMode)])) fail (\<lambda>xmlStruct.
     if rr_Result xmlStruct < 0 then fail (ErrorString ''unknown error occurred'')
     else ret (rr_Result xmlStruct)))))"

definition CreateStorageISCSIInitiator :: "'w nas \<Rightarrow> int \<Rightarrow> bool \<Rightarrow> string \<Rightarrow> string \<Rightarrow> bool
    \<Rightarrow> string \<Rightarrow> string \<Rightarrow> ('w st, gerror, unit) io" where
  "CreateStorageISCSIInitiator nas targetIndex chapEnable chapUser chapPass
     mutualChapEnable mutualChapUser mutualChapPass =
     inspect cl (\<lambda>c. getSid (\<lambda>sd.
     withURL (iscsiTargetSettingsEndpoint c) [(''sid'', sd)] (\<lambda>endpoint.
     onErr (postXML nas unmarshalResult endpoint
              (Encode [(''func'', ''add_init''), (''targetIndex'', Itoa targetIndex),
                       (''initiatorIndex'', ''0''), (''bCHAPEnable'', b2is chapEnable),
                       (''CHAPUserName'', chapUser), (''CHAPPasswd'', chapPass),
                       (''bMutualCHAPEnable'', b2is mutualChapEnable),
                       (''mutualCHAPUserName'', mutualChapUser),
                       (''mutualCHAPPasswd'', mutualChapPass)])) fail (\<lambda>xmlStruct.
     if rr_Result xmlStruct < 0 then fail (ErrorString ''unknown error occurred'')
     else ret ()))))"

definition DeleteStorageISCSITarget :: "'w nas \<Rightarrow> int \<Rightarrow> ('w st, gerror, unit) io" where
  "DeleteStorageISCSITarget nas targetIndex =
     inspect cl (\<lambda>c. getSid (\<lambda>sd.
     withURL (iscsiTargetSettingsEndpoint c)
       [(''sid'', sd), (''func'', ''remove_target''), (''targetIndex'', Itoa targetIndex)]
       (\<lambda>endpoint.
     onErr (postXML nas unmarshalResult endpoint '''') fail (\<lambda>xmlStruct.
     if rr_Result xmlStruct \<noteq> targetIndex then fail (ErrorString ''unknown error occurred'')
     else ret ()))))"

definition CreateStorageISCSIBlockLUN :: "'w nas \<Rightarrow> string \<Rightarrow> int \<Rightarrow> int \<Rightarrow> bool \<Rightarrow> int \<Rightarrow> bool
    \<Rightarrow> bool \<Rightarrow> bool \<Rightarrow> bool \<Rightarrow> ('w st, gerror, createBlockLUNResp) io" where
  "CreateStorageISCSIBlockLUN nas name storagePoolID capacity thinAllocate sectorSize
     wcEnable fuaEnable ssdCache enableTiering =
     inspect cl (\<lambda>c. getSid (\<lambda>sd.
     withURL (iscsiLunSettingsEndpoint c) [(''sid'', sd)] (\<lambda>endpoint.
     onErr (postXML nas unmarshalCreateBlockLUN endpoint
              (Encode [(''func'', ''add_lun''), (''LUNThinAllocate'', b2is thinAllocate),
                       (''LUNName'', name), (''LUNCapacity'', Itoa capacity),
                       (''LUNSectorSize'', Itoa sectorSize), (''WCEnable'', b2is wcEnable),
                       (''FUAEnable'', b2is fuaEnable), (''FileIO'', ''no''),
                       (''poolID'', Itoa storagePoolID), (''lv_ifssd'', b2yn ssdCache),
                       (''LUNPath'', name), (''enable_tiering'', b2is enableTiering)]))
       fail (\<lambda>xmlStruct.
     if cb_Result xmlStruct < 0 then fail (ErrorString ''unknown error occurred'')
     else ret xmlStruct))))"

definition DeleteStorageISCSIBlockLUN :: "'w nas \<Rightarrow> int \<Rightarrow> bool \<Rightarrow> ('w st, gerror, unit) io" where
  "DeleteStorageISCSIBlockLUN nas targetIndex runInBackground =
     inspect cl (\<lambda>c. getSid (\<lambda>sd.
     withURL (iscsiLunSettingsEndpoint c)
       ([(''sid'', sd), (''func'', ''remove_lun'')]
        @ (if runInBackground then [(''run_background'', ''1'')] else [])
        @ [(''LUNIndex'', Itoa targetIndex)]) (\<lambda>endpoint.
     onErr (postXML nas unmarshalResult endpoint '''') fail (\<lambda>xmlStruct.
     if rr_Result xmlStruct \<noteq> 0 then fail (ErrorString ''unknown error occurred'')
     else ret ()))))"

definition AttachStorageISCSITargetLUN :: "'w nas \<Rightarrow> int \<Rightarrow> int \<Rightarrow> ('w st, gerror, unit) io" where
  "AttachStorageISCSITargetLUN nas lunIndex targetIndex =
     inspect cl (\<lambda>c. getSid (\<lambda>sd.
     withURL (iscsiTargetSettingsEndpoint c)
       [(''sid'', sd), (''func'', ''add_lun''), (''LUNIndex'', Itoa lunIndex),
        (''targetIndex'', Itoa targetIndex)] (\<lambda>endpoint.
     onErr (postXML nas unmarshalResult endpoint '''') fail (\<lambda>xmlStruct.
     if rr_Result xmlStruct \<noteq> 0 then fail (ErrorString ''unknown error occurred'')
     else ret ()))))"

end
