(* ===== verification/Utils.thy ===== *)
theory Utils
  imports GoBase64 GoUtf8 "HOL-Library.Log_Nat"
begin

text \<open>
  \<^verbatim>\<open>driver/utils.go\<close>: the page tokens of the volume listing, the cleaning of volume
  names, the choice of a volume size from a requested range, and the size texts of its errors;
  with the size constants of \<^verbatim>\<open>driver/controller.go\<close>.
\<close>

section \<open>Page tokens\<close>

text \<open>
  A token is the list of target indexes already returned, in decimal, separated by commas, in
  base64. A \<^verbatim>\<open>sets.Int\<close> is an \<open>int set\<close>, its \<^verbatim>\<open>List\<close> the sorted list.
\<close>

definition seen_text :: "int list \<Rightarrow> string" where
  "seen_text ints = concat (map (\<lambda>elem. Itoa elem @ '','') ints)"

definition seenIndexesToBase64String :: "int list \<Rightarrow> string" where
  "seenIndexesToBase64String ints = EncodeToString (TrimRight (seen_text ints) '','')"

fun insert_parsed :: "string list \<Rightarrow> int set \<Rightarrow> int set option" where
  "insert_parsed [] result = Some result"
| "insert_parsed (strInt # rest) result =
     (case Atoi strInt of
        None \<Rightarrow> None
      | Some intValue \<Rightarrow> insert_parsed rest (insert intValue result))"

definition base64SeenIndexesToMap :: "string \<Rightarrow> int set option" where
  "base64SeenIndexesToMap value =
     (case DecodeString value of
        None \<Rightarrow> None
      | Some s \<Rightarrow> insert_parsed (split_on (CHR '','') s) {})"

lemma seen_text_join:
  "ints \<noteq> [] \<Longrightarrow> seen_text ints = join '','' (map Itoa ints) @ '',''"
  by (induction ints rule: induct_list012) (simp_all add: seen_text_def)

lemma join_last: "ws \<noteq> [] \<Longrightarrow> \<forall>w\<in>set ws. w \<noteq> [] \<Longrightarrow> join sep ws \<noteq> [] \<and> last (join sep ws) = last (last ws)"
  by (induction sep ws rule: join.induct) auto

lemma Itoa_last: "last (Itoa i) \<noteq> CHR '',''"
proof -
  have "last (Itoa i) \<in> set (Itoa i)" by simp
  from Itoa_chars [OF this] show ?thesis by (auto simp: is_digit_def)
qed

lemma seen_text_trimmed:
  assumes "ints \<noteq> []"
  shows "TrimRight (seen_text ints) '','' = join '','' (map Itoa ints)"
proof -
  let ?j = "join '','' (map Itoa ints)"
  have "?j \<noteq> [] \<and> last ?j = last (last (map Itoa ints))"
    using assms by (intro join_last) auto
  then have "last ?j \<noteq> CHR '',''" using assms Itoa_last by (simp add: last_map)
  then show ?thesis using assms by (simp add: seen_text_join text_simps)
qed

lemma seenIndexes_Nil [simp]: "seenIndexesToBase64String [] = []"
  by (simp add: seenIndexesToBase64String_def seen_text_def TrimRight_def)

lemma seenIndexes_nonempty: "ints \<noteq> [] \<Longrightarrow> seenIndexesToBase64String ints \<noteq> []"
  by (simp add: seenIndexesToBase64String_def seen_text_trimmed)
     (subst join_Nil_iff, auto)

lemma insert_parsed_those:
  "insert_parsed ws acc = map_option (\<lambda>is. set is \<union> acc) (those (map Atoi ws))"
  by (induction ws arbitrary: acc) (auto simp: option.map_comp comp_def split: option.splits)

lemma token_roundtrip:
  assumes "ints \<noteq> []" and "\<forall>i\<in>set ints. in_int64 i"
  shows "base64SeenIndexesToMap (seenIndexesToBase64String ints) = Some (set ints)"
  using decimal_list.list_dec_enc [OF assms]
  by (simp only: base64SeenIndexesToMap_def seenIndexesToBase64String_def seen_text_trimmed [OF assms(1)]
      Decode_Encode option.case insert_parsed_those) simp

lemma empty_token: "base64SeenIndexesToMap [] = None"
  by (simp add: base64SeenIndexesToMap_def DecodeString_def)

section \<open>Volume names\<close>

text \<open>
  The regular expression matches any run of runes other than ASCII letters and digits, the
  empty run included. \<open>replaceRuns\<close> is the replacement loop of
  \<^verbatim>\<open>ReplaceAllString\<close> with an empty replacement: \<open>pending\<close> holds what was passed over
  since the end of the last match, \<open>rest\<close> starts at the search position.
\<close>

definition alnum_rune :: "nat \<Rightarrow> bool" where
  "alnum_rune r \<longleftrightarrow> (48 \<le> r \<and> r \<le> 57) \<or> (65 \<le> r \<and> r \<le> 90) \<or> (97 \<le> r \<and> r \<le> 122)"

function replaceRuns :: "nat list \<Rightarrow> nat list \<Rightarrow> nat list" where
  "replaceRuns pending rest =
     pending @
     (case rest of
        [] \<Rightarrow> []
      | r # rs \<Rightarrow>
          if takeWhile (\<lambda>x. \<not> alnum_rune x) rest = [] then replaceRuns [r] rs
          else replaceRuns [] (dropWhile (\<lambda>x. \<not> alnum_rune x) rest))"
  by pat_completeness auto
termination
proof (relation "measure (\<lambda>(p, rest). length rest)")
  fix pending rest r rs
  assume "rest = r # rs" "takeWhile (\<lambda>x. \<not> alnum_rune x) rest \<noteq> []"
  then show "(([], dropWhile (\<lambda>x. \<not> alnum_rune x) rest), (pending, rest)) \<in> measure (\<lambda>(p, rest). length rest)"
    using length_dropWhile_le [of "\<lambda>x. \<not> alnum_rune x" rs] by (auto split: if_splits)
qed auto

declare replaceRuns.simps [simp del]

definition cleanISCSIName :: "string \<Rightarrow> string" where
  "cleanISCSIName name = map char_of (replaceRuns [] (map rune_lower (runes name)))"

lemma filter_dropWhile: "filter P (dropWhile (\<lambda>x. \<not> P x) xs) = filter P xs"
  by (induction xs) auto

lemma replaceRuns_filter: "replaceRuns pending rest = pending @ filter alnum_rune rest"
proof (induction pending rest rule: replaceRuns.induct)
  case (1 pending rest)
  show ?case
  proof (cases rest)
    case Nil
    then show ?thesis by (simp add: replaceRuns.simps)
  next
    case (Cons r rs)
    show ?thesis
    proof (cases "takeWhile (\<lambda>x. \<not> alnum_rune x) rest = []")
      case True
      then have "alnum_rune r" using Cons by (simp split: if_splits)
      with True Cons "1.IH"(1) [OF Cons] show ?thesis
        by (simp add: replaceRuns.simps [of pending])
    next
      case False
      then have "\<not> alnum_rune r" using Cons by (simp split: if_splits)
      with False Cons "1.IH"(2) [OF Cons] show ?thesis
        by (simp add: replaceRuns.simps [of pending] filter_dropWhile)
    qed
  qed
qed

definition clean_char :: "char \<Rightarrow> bool" where
  "clean_char c \<longleftrightarrow> (48 \<le> byte c \<and> byte c \<le> 57) \<or> (97 \<le> byte c \<and> byte c \<le> 122)"

lemma cleanISCSIName_filter:
  "cleanISCSIName name = map char_of (filter alnum_rune (map rune_lower (runes name)))"
  by (simp add: cleanISCSIName_def replaceRuns_filter)

lemma cleanISCSIName_chars: "list_all clean_char (cleanISCSIName name)"
  by (auto simp: cleanISCSIName_filter list_all_iff clean_char_def alnum_rune_def rune_lower_def
      split: if_splits)

lemma cleanISCSIName_clean:
  assumes "list_all clean_char s"
  shows "cleanISCSIName s = s"
proof -
  have "runes s = map of_char s"
    using assms by (intro runes_ascii) (auto simp: list_all_iff clean_char_def)
  moreover have "rune_lower (byte c) = byte c" "alnum_rune (byte c)" if "c \<in> set s" for c
    using assms that by (auto simp: list_all_iff clean_char_def rune_lower_def alnum_rune_def)
  ultimately show ?thesis
    by (simp add: cleanISCSIName_filter filter_map comp_def cong: map_cong filter_cong)
qed

section \<open>Sizes\<close>

definition kiB :: int where "kiB = 2 ^ 10"
definition miB :: int where "miB = 2 ^ 20"
definition giB :: int where "giB = 2 ^ 30"
definition tiB :: int where "tiB = 2 ^ 40"

definition minimumVolumeSizeInBytes :: int where "minimumVolumeSizeInBytes = 1 * giB"
definition maximumVolumeSizeInBytes :: int where "maximumVolumeSizeInBytes = 128 * giB"
definition defaultVolumeSizeInBytes :: int where "defaultVolumeSizeInBytes = 16 * giB"

lemmas size_defs = kiB_def miB_def giB_def tiB_def minimumVolumeSizeInBytes_def
  maximumVolumeSizeInBytes_def defaultVolumeSizeInBytes_def

text \<open>
  The size texts use \<^verbatim>\<open>float64\<close>. The conversion of an integer rounds to 53 significant
  bits, ties to even; the division by a power of two is exact; printing with one decimal
  rounds the exact value, ties to even.
\<close>

definition round_half_even :: "nat \<Rightarrow> nat \<Rightarrow> nat" where
  "round_half_even n d =
     (let q = n div d; r = n mod d
      in if 2 * r < d then q else if d < 2 * r then q + 1 else if even q then q else q + 1)"

definition float64_of_nat :: "nat \<Rightarrow> nat" where
  "float64_of_nat n =
     (if n < 2 ^ 53 then n
      else (let ulp = 2 ^ (floorlog 2 n - 53) in round_half_even n ulp * ulp))"

definition FormatFloat1 :: "bool \<Rightarrow> nat \<Rightarrow> nat \<Rightarrow> string" where
  "FormatFloat1 negative n d =
     (let tenths = round_half_even (n * 10) d
      in (if negative then ''-'' else []) @ dec_nat (tenths div 10) @ ''.'' @ dec_nat (tenths mod 10))"

definition formatBytes :: "int \<Rightarrow> string" where
  "formatBytes inputBytes =
     (if inputBytes = 0 then ''0''
      else
        (let (unit, scale) =
               (if inputBytes \<ge> tiB then (''Ti'', tiB)
                else if inputBytes \<ge> giB then (''Gi'', giB)
                else if inputBytes \<ge> miB then (''Mi'', miB)
                else if inputBytes \<ge> kiB then (''Ki'', kiB)
                else ('''', 1));
             result = FormatFloat1 (inputBytes < 0) (float64_of_nat (nat \<bar>inputBytes\<bar>)) (nat scale)
         in TrimSuffix result ''.0'' @ unit))"

record capacityRange =
  RequiredBytes :: int
  LimitBytes :: int

definition extractStorage :: "capacityRange option \<Rightarrow> string + int" where
  "extractStorage capRange =
     (case capRange of
        None \<Rightarrow> Inr defaultVolumeSizeInBytes
      | Some cr \<Rightarrow>
          (let requiredBytes = RequiredBytes cr; requiredSet = 0 < requiredBytes;
               limitBytes = LimitBytes cr; limitSet = 0 < limitBytes
           in if \<not> requiredSet \<and> \<not> limitSet then Inr defaultVolumeSizeInBytes
              else if requiredSet \<and> limitSet \<and> limitBytes < requiredBytes then
                Inl (''limit ('' @ formatBytes limitBytes @ '') can not be less than required (''
                     @ formatBytes requiredBytes @ '') size'')
              else if requiredSet \<and> \<not> limitSet \<and> requiredBytes < minimumVolumeSizeInBytes then
                Inl (''required ('' @ formatBytes requiredBytes
                     @ '') can not be less than minimum supported volume size (''
                     @ formatBytes minimumVolumeSizeInBytes @ '')'')
              else if limitSet \<and> limitBytes < minimumVolumeSizeInBytes then
                Inl (''limit ('' @ formatBytes limitBytes
                     @ '') can not be less than minimum supported volume size (''
                     @ formatBytes minimumVolumeSizeInBytes @ '')'')
              else if limitSet \<and> limitBytes mod (1 * giB) \<noteq> 0 then
                Inl (''limit ('' @ Itoa limitBytes @ '') must be a multiple of 1GB'')
              else if requiredSet \<and> requiredBytes > maximumVolumeSizeInBytes then
                Inl (''required ('' @ formatBytes requiredBytes
                     @ '') can not exceed maximum supported volume size (''
                     @ formatBytes maximumVolumeSizeInBytes @ '')'')
              else if requiredSet \<and> requiredBytes mod (1 * giB) \<noteq> 0 then
                Inl (''required ('' @ Itoa requiredBytes @ '') must be a multiple of 1GB'')
              else if \<not> requiredSet \<and> limitSet \<and> limitBytes > maximumVolumeSizeInBytes then
                Inl (''limit ('' @ formatBytes limitBytes
                     @ '') can not exceed maximum supported volume size (''
                     @ formatBytes maximumVolumeSizeInBytes @ '')'')
              else if requiredSet \<and> limitSet \<and> requiredBytes = limitBytes then Inr requiredBytes
              else if requiredSet then Inr requiredBytes
              else if limitSet then Inr limitBytes
              else Inr defaultVolumeSizeInBytes))"

section \<open>What the size choice promises\<close>

text \<open>
  The contract: the size is a whole number of GiB within the supported range; a required size
  is granted exactly and never above the limit; a limit alone is granted in full; with neither
  the default is used. A limit must be a whole number of GiB even when a required size is given.
\<close>

definition size_choice :: "int \<Rightarrow> int \<Rightarrow> int \<Rightarrow> bool" where
  "size_choice required limit n \<longleftrightarrow>
     minimumVolumeSizeInBytes \<le> n \<and> n \<le> maximumVolumeSizeInBytes \<and> n mod giB = 0
     \<and> (0 < limit \<longrightarrow> n \<le> limit \<and> limit mod giB = 0)
     \<and> n = (if 0 < required then required else if 0 < limit then limit else defaultVolumeSizeInBytes)"

lemma positive_multiple: "0 < n \<Longrightarrow> n mod giB = 0 \<Longrightarrow> giB \<le> n"
  by (simp add: mod_eq_0_iff_dvd zdvd_imp_le)

lemma extractStorage_choice: "extractStorage (Some cr) = Inr n \<longleftrightarrow> size_choice (RequiredBytes cr) (LimitBytes cr) n"
proof (cases "0 < RequiredBytes cr")
  case req: True
  show ?thesis
  proof (cases "0 < LimitBytes cr")
    case True
    with req positive_multiple [of "RequiredBytes cr"] show ?thesis
      by (auto simp: extractStorage_def Let_def size_choice_def minimumVolumeSizeInBytes_def)
  next
    case False
    with req show ?thesis
      by (auto simp: extractStorage_def Let_def size_choice_def)
  qed
next
  case req: False
  show ?thesis
  proof (cases "0 < LimitBytes cr")
    case True
    with req show ?thesis by (auto simp: extractStorage_def Let_def size_choice_def)
  next
    case False
    with req show ?thesis
      by (auto simp: extractStorage_def Let_def size_choice_def size_defs)
  qed
qed

section \<open>Properties\<close>

text \<open>
  C37: page tokens survive the round trip. A token made from a non-empty list of target indexes
  is a non-empty text, and reading it back gives exactly the set of those indexes.
\<close>

theorem seen_token_roundtrip:
  assumes "ints \<noteq> []" and "\<forall>i\<in>set ints. in_int64 i"
  shows "seenIndexesToBase64String ints \<noteq> ''''
    \<and> base64SeenIndexesToMap (seenIndexesToBase64String ints) = Some (set ints)"
  using token_roundtrip [OF assms] seenIndexes_nonempty [OF assms(1)] by simp

theorem seen_token_roundtrip_witness:
  "seenIndexesToBase64String [3, 14, -1] \<noteq> ''''
    \<and> base64SeenIndexesToMap (seenIndexesToBase64String [3, 14, -1]) = Some {3, 14, -1}"
  using seen_token_roundtrip [of "[3, 14, -1]"] by (simp add: in_int64_def)

text \<open>
  C40: the cleaned name of a volume has only lower-case ASCII letters and digits, is the
  subsequence of the lowered runes that are such characters, and cleaning it again changes
  nothing, so the identifier a volume is created under is the one it is looked up by.
\<close>

theorem cleanISCSIName_spec:
  "list_all clean_char (cleanISCSIName name)
    \<and> cleanISCSIName name = map char_of (filter alnum_rune (map rune_lower (runes name)))
    \<and> cleanISCSIName (cleanISCSIName name) = cleanISCSIName name"
  by (simp add: cleanISCSIName_chars cleanISCSIName_clean flip: cleanISCSIName_filter)

text \<open>
  C10: the size chosen for a requested range is exactly the one the contract allows, and every
  range with no allowed size is an error; an absent range is the default size.
\<close>

theorem extractStorage_spec:
  "(extractStorage (Some cr) = Inr n \<longleftrightarrow> size_choice (RequiredBytes cr) (LimitBytes cr) n)
    \<and> extractStorage None = Inr defaultVolumeSizeInBytes"
  by (simp add: extractStorage_choice) (simp add: extractStorage_def)

lemma round_half_even_exact: "0 < d \<Longrightarrow> round_half_even (q * d) d = q"
  by (simp add: round_half_even_def)

lemma FormatFloat1_whole:
  assumes "0 < d"
  shows "FormatFloat1 neg (k * d) d = (if neg then ''-'' else []) @ dec_nat k @ ''.0''"
proof -
  have "round_half_even (k * d * 10) d = k * 10"
    using round_half_even_exact [OF assms, of "k * 10"] by (simp add: ac_simps)
  moreover have "dec_nat 0 = ''0''" by (simp add: dec_nat.simps digit_char_def char_of_def bit_0)
  ultimately show ?thesis by (simp add: FormatFloat1_def)
qed

lemma formatBytes_scale:
  assumes "0 < k" and "k * scale < 2 ^ 53" and "0 < scale"
    and "n = int (k * scale)"
    and "(unit, int scale) =
               (if n \<ge> tiB then (''Ti'', tiB)
                else if n \<ge> giB then (''Gi'', giB)
                else if n \<ge> miB then (''Mi'', miB)
                else if n \<ge> kiB then (''Ki'', kiB)
                else ('''', 1))"
  shows "formatBytes n = dec_nat k @ unit"
proof -
  have "nat \<bar>n\<bar> = k * scale" by (simp only: assms(4) abs_of_nat nat_int)
  then have "float64_of_nat (nat \<bar>n\<bar>) = k * scale" using assms(2) by (simp add: float64_of_nat_def)
  moreover have "n \<noteq> 0" "\<not> n < 0" using assms(1,3) by (simp_all add: assms(4) del: of_nat_mult)
  ultimately show ?thesis
    using FormatFloat1_whole [OF assms(3), of False k] TrimSuffix_append [of "dec_nat k" "''.0''"]
    unfolding formatBytes_def Let_def by (simp flip: assms(5))
qed

text \<open>
  The sizes the driver accepts are printed exactly. A whole number of GiB below one TiB is
  its decimal number and the unit, with no fraction.
\<close>

lemma formatBytes_whole_gib:
  assumes "0 < k" and "k < 1024"
  shows "formatBytes (int k * giB) = Itoa (int k) @ ''Gi''"
proof -
  have "formatBytes (int k * giB) = dec_nat k @ ''Gi''"
    using assms by (intro formatBytes_scale [where scale = "2 ^ 30"]) (simp_all add: size_defs)
  then show ?thesis by (simp add: Itoa_def)
qed

lemma formatBytes_whole_gib_witness: "formatBytes (int 128 * giB) = Itoa (int 128) @ ''Gi''"
  using formatBytes_whole_gib [of 128] by simp

end
