(* ===== verification/Driver.thy ===== *)
theory Driver
  imports Client Utils
begin

text \<open>
  \<^verbatim>\<open>driver/driver.go\<close>: the configuration of a driver and its readiness flag, and the CSI
  and gRPC vocabulary its handlers speak. The client a driver points to is not a field of the
  record: it lives in the state the handlers run on, where a login changes it.
\<close>

section \<open>gRPC statuses\<close>

datatype grpc_code = InvalidArgument | OutOfRange | Internal | AlreadyExists | NotFound | Unimplemented

datatype status = Status (status_code: grpc_code) (status_msg: string)

type_synonym ('w, 'a) handler = "('w st, status, 'a) io"

section \<open>CSI capabilities\<close>

text \<open>
  Access modes are numbered by the CSI package; the driver names one of them, and reads the
  zero value where a message is absent. The printed names are the package's, a parameter.
\<close>

datatype access_mode = MODE_UNKNOWN | SINGLE_NODE_WRITER | OtherMode int

datatype access_type = Block | Mount (FsType: string) (MountFlags: "string list")

record capability =
  AccessMode :: "access_mode option"
  AccessType :: "access_type option"

definition GetMode :: "access_mode option \<Rightarrow> access_mode" where
  "GetMode m = (case m of None \<Rightarrow> MODE_UNKNOWN | Some x \<Rightarrow> x)"

section \<open>The driver\<close>

definition DefaultDriverName :: string where
  "DefaultDriverName = ''qnap.terrycain.github.com''"

record driver =
  d_name :: string
  d_storagePoolID :: int
  d_endpoint :: string
  d_URL :: string
  d_nodeID :: string
  d_username :: string
  d_password :: string
  d_isController :: bool
  d_prefix :: string
  d_portal :: string
  d_configDir :: string
  d_ready :: bool

definition NewDriver :: "string \<Rightarrow> string \<Rightarrow> string \<Rightarrow> string \<Rightarrow> bool \<Rightarrow> string \<Rightarrow> string \<Rightarrow> string \<Rightarrow> int
    \<Rightarrow> gerror + driver \<times> client" where
  "NewDriver endpoint url username password isController prefix nodeID portal storagePoolID =
     (case NewClient username password url of
        Inl err \<Rightarrow> Inl err
      | Inr qnapClient \<Rightarrow> Inr
          (\<lparr>d_name = DefaultDriverName, d_storagePoolID = storagePoolID, d_endpoint = endpoint,
            d_URL = url, d_nodeID = nodeID, d_username = username, d_password = password,
            d_isController = isController, d_prefix = prefix, d_portal = portal,
            d_configDir = '''', d_ready = False\<rparr>, qnapClient))"

definition setReady :: "bool \<Rightarrow> driver \<Rightarrow> driver" where
  "setReady state d = d\<lparr>d_ready := state\<rparr>"

end
