(* ===== verification/ClientLaws.thy ===== *)
theory ClientLaws
  imports Client
begin

text \<open>
  What the operations of the client have in common, stated once. Every operation is one
  exchange: a request computed from the client and the arguments, and a result computed from
  the reply. The locale \<open>api_op\<close> is that contract, with its consequences; each operation
  of \<^verbatim>\<open>qnap/api.go\<close> interprets it. The last sections say when an exchange cannot fail before
  the request is sent, and what the server reads in it.
\<close>

section \<open>One exchange\<close>

definition reply_result :: "(xml \<Rightarrow> 'x option) \<Rightarrow> ('x \<Rightarrow> gerror + 'b) \<Rightarrow> http_reply
    \<Rightarrow> (gerror, 'b) outcome" where
  "reply_result unm chk r =
     (case r of
        DoErr e \<Rightarrow> Fail (TransportError e)
      | Response code body \<Rightarrow>
          (case body of
             Inl e \<Rightarrow> Fail (TransportError e)
           | Inr doc \<Rightarrow>
               if code \<noteq> 200 then Fail (ErrorString ''status code not 200'')
               else (case Option.bind doc unm of
                       None \<Rightarrow> Fail XmlError
                     | Some x \<Rightarrow> (case chk x of Inl e \<Rightarrow> Fail e | Inr b \<Rightarrow> Ret b)))
      | NoReply \<Rightarrow> Hang)"

lemma reply_result_Ret:
  assumes "reply_result unm chk r = Ret b"
  obtains doc x where "r = Response 200 (Inr (Some doc))" and "unm doc = Some x" and "chk x = Inr b"
  using assms
  by (auto simp: reply_result_def bind_eq_Some_conv
      split: http_reply.splits sum.splits option.splits if_splits)

definition exchange :: "'w nas \<Rightarrow> string option \<Rightarrow> string \<Rightarrow> (http_reply \<Rightarrow> (gerror, 'b) outcome)
    \<Rightarrow> ('w st, gerror, 'b) io" where
  "exchange nas ep payload f s =
     (case ep of
        None \<Rightarrow> (Panic, s)
      | Some u \<Rightarrow>
          if url_Parse u = None then (Fail UrlError, s)
          else (case nas (post_request u payload) (net s) of (r, w) \<Rightarrow> (f r, s\<lparr>net := w\<rparr>)))"

lemma postXML_run: "postXML nas unm u p s = exchange nas (Some u) p (reply_result unm Inr) s"
  by (auto simp: postXML_def postFormReq_def client_Do_def exchange_def reply_result_def io_simps
      onErr_def effect_defs split: http_reply.splits sum.splits option.splits prod.splits)

lemma op_normal:
  assumes "\<And>x t. k x t = (case chk x of Inl e \<Rightarrow> (Fail e, t) | Inr b \<Rightarrow> (Ret b, t))"
  shows "inspect cl (\<lambda>c. getSid (\<lambda>sd. withURL (base c) (ps sd) (\<lambda>u.
           onErr (postXML nas unm u p) fail k))) s =
    exchange nas (addParamsToURL (base (cl s)) (ps (sid (cl s)))) p (reply_result unm chk) s"
  by (auto simp: getSid_def withURL_def onErr_def postXML_run exchange_def reply_result_def
      effect_defs assms split: option.splits prod.splits http_reply.splits sum.splits)

section \<open>Ordinary endpoints\<close>

text \<open>
  An endpoint with an ordinary address always yields a request, and the address of the request
  is the endpoint, a question mark and the encoded parameters.
\<close>

definition plain_endpoint :: "string \<Rightarrow> bool" where
  "plain_endpoint e \<longleftrightarrow>
     (\<exists>scheme host port path. plain_address scheme host port path \<and> e = address scheme host port path)"

definition good_client :: "client \<Rightarrow> bool" where
  "good_client c \<longleftrightarrow>
     plain_endpoint (loginEndpoint c) \<and> plain_endpoint (diskManageEndpoint c)
     \<and> plain_endpoint (iscsiPortalEndpoint c) \<and> plain_endpoint (iscsiTargetSettingsEndpoint c)
     \<and> plain_endpoint (iscsiLunSettingsEndpoint c)"

lemma plain_endpoint_parses: "plain_endpoint e \<Longrightarrow> url_Parse e \<noteq> None"
  by (auto simp: plain_endpoint_def url_Parse_address)

lemma plain_endpoint_params:
  assumes "plain_endpoint e" and "ps \<noteq> []"
  shows "addParamsToURL e ps = Some (e @ ''?'' @ Encode ps)" and "url_Parse (e @ ''?'' @ Encode ps) \<noteq> None"
proof -
  obtain scheme host port path where a: "plain_address scheme host port path"
    and e: "e = address scheme host port path"
    using assms(1) by (auto simp: plain_endpoint_def)
  show "addParamsToURL e ps = Some (e @ ''?'' @ Encode ps)"
    using url_String_address [OF a, of "Encode ps"] assms(2)
    by (simp add: addParamsToURL_def e url_Parse_address [OF a] Encode_Nil_iff)
  show "url_Parse (e @ ''?'' @ Encode ps) \<noteq> None"
    using url_Parse_query [OF a assms(2)] by (simp add: e)
qed

lemma plain_endpoint_no_query: "plain_endpoint e \<Longrightarrow> CHR ''?'' \<notin> set e"
  by (auto simp: plain_endpoint_def dest!: address_chars(2) addr_char_absent(2))

text \<open>What the server reads: the pairs of the query and the pairs of the body.\<close>

definition request_forms :: "http_request \<Rightarrow> (form \<times> form) option" where
  "request_forms r =
     (case (ReadForm (drop 1 (dropWhile (\<lambda>c. c \<noteq> CHR ''?'') (req_url r))), ReadForm (req_body r)) of
        (Some q, Some b) \<Rightarrow> Some (q, b)
      | _ \<Rightarrow> None)"

lemma request_forms_post:
  assumes "plain_endpoint e"
  shows "request_forms (post_request (e @ ''?'' @ Encode ps) (Encode qs)) =
    Some (sort_key fst ps, sort_key fst qs)"
proof -
  have "\<forall>c\<in>set e. c \<noteq> CHR ''?''" using plain_endpoint_no_query [OF assms] by auto
  then have "dropWhile (\<lambda>c. c \<noteq> CHR ''?'') (e @ ''?'' @ Encode ps) = ''?'' @ Encode ps"
    by (simp add: dropWhile_append)
  then show ?thesis by (simp add: request_forms_def post_request_def ReadForm_Encode)
qed

section \<open>The contract of an operation\<close>

locale api_op =
  fixes nas :: "'w nas" and call :: "'a \<Rightarrow> ('w st, gerror, 'b) io"
    and base :: "client \<Rightarrow> string" and params :: "'a \<Rightarrow> string \<Rightarrow> form" and payload :: "'a \<Rightarrow> string"
    and unm :: "xml \<Rightarrow> 'x option" and chk :: "'a \<Rightarrow> 'x \<Rightarrow> gerror + 'b"
  assumes call_run: "call a s =
      exchange nas (addParamsToURL (base (cl s)) (params a (sid (cl s)))) (payload a)
        (reply_result unm (chk a)) s"
    and params_nonempty: "params a sd \<noteq> []"
begin

lemma keeps_client: "call a s = (r, t) \<Longrightarrow> cl t = cl s"
  by (auto simp: call_run exchange_def split: option.splits prod.splits if_splits)

lemma hang_unanswered: "call a s = (Hang, t) \<Longrightarrow> \<exists>q. nas q (net s) = (NoReply, net t)"
  by (auto simp: call_run exchange_def reply_result_def
      split: option.splits prod.splits if_splits http_reply.splits sum.splits)

lemma success:
  assumes "call a s = (Ret b, t)"
  obtains u doc x where "addParamsToURL (base (cl s)) (params a (sid (cl s))) = Some u"
    and "nas (post_request u (payload a)) (net s) = (Response 200 (Inr (Some doc)), net t)"
    and "unm doc = Some x" and "chk a x = Inr b"
  using assms
  by (auto simp: call_run exchange_def reply_result_def bind_eq_Some_conv
      split: option.splits prod.splits if_splits http_reply.splits sum.splits)

lemma run_plain:
  assumes "plain_endpoint (base (cl s))"
  shows "call a s =
    (case nas (post_request (base (cl s) @ ''?'' @ Encode (params a (sid (cl s)))) (payload a)) (net s) of
       (r, w) \<Rightarrow> (reply_result unm (chk a) r, s\<lparr>net := w\<rparr>))"
  by (simp only: call_run exchange_def plain_endpoint_params(1) [OF assms params_nonempty]
      option.case if_not_P [OF plain_endpoint_params(2) [OF assms params_nonempty]])

lemma bad_status:
  assumes "nas (post_request u (payload a)) (net s) = (Response code (Inr doc), w)"
    and "addParamsToURL (base (cl s)) (params a (sid (cl s))) = Some u" and "code \<noteq> 200"
  shows "\<exists>e t. call a s = (Fail e, t)"
  using assms by (auto simp: call_run exchange_def reply_result_def)

end

text \<open>Every operation of the client is one exchange.\<close>

interpretation pool: api_op nas "GetStoragePoolSubscription nas" diskManageEndpoint
    "\<lambda>_ sd. [(''sid'', sd), (''store'', ''poolSubsc'')]"
    "\<lambda>p. Encode [(''func'', ''extra_get''), (''Pool_Subs'', ''1''), (''poolID'', Itoa p)]"
    unmarshalPool
    "\<lambda>_ x. if pool_Result x = ''-1'' then Inl (ErrorString ''invalid pool id'')
           else if pool_Result x \<noteq> ''0'' then Inl (ErrorString ''unknown error occurred'') else Inr x"
  for nas :: "'w nas"
  by unfold_locales (unfold GetStoragePoolSubscription_def, rule op_normal, simp_all add: ret_def fail_def)

interpretation volumes: api_op nas "\<lambda>_ :: unit. GetStorageLogicalVolumes nas" diskManageEndpoint
    "\<lambda>_ sd. [(''sid'', sd), (''store'', ''lvList'')]"
    "\<lambda>_. Encode [(''func'', ''extra_get''), (''extra_vol_index'', ''1'')]"
    unmarshalVolumes
    "\<lambda>_ x. if lv_Result x \<noteq> ''0'' then Inl (ErrorString ''unknown error occurred'') else Inr x"
  for nas :: "'w nas"
  by unfold_locales (unfold GetStorageLogicalVolumes_def, rule op_normal, simp_all add: ret_def fail_def)

interpretation lun: api_op nas "GetStorageISCSILun nas" iscsiPortalEndpoint
    "\<lambda>i sd. [(''sid'', sd), (''func'', ''extra_get''), (''lun_info'', ''1''), (''lunID'', Itoa i)]"
    "\<lambda>_. ''''" unmarshalLun
    "\<lambda>_ x. if lun_Result x \<noteq> ''0'' then Inl (ErrorString ''unknown error occurred'')
           else Inr (x\<lparr>lun_Capacity := Trim (lun_Capacity x) newline\<rparr>)"
  for nas :: "'w nas"
  by unfold_locales (unfold GetStorageISCSILun_def, rule op_normal, simp_all add: ret_def fail_def)

interpretation target_list: api_op nas "\<lambda>_ :: unit. GetStorageISCSITargetList nas" iscsiPortalEndpoint
    "\<lambda>_ sd. [(''sid'', sd), (''func'', ''extra_get''), (''targetList'', ''1'')]"
    "\<lambda>_. ''''" unmarshalTargetList
    "\<lambda>_ x. if tl_Result x \<noteq> ''0'' then Inl (ErrorString ''unknown error occurred'') else Inr x"
  for nas :: "'w nas"
  by unfold_locales (unfold GetStorageISCSITargetList_def, rule op_normal, simp_all add: ret_def fail_def)

interpretation add_target: api_op nas
    "\<lambda>(name, dd, hd, cm). CreateStorageISCSITarget nas name dd hd cm" iscsiTargetSettingsEndpoint
    "\<lambda>_ sd. [(''sid'', sd)]"
    "\<lambda>(name, dd, hd, cm).
       Encode [(''func'', ''add_target''), (''targetName'', name), (''targetAlias'', name),
               (''bTargetDataDigest'', b2is dd), (''bTargetHeaderDigest'', b2is hd),
               (''bTargetClusterEnable'', b2is cm)]"
    unmarshalResult
    "\<lambda>_ x. if rr_Result x < 0 then Inl (ErrorString ''unknown error occurred'') else Inr (rr_Result x)"
  for nas :: "'w nas"
proof unfold_locales
  fix a :: "string \<times> bool \<times> bool \<times> bool" and s
  obtain name dd hd cm where a: "a = (name, dd, hd, cm)" by (cases a)
  show "(case a of (name, dd, hd, cm) \<Rightarrow> CreateStorageISCSITarget nas name dd hd cm) s =
    exchange nas (addParamsToURL (iscsiTargetSettingsEndpoint (cl s)) [(''sid'', sid (cl s))])
      (case a of (name, dd, hd, cm) \<Rightarrow>
        Encode [(''func'', ''add_target''), (''targetName'', name), (''targetAlias'', name),
               (''bTargetDataDigest'', b2is dd), (''bTargetHeaderDigest'', b2is hd),
               (''bTargetClusterEnable'', b2is cm)])
      (reply_result unmarshalResult
        (\<lambda>x. if rr_Result x < 0 then Inl (ErrorString ''unknown error occurred'') else Inr (rr_Result x))) s"
    unfolding a prod.case CreateStorageISCSITarget_def
    by (rule op_normal) (simp add: ret_def fail_def)
qed simp

interpretation add_init: api_op nas
    "\<lambda>(i, ce, cu, cp, me, mu, mp). CreateStorageISCSIInitiator nas i ce cu cp me mu mp"
    iscsiTargetSettingsEndpoint
    "\<lambda>_ sd. [(''sid'', sd)]"
    "\<lambda>(i, ce, cu, cp, me, mu, mp).
       Encode [(''func'', ''add_init''), (''targetIndex'', Itoa i), (''initiatorIndex'', ''0''),
               (''bCHAPEnable'', b2is ce), (''CHAPUserName'', cu), (''CHAPPasswd'', cp),
               (''bMutualCHAPEnable'', b2is me), (''mutualCHAPUserName'', mu),
               (''mutualCHAPPasswd'', mp)]"
    unmarshalResult
    "\<lambda>_ x. if rr_Result x < 0 then Inl (ErrorString ''unknown error occurred'') else Inr ()"
  for nas :: "'w nas"
proof unfold_locales
  fix a :: "int \<times> bool \<times> string \<times> string \<times> bool \<times> string \<times> string" and s
  obtain i ce cu cp me mu mp where a: "a = (i, ce, cu, cp, me, mu, mp)" by (cases a)
  show "(case a of (i, ce, cu, cp, me, mu, mp) \<Rightarrow> CreateStorageISCSIInitiator nas i ce cu cp me mu mp) s =
    exchange nas (addParamsToURL (iscsiTargetSettingsEndpoint (cl s)) [(''sid'', sid (cl s))])
      (case a of (i, ce, cu, cp, me, mu, mp) \<Rightarrow>
       Encode [(''func'', ''add_init''), (''targetIndex'', Itoa i), (''initiatorIndex'', ''0''),
               (''bCHAPEnable'', b2is ce), (''CHAPUserName'', cu), (''CHAPPasswd'', cp),
               (''bMutualCHAPEnable'', b2is me), (''mutualCHAPUserName'', mu),
               (''mutualCHAPPasswd'', mp)])
      (reply_result unmarshalResult
        (\<lambda>x. if rr_Result x < 0 then Inl (ErrorString ''unknown error occurred'') else Inr ())) s"
    unfolding a prod.case CreateStorageISCSIInitiator_def
    by (rule op_normal) (simp add: ret_def fail_def)
qed simp

interpretation del_target: api_op nas "DeleteStorageISCSITarget nas" iscsiTargetSettingsEndpoint
    "\<lambda>i sd. [(''sid'', sd), (''func'', ''remove_target''), (''targetIndex'', Itoa i)]"
    "\<lambda>_. ''''" unmarshalResult
    "\<lambda>i x. if rr_Result x \<noteq> i then Inl (ErrorString ''unknown error occurred'') else Inr ()"
  for nas :: "'w nas"
  by unfold_locales (unfold DeleteStorageISCSITarget_def, rule op_normal, simp_all add: ret_def fail_def)

interpretation add_lun: api_op nas
    "\<lambda>(name, pool, cap, thin, sec, wc, fua, ssd, tier).
       CreateStorageISCSIBlockLUN nas name pool cap thin sec wc fua ssd tier"
    iscsiLunSettingsEndpoint "\<lambda>_ sd. [(''sid'', sd)]"
    "\<lambda>(name, pool, cap, thin, sec, wc, fua, ssd, tier).
       Encode [(''func'', ''add_lun''), (''LUNThinAllocate'', b2is thin), (''LUNName'', name),
               (''LUNCapacity'', Itoa cap), (''LUNSectorSize'', Itoa sec), (''WCEnable'', b2is wc),
               (''FUAEnable'', b2is fua), (''FileIO'', ''no''), (''poolID'', Itoa pool),
               (''lv_ifssd'', b2yn ssd), (''LUNPath'', name), (''enable_tiering'', b2is tier)]"
    unmarshalCreateBlockLUN
    "\<lambda>_ x. if cb_Result x < 0 then Inl (ErrorString ''unknown error occurred'') else Inr x"
  for nas :: "'w nas"
proof unfold_locales
  fix a :: "string \<times> int \<times> int \<times> bool \<times> int \<times> bool \<times> bool \<times> bool \<times> bool" and s
  obtain name pool cap thin sec wc fua ssd tier where a: "a = (name, pool, cap, thin, sec, wc, fua, ssd, tier)"
    by (metis prod.exhaust)
  show "(case a of (name, pool, cap, thin, sec, wc, fua, ssd, tier) \<Rightarrow>
       CreateStorageISCSIBlockLUN nas name pool cap thin sec wc fua ssd tier) s =
    exchange nas (addParamsToURL (iscsiLunSettingsEndpoint (cl s)) [(''sid'', sid (cl s))])
      (case a of (name, pool, cap, thin, sec, wc, fua, ssd, tier) \<Rightarrow>
       Encode [(''func'', ''add_lun''), (''LUNThinAllocate'', b2is thin), (''LUNName'', name),
               (''LUNCapacity'', Itoa cap), (''LUNSectorSize'', Itoa sec), (''WCEnable'', b2is wc),
               (''FUAEnable'', b2is fua), (''FileIO'', ''no''), (''poolID'', Itoa pool),
               (''lv_ifssd'', b2yn ssd), (''LUNPath'', name), (''enable_tiering'', b2is tier)])
      (reply_result unmarshalCreateBlockLUN
        (\<lambda>x. if cb_Result x < 0 then Inl (ErrorString ''unknown error occurred'') else Inr x)) s"
    unfolding a prod.case CreateStorageISCSIBlockLUN_def
    by (rule op_normal) (simp add: ret_def fail_def)
qed simp

interpretation del_lun: api_op nas
    "\<lambda>(i, bg). DeleteStorageISCSIBlockLUN nas i bg" iscsiLunSettingsEndpoint
    "\<lambda>(i, bg) sd. [(''sid'', sd), (''func'', ''remove_lun'')]
       @ (if bg then [(''run_background'', ''1'')] else []) @ [(''LUNIndex'', Itoa i)]"
    "\<lambda>_. ''''" unmarshalResult
    "\<lambda>_ x. if rr_Result x \<noteq> 0 then Inl (ErrorString ''unknown error occurred'') else Inr ()"
  for nas :: "'w nas"
proof unfold_locales
  fix a :: "int \<times> bool" and s
  obtain i bg where a: "a = (i, bg)" by (cases a)
  show "(case a of (i, bg) \<Rightarrow> DeleteStorageISCSIBlockLUN nas i bg) s =
    exchange nas (addParamsToURL (iscsiLunSettingsEndpoint (cl s))
      ((case a of (i, bg) \<Rightarrow> \<lambda>sd. [(''sid'', sd), (''func'', ''remove_lun'')]
       @ (if bg then [(''run_background'', ''1'')] else []) @ [(''LUNIndex'', Itoa i)]) (sid (cl s)))) ''''
      (reply_result unmarshalResult
        (\<lambda>x. if rr_Result x \<noteq> 0 then Inl (ErrorString ''unknown error occurred'') else Inr ())) s"
    unfolding a prod.case DeleteStorageISCSIBlockLUN_def
    by (rule op_normal) (simp add: ret_def fail_def)
qed (auto split: prod.splits)

interpretation attach: api_op nas
    "\<lambda>(l, t). AttachStorageISCSITargetLUN nas l t" iscsiTargetSettingsEndpoint
    "\<lambda>(l, t) sd. [(''sid'', sd), (''func'', ''add_lun''), (''LUNIndex'', Itoa l),
                   (''targetIndex'', Itoa t)]"
    "\<lambda>_. ''''" unmarshalResult
    "\<lambda>_ x. if rr_Result x \<noteq> 0 then Inl (ErrorString ''unknown error occurred'') else Inr ()"
  for nas :: "'w nas"
proof unfold_locales
  fix a :: "int \<times> int" and s
  obtain l t where a: "a = (l, t)" by (cases a)
  show "(case a of (l, t) \<Rightarrow> AttachStorageISCSITargetLUN nas l t) s =
    exchange nas (addParamsToURL (iscsiTargetSettingsEndpoint (cl s))
      ((case a of (l, t) \<Rightarrow> \<lambda>sd. [(''sid'', sd), (''func'', ''add_lun''), (''LUNIndex'', Itoa l),
                   (''targetIndex'', Itoa t)]) (sid (cl s)))) ''''
      (reply_result unmarshalResult
        (\<lambda>x. if rr_Result x \<noteq> 0 then Inl (ErrorString ''unknown error occurred'') else Inr ())) s"
    unfolding a prod.case AttachStorageISCSITargetLUN_def
    by (rule op_normal) (simp add: ret_def fail_def)
qed (auto split: prod.splits)

section \<open>Login\<close>

text \<open>
  A login is an exchange too, with the login endpoint as it stands; its reply decides the
  session identifier, the one field of the client that changes.
\<close>

definition login_check :: "loginRespXML \<Rightarrow> gerror + string" where
  "login_check x =
     (if login_AuthPassed x \<noteq> ''1'' then Inl (ErrorString ''invalid username or password'')
      else Inr (login_AuthSid x))"

definition login_request :: "client \<Rightarrow> http_request" where
  "login_request c =
     post_request (loginEndpoint c) (Encode [(''user'', Username c), (''pwd'', Password c)])"

lemma Login_run:
  "Login nas s =
     (case exchange nas (Some (loginEndpoint (cl s)))
             (Encode [(''user'', Username (cl s)), (''pwd'', Password (cl s))])
             (reply_result unmarshalLogin login_check) s of
        (Ret v, t) \<Rightarrow> (Ret (), t\<lparr>cl := (cl t)\<lparr>sid := v\<rparr>\<rparr>)
      | (Fail e, t) \<Rightarrow> (Fail e, t)
      | (Panic, t) \<Rightarrow> (Panic, t)
      | (Hang, t) \<Rightarrow> (Hang, t))"
  by (auto simp: Login_def onErr_def postXML_run exchange_def reply_result_def effect_defs set_sid_def
      login_check_def split: option.splits prod.splits http_reply.splits sum.splits)

lemma Login_plain:
  assumes "plain_endpoint (loginEndpoint (cl s))"
  shows "Login nas s =
    (case nas (login_request (cl s)) (net s) of
       (r, w) \<Rightarrow>
         (case reply_result unmarshalLogin login_check r of
            Ret v \<Rightarrow> (Ret (), s\<lparr>cl := (cl s)\<lparr>sid := v\<rparr>, net := w\<rparr>)
          | Fail e \<Rightarrow> (Fail e, s\<lparr>net := w\<rparr>)
          | Panic \<Rightarrow> (Panic, s\<lparr>net := w\<rparr>)
          | Hang \<Rightarrow> (Hang, s\<lparr>net := w\<rparr>)))"
  using plain_endpoint_parses [OF assms]
  by (auto simp: Login_run exchange_def login_request_def split: prod.splits outcome.splits)

lemma Login_hang_unanswered: "Login nas s = (Hang, t) \<Longrightarrow> \<exists>q. nas q (net s) = (NoReply, net t)"
  by (auto simp: Login_run exchange_def reply_result_def login_check_def
      split: option.splits prod.splits http_reply.splits sum.splits outcome.splits if_splits)

section \<open>What never changes\<close>

text \<open>Addresses and credentials are fixed; only the session identifier moves.\<close>

definition same_account :: "'w st \<Rightarrow> 'w st \<Rightarrow> bool" where
  "same_account s t \<longleftrightarrow> (cl s)\<lparr>sid := ''''\<rparr> = (cl t)\<lparr>sid := ''''\<rparr>"

interpretation account: frame same_account
  by unfold_locales (simp_all add: same_account_def)

lemma same_account_good: "same_account s t \<Longrightarrow> good_client (cl s) = good_client (cl t)"
  by (cases "cl s", cases "cl t") (simp add: same_account_def good_client_def)

lemma stays_Login: "stays same_account (Login nas)"
  by (auto simp: stays_def Login_run exchange_def same_account_def
      split: option.splits prod.splits outcome.splits)

lemma keeps_client_stays: "(\<And>s r t. m s = (r, t) \<Longrightarrow> cl t = cl s) \<Longrightarrow> stays same_account m"
  by (auto simp: stays_def same_account_def) (metis prod.collapse)

lemma stays_ops:
  "stays same_account (GetStoragePoolSubscription nas p)"
  "stays same_account (GetStorageISCSILun nas l)"
  "stays same_account (GetStorageISCSITargetList nas)"
  "stays same_account (CreateStorageISCSITarget nas name dd hg cm)"
  "stays same_account (CreateStorageISCSIInitiator nas i ce cu cp me mu mp)"
  "stays same_account (DeleteStorageISCSITarget nas i)"
  "stays same_account (CreateStorageISCSIBlockLUN nas name pl cap thin sec wc fua ssd tier)"
  "stays same_account (DeleteStorageISCSIBlockLUN nas l bg)"
  "stays same_account (AttachStorageISCSITargetLUN nas l i)"
  by (rule keeps_client_stays, erule pool.keeps_client lun.keeps_client target_list.keeps_client
      add_target.keeps_client [of _ "(name, dd, hg, cm)", simplified]
      add_init.keeps_client [of _ "(i, ce, cu, cp, me, mu, mp)", simplified]
      del_target.keeps_client
      add_lun.keeps_client [of _ "(name, pl, cap, thin, sec, wc, fua, ssd, tier)", simplified]
      del_lun.keeps_client [of _ "(l, bg)", simplified] attach.keeps_client [of _ "(l, i)", simplified])+

section \<open>Construction\<close>

lemma address_append: "address scheme host port (path @ suffix) = address scheme host port path @ suffix"
  by (simp add: address_def)

lemma plain_address_extend:
  assumes "plain_address scheme host port path" and "hd suffix = CHR ''/''" and "list_all path_char suffix"
  shows "plain_endpoint (address scheme host port path @ suffix)"
proof -
  have "plain_address scheme host port (path @ suffix)"
    using assms by (cases path) (auto simp: plain_address_def)
  then show ?thesis by (metis plain_endpoint_def address_append)
qed

lemma TrimRight_slashes:
  assumes "s = [] \<or> last s \<noteq> CHR ''/''"
  shows "TrimRight (s @ replicate n (CHR ''/'')) ''/'' = s"
proof (induction n)
  case 0
  then show ?case using assms by (simp add: text_simps)
next
  case (Suc n)
  have "s @ replicate (Suc n) (CHR ''/'') = (s @ replicate n (CHR ''/'')) @ [CHR ''/'']"
    by (simp add: replicate_append_same)
  then show ?case
    using Suc TrimRight_append_one [of "CHR ''/''" "''/''" "s @ replicate n (CHR ''/'')"] by simp
qed

lemma NewClient_plain:
  assumes "plain_address scheme host port path" and "path = [] \<or> last path \<noteq> CHR ''/''"
  shows "\<exists>c. NewClient user password (address scheme host port path @ replicate n (CHR ''/'')) = Inr c
    \<and> good_client c \<and> sid c = '''' \<and> Username c = user \<and> DecodeString (Password c) = Some password
    \<and> loginEndpoint c = address scheme host port path @ ''/cgi-bin/authLogin.cgi''"
proof -
  let ?a = "address scheme host port path"
  have "host @ port \<noteq> []" using assms(1) by (simp add: plain_address_def)
  then have "last (host @ port) \<noteq> CHR ''/''"
    using parseHost_plain(4) [OF assms(1)] last_in_set by metis
  moreover have "?a = (scheme @ ''://'' @ host @ port) @ path" by (simp add: address_def)
  ultimately have "last ?a \<noteq> CHR ''/''"
    using assms(2) \<open>host @ port \<noteq> []\<close> by (auto simp: last_append)
  then have trim: "TrimRight (?a @ replicate n (CHR ''/'')) ''/'' = ?a" by (intro TrimRight_slashes) simp
  have suffix: "list_all path_char ''/cgi-bin/authLogin.cgi''" "list_all path_char ''/cgi-bin/disk/disk_manage.cgi''"
    "list_all path_char ''/cgi-bin/disk/iscsi_portal_setting.cgi''"
    "list_all path_char ''/cgi-bin/disk/iscsi_target_setting.cgi''"
    "list_all path_char ''/cgi-bin/disk/iscsi_lun_setting.cgi''"
    by (simp_all add: path_char_def shouldEscape_def is_alnum_def)
  show ?thesis
    using suffix plain_address_extend [OF assms(1)] Decode_Encode
    by (simp add: NewClient_def Let_def trim url_Parse_address [OF assms(1)] good_client_def)
qed

section \<open>Observed runs\<close>

text \<open>
  To speak of the traffic of a run, the NAS is wrapped in one that notes each request with its
  reply. The operations are polymorphic in the state of the other side, so the wrapped NAS is
  one more NAS.
\<close>

type_synonym 'w observed = "(http_request \<times> http_reply) list \<times> 'w"

definition logged :: "'w nas \<Rightarrow> 'w observed nas" where
  "logged nas r lw = (case nas r (snd lw) of (x, w) \<Rightarrow> (x, (fst lw @ [(r, x)], w)))"

abbreviation traffic :: "'w observed st \<Rightarrow> (http_request \<times> http_reply) list" where
  "traffic s \<equiv> fst (net s)"

lemma reply_result_proper: "reply_result unm chk r \<noteq> Panic" "reply_result unm chk r = Hang \<longleftrightarrow> r = NoReply"
  by (auto simp: reply_result_def split: http_reply.splits sum.splits option.splits)

context api_op
begin

lemma run_sent:
  assumes "call a s = (r, t)" and "plain_endpoint (base (cl s))"
  shows "\<exists>x. nas (post_request (base (cl s) @ ''?'' @ Encode (params a (sid (cl s)))) (payload a)) (net s)
           = (x, net t) \<and> cl t = cl s \<and> r = reply_result unm (chk a) x"
  using assms(1) by (auto simp: run_plain [OF assms(2)] split: prod.splits)

end

text \<open>The requests of the operations the controller uses, by name.\<close>

definition list_request :: "client \<Rightarrow> http_request" where
  "list_request c = post_request (iscsiPortalEndpoint c @ ''?''
     @ Encode [(''sid'', sid c), (''func'', ''extra_get''), (''targetList'', ''1'')]) ''''"

definition lun_request :: "client \<Rightarrow> int \<Rightarrow> http_request" where
  "lun_request c l = post_request (iscsiPortalEndpoint c @ ''?''
     @ Encode [(''sid'', sid c), (''func'', ''extra_get''), (''lun_info'', ''1''), (''lunID'', Itoa l)]) ''''"

definition pool_request :: "client \<Rightarrow> int \<Rightarrow> http_request" where
  "pool_request c p = post_request (diskManageEndpoint c @ ''?''
     @ Encode [(''sid'', sid c), (''store'', ''poolSubsc'')])
     (Encode [(''func'', ''extra_get''), (''Pool_Subs'', ''1''), (''poolID'', Itoa p)])"

definition add_target_request :: "client \<Rightarrow> string \<Rightarrow> http_request" where
  "add_target_request c name = post_request (iscsiTargetSettingsEndpoint c @ ''?'' @ Encode [(''sid'', sid c)])
     (Encode [(''func'', ''add_target''), (''targetName'', name), (''targetAlias'', name),
              (''bTargetDataDigest'', ''0''), (''bTargetHeaderDigest'', ''0''),
              (''bTargetClusterEnable'', ''1'')])"

definition add_init_request :: "client \<Rightarrow> int \<Rightarrow> http_request" where
  "add_init_request c i = post_request (iscsiTargetSettingsEndpoint c @ ''?'' @ Encode [(''sid'', sid c)])
     (Encode [(''func'', ''add_init''), (''targetIndex'', Itoa i), (''initiatorIndex'', ''0''),
              (''bCHAPEnable'', ''0''), (''CHAPUserName'', ''''), (''CHAPPasswd'', ''''),
              (''bMutualCHAPEnable'', ''0''), (''mutualCHAPUserName'', ''''),
              (''mutualCHAPPasswd'', '''')])"

definition add_lun_request :: "client \<Rightarrow> string \<Rightarrow> int \<Rightarrow> int \<Rightarrow> http_request" where
  "add_lun_request c name pool cap = post_request (iscsiLunSettingsEndpoint c @ ''?'' @ Encode [(''sid'', sid c)])
     (Encode [(''func'', ''add_lun''), (''LUNThinAllocate'', ''0''), (''LUNName'', name),
              (''LUNCapacity'', Itoa cap), (''LUNSectorSize'', Itoa 512), (''WCEnable'', ''0''),
              (''FUAEnable'', ''0''), (''FileIO'', ''no''), (''poolID'', Itoa pool),
              (''lv_ifssd'', ''no''), (''LUNPath'', name), (''enable_tiering'', ''0'')])"

definition attach_request :: "client \<Rightarrow> int \<Rightarrow> int \<Rightarrow> http_request" where
  "attach_request c l i = post_request (iscsiTargetSettingsEndpoint c @ ''?''
     @ Encode [(''sid'', sid c), (''func'', ''add_lun''), (''LUNIndex'', Itoa l), (''targetIndex'', Itoa i)]) ''''"

definition del_target_request :: "client \<Rightarrow> int \<Rightarrow> http_request" where
  "del_target_request c i = post_request (iscsiTargetSettingsEndpoint c @ ''?''
     @ Encode [(''sid'', sid c), (''func'', ''remove_target''), (''targetIndex'', Itoa i)]) ''''"

definition del_lun_request :: "client \<Rightarrow> int \<Rightarrow> http_request" where
  "del_lun_request c l = post_request (iscsiLunSettingsEndpoint c @ ''?''
     @ Encode [(''sid'', sid c), (''func'', ''remove_lun''), (''LUNIndex'', Itoa l)]) ''''"

lemmas request_defs = list_request_def lun_request_def pool_request_def add_target_request_def
  add_init_request_def add_lun_request_def attach_request_def del_target_request_def del_lun_request_def

text \<open>Running an operation against a NAS: one request, the client as before, the reply decoded.\<close>

lemma run_list:
  assumes "GetStorageISCSITargetList nas s = (r, t)" and "good_client (cl s)"
  shows "\<exists>x. nas (list_request (cl s)) (net s) = (x, net t) \<and> cl t = cl s
    \<and> r = reply_result unmarshalTargetList
        (\<lambda>x. if tl_Result x \<noteq> ''0'' then Inl (ErrorString ''unknown error occurred'') else Inr x) x"
  using target_list.run_sent [OF assms(1)] assms(2) by (simp add: good_client_def request_defs)

lemma run_lun:
  assumes "GetStorageISCSILun nas l s = (r, t)" and "good_client (cl s)"
  shows "\<exists>x. nas (lun_request (cl s) l) (net s) = (x, net t) \<and> cl t = cl s
    \<and> r = reply_result unmarshalLun
        (\<lambda>x. if lun_Result x \<noteq> ''0'' then Inl (ErrorString ''unknown error occurred'')
           else Inr (x\<lparr>lun_Capacity := Trim (lun_Capacity x) newline\<rparr>)) x"
  using lun.run_sent [OF assms(1)] assms(2) by (simp add: good_client_def request_defs)

lemma run_pool:
  assumes "GetStoragePoolSubscription nas p s = (r, t)" and "good_client (cl s)"
  shows "\<exists>x. nas (pool_request (cl s) p) (net s) = (x, net t) \<and> cl t = cl s
    \<and> r = reply_result unmarshalPool
       (\<lambda>x. if pool_Result x = ''-1'' then Inl (ErrorString ''invalid pool id'')
           else if pool_Result x \<noteq> ''0'' then Inl (ErrorString ''unknown error occurred'') else Inr x) x"
  using pool.run_sent [OF assms(1)] assms(2) by (simp add: good_client_def request_defs)

lemma run_add_target:
  assumes "CreateStorageISCSITarget nas name False False True s = (r, t)" and "good_client (cl s)"
  shows "\<exists>x. nas (add_target_request (cl s) name) (net s) = (x, net t) \<and> cl t = cl s
    \<and> r = reply_result unmarshalResult
        (\<lambda>x. if rr_Result x < 0 then Inl (ErrorString ''unknown error occurred'') else Inr (rr_Result x)) x"
  using add_target.run_sent [of nas "(name, False, False, True)" s r t] assms
  by (simp add: good_client_def request_defs b2is_def)

lemma run_add_init:
  assumes "CreateStorageISCSIInitiator nas i False '''' '''' False '''' '''' s = (r, t)" and "good_client (cl s)"
  shows "\<exists>x. nas (add_init_request (cl s) i) (net s) = (x, net t) \<and> cl t = cl s
    \<and> r = reply_result unmarshalResult
        (\<lambda>x. if rr_Result x < 0 then Inl (ErrorString ''unknown error occurred'') else Inr ()) x"
  using add_init.run_sent [of nas "(i, False, '''', '''', False, '''', '''')" s r t] assms
  by (simp add: good_client_def request_defs b2is_def)

lemma run_add_lun:
  assumes "CreateStorageISCSIBlockLUN nas name p cap False 512 False False False False s = (r, t)"
    and "good_client (cl s)"
  shows "\<exists>x. nas (add_lun_request (cl s) name p cap) (net s) = (x, net t) \<and> cl t = cl s
    \<and> r = reply_result unmarshalCreateBlockLUN
        (\<lambda>x. if cb_Result x < 0 then Inl (ErrorString ''unknown error occurred'') else Inr x) x"
  using add_lun.run_sent [of nas "(name, p, cap, False, 512, False, False, False, False)" s r t] assms
  by (simp add: good_client_def request_defs b2is_def b2yn_def)

lemma run_attach:
  assumes "AttachStorageISCSITargetLUN nas l i s = (r, t)" and "good_client (cl s)"
  shows "\<exists>x. nas (attach_request (cl s) l i) (net s) = (x, net t) \<and> cl t = cl s
    \<and> r = reply_result unmarshalResult
        (\<lambda>x. if rr_Result x \<noteq> 0 then Inl (ErrorString ''unknown error occurred'') else Inr ()) x"
  using attach.run_sent [of nas "(l, i)" s r t] assms by (simp add: good_client_def request_defs)

lemma run_del_target:
  assumes "DeleteStorageISCSITarget nas i s = (r, t)" and "good_client (cl s)"
  shows "\<exists>x. nas (del_target_request (cl s) i) (net s) = (x, net t) \<and> cl t = cl s
    \<and> r = reply_result unmarshalResult
        (\<lambda>x. if rr_Result x \<noteq> i then Inl (ErrorString ''unknown error occurred'') else Inr ()) x"
  using del_target.run_sent [OF assms(1)] assms(2) by (simp add: good_client_def request_defs)

lemma run_del_lun:
  assumes "DeleteStorageISCSIBlockLUN nas l False s = (r, t)" and "good_client (cl s)"
  shows "\<exists>x. nas (del_lun_request (cl s) l) (net s) = (x, net t) \<and> cl t = cl s
    \<and> r = reply_result unmarshalResult
        (\<lambda>x. if rr_Result x \<noteq> 0 then Inl (ErrorString ''unknown error occurred'') else Inr ()) x"
  using del_lun.run_sent [of nas "(l, False)" s r t] assms by (simp add: good_client_def request_defs)

lemma logged_step: "logged nas r lw = (x, lw') \<Longrightarrow> fst lw' = fst lw @ [(r, x)]"
  by (auto simp: logged_def split: prod.splits)

section \<open>The function a request asks for\<close>

definition request_func :: "http_request \<Rightarrow> string option" where
  "request_func r = (case request_forms r of None \<Rightarrow> None | Some (q, b) \<Rightarrow> map_of (b @ q) ''func'')"

lemma map_of_sort_key: "distinct (map fst ps) \<Longrightarrow> map_of (sort_key fst ps) = map_of ps"
  by (subst map_of_inject_set) (auto simp: distinct_map inj_on_def)

lemma request_func_post:
  assumes "plain_endpoint e" and "distinct (map fst ps)" and "distinct (map fst qs)"
  shows "request_func (post_request (e @ ''?'' @ Encode ps) (Encode qs)) = map_of (qs @ ps) ''func''"
  by (simp only: request_func_def request_forms_post [OF assms(1)] option.case prod.case map_of_append
      map_add_def map_of_sort_key [OF assms(2)] map_of_sort_key [OF assms(3)])

lemmas request_func_posts = request_func_post [unfolded append_Cons append_Nil]

lemma Encode_Nil [simp]: "Encode [] = ''''"
  by (simp add: Encode_def)

lemma request_funcs:
  assumes "good_client c"
  shows "request_func (list_request c) = Some ''extra_get''"
    and "request_func (lun_request c l) = Some ''extra_get''"
    and "request_func (add_target_request c name) = Some ''add_target''"
    and "request_func (add_init_request c i) = Some ''add_init''"
    and "request_func (add_lun_request c name p cap) = Some ''add_lun''"
    and "request_func (attach_request c l i) = Some ''add_lun''"
    and "request_func (del_target_request c i) = Some ''remove_target''"
    and "request_func (del_lun_request c l) = Some ''remove_lun''"
  using assms request_func_posts [where qs = "[]"]
  by (simp_all add: request_defs request_func_posts good_client_def)

lemma login_func:
  assumes "good_client c"
  shows "request_func (login_request c) = None"
proof -
  have "CHR ''?'' \<notin> set (loginEndpoint c)"
    using assms by (simp add: good_client_def plain_endpoint_no_query)
  then have path: "dropWhile (\<lambda>x. x \<noteq> CHR ''?'') (loginEndpoint c) = []" by auto
  show ?thesis
    by (simp add: path request_func_def request_forms_def login_request_def post_request_def
        ReadForm_Encode map_of_sort_key ReadForm_def [of "''''"])
qed

definition removes :: "http_request \<Rightarrow> bool" where
  "removes r \<longleftrightarrow> request_func r = Some ''remove_target'' \<or> request_func r = Some ''remove_lun''"

lemma removes_simps [simp]:
  assumes "good_client c"
  shows "\<not> removes (list_request c)" "\<not> removes (lun_request c l)" "\<not> removes (add_target_request c name)"
    "\<not> removes (add_init_request c i)" "\<not> removes (add_lun_request c name p cap)"
    "\<not> removes (attach_request c l i)" "\<not> removes (login_request c)"
    "removes (del_target_request c i)" "removes (del_lun_request c l)"
  using request_funcs [OF assms] login_func [OF assms] by (simp_all add: removes_def)

end
