(* ===== verification/Controller.thy ===== *)
theory Controller
  imports Driver ClientLaws
begin

text \<open>
  \<^verbatim>\<open>driver/controller.go\<close>: the controller service of the driver. Each handler is the
  sequence of client calls of the source with its early returns; the state it runs on holds
  the client and the NAS.
\<close>

section \<open>Requests and responses\<close>

record createVolumeRequest =
  cv_Name :: string
  cv_VolumeCapabilities :: "capability list"
  cv_CapacityRange :: "capacityRange option"

record volume =
  VolumeId :: string
  vol_CapacityBytes :: int
  VolumeContext :: "string \<rightharpoonup> string"

record listVolumesResponse =
  Entries :: "string list"
  NextToken :: string

record getCapacityResponse =
  AvailableCapacity :: int
  MaximumVolumeSize :: int
  MinimumVolumeSize :: int

definition supportedAccessMode :: access_mode where
  "supportedAccessMode = SINGLE_NODE_WRITER"

section \<open>Capabilities\<close>

definition capability_violations :: "(access_mode \<Rightarrow> string) \<Rightarrow> capability \<Rightarrow> string set" where
  "capability_violations modeString currentCap =
     (if GetMode (AccessMode currentCap) \<noteq> supportedAccessMode
      then {''unsupported access mode '' @ modeString (GetMode (AccessMode currentCap))} else {})
     \<union> (case AccessType currentCap of
          Some Block \<Rightarrow> {}
        | Some (Mount _ _) \<Rightarrow> {}
        | None \<Rightarrow> {''unsupported access type''})"

fun collect_violations :: "(access_mode \<Rightarrow> string) \<Rightarrow> capability list \<Rightarrow> string set \<Rightarrow> string set" where
  "collect_violations modeString [] violations = violations"
| "collect_violations modeString (currentCap # caps) violations =
     collect_violations modeString caps (violations \<union> capability_violations modeString currentCap)"

definition validateCapabilities :: "(access_mode \<Rightarrow> string) \<Rightarrow> capability list \<Rightarrow> string list" where
  "validateCapabilities modeString caps = sorted_list_of_set (collect_violations modeString caps {})"

section \<open>Creating a volume\<close>

definition internal :: "string \<Rightarrow> 'e \<Rightarrow> ('w, 'a) handler" where
  "internal msg e = fail (Status Internal msg)"

text \<open>
  The loop that waits for a LUN: one readiness call per turn while the LUN is being created.
  It has no bound of its own, so it is a partial function; not returning is \<open>Hang\<close>.
\<close>

partial_function (option) pollLun :: "'w nas \<Rightarrow> int \<Rightarrow> 'w st
    \<Rightarrow> ((status, unit) outcome \<times> 'w st) option" where
  "pollLun nas lunID s =
     (case GetStorageISCSILun nas lunID s of
        (r, t) \<Rightarrow>
          (case r of
             Fail e \<Rightarrow> Some (Fail (Status Internal ''Failed to get ISCSI Block based LUN readiness''), t)
           | Panic \<Rightarrow> Some (Panic, t)
           | Hang \<Rightarrow> Some (Hang, t)
           | Ret lunInfo \<Rightarrow>
               if lun_StatusString lunInfo = ''creating'' then pollLun nas lunID t
               else Some (Ret (), t)))"

definition waitForLun :: "'w nas \<Rightarrow> int \<Rightarrow> ('w, unit) handler" where
  "waitForLun nas lunID s = (case pollLun nas lunID s of None \<Rightarrow> (Hang, s) | Some r \<Rightarrow> r)"

fun find_iqn :: "string \<Rightarrow> targetInfo list \<Rightarrow> string" where
  "find_iqn name [] = ''''"
| "find_iqn name (target # rest) = (if target_Name target = name then IQN target else find_iqn name rest)"

definition volume_response :: "driver \<Rightarrow> string \<Rightarrow> int \<Rightarrow> string \<Rightarrow> volume" where
  "volume_response d name sz iqn =
     \<lparr>VolumeId = name, vol_CapacityBytes = sz,
      VolumeContext = [''targetPortal'' \<mapsto> d_portal d, ''iqn'' \<mapsto> iqn, ''lun'' \<mapsto> ''0'', ''portals'' \<mapsto> ''[]'']\<rparr>"

text \<open>
  The calls to the NAS, once the request has been accepted, from the last stage to the first;
  each stage ends in the next.
\<close>

definition finishVolume :: "'w nas \<Rightarrow> driver \<Rightarrow> string \<Rightarrow> int \<Rightarrow> ('w, volume) handler" where
  "finishVolume nas d name sz =
     onErr (GetStorageISCSITargetList nas) (internal ''Failed to get list of ISCSI targets'') (\<lambda>targetList.
     let iqn = find_iqn name (Targets targetList)
     in if iqn = '''' then fail (Status Internal ''Failed to get ISCSI IQN'')
        else ret (volume_response d name sz iqn))"

definition attachVolume :: "'w nas \<Rightarrow> driver \<Rightarrow> string \<Rightarrow> int \<Rightarrow> int \<Rightarrow> int \<Rightarrow> ('w, volume) handler" where
  "attachVolume nas d name sz targetIndex lunIndex =
     onErr (AttachStorageISCSITargetLUN nas lunIndex targetIndex)
       (\<lambda>err. ignoring (DeleteStorageISCSITarget nas targetIndex)
                (ignoring (DeleteStorageISCSIBlockLUN nas lunIndex False)
                  (internal ''Failed to associate LUN with ISCSI target'' err))) (\<lambda>_.
     finishVolume nas d name sz)"

definition createLUN :: "'w nas \<Rightarrow> driver \<Rightarrow> string \<Rightarrow> int \<Rightarrow> int \<Rightarrow> ('w, volume) handler" where
  "createLUN nas d name sz targetIndex =
     onErr (CreateStorageISCSIBlockLUN nas name (d_storagePoolID d) (sz div (1 * giB)) False 512
              False False False False)
       (\<lambda>err. ignoring (DeleteStorageISCSITarget nas targetIndex)
                (internal ''Failed to create ISCSI Block based LUN'' err)) (\<lambda>block.
     onErr (waitForLun nas (cb_Result block)) fail (\<lambda>_.
     attachVolume nas d name sz targetIndex (cb_Result block)))"

definition createTarget :: "'w nas \<Rightarrow> driver \<Rightarrow> string \<Rightarrow> int \<Rightarrow> ('w, volume) handler" where
  "createTarget nas d name sz =
     onErr (CreateStorageISCSITarget nas name False False True)
       (internal ''Failed to create ISCSI target'') (\<lambda>targetIndex.
     onErr (CreateStorageISCSIInitiator nas targetIndex False '''' '''' False '''' '''')
       (\<lambda>err. ignoring (DeleteStorageISCSITarget nas targetIndex)
                (internal ''Failed to create ISCSI initator'' err)) (\<lambda>_.
     createLUN nas d name sz targetIndex))"

definition provision :: "'w nas \<Rightarrow> driver \<Rightarrow> string \<Rightarrow> int \<Rightarrow> ('w, volume) handler" where
  "provision nas d name sz =
     onErr (Login nas) (internal ''Failed to login to NAS'') (\<lambda>_.
     onErr (GetStorageISCSITargetList nas) (internal ''Failed to get list of ISCSI targets'') (\<lambda>targetList.
     if list_ex (\<lambda>target. target_Name target = name) (Targets targetList)
     then fail (Status AlreadyExists ''Volume already exists'')
     else createTarget nas d name sz))"

definition CreateVolume :: "'w nas \<Rightarrow> (access_mode \<Rightarrow> string) \<Rightarrow> driver \<Rightarrow> createVolumeRequest
    \<Rightarrow> ('w, volume) handler" where
  "CreateVolume nas modeString d req =
     (if cv_Name req = '''' then fail (Status InvalidArgument ''CreateVolume Name must be provided'')
      else if cv_VolumeCapabilities req = [] then
        fail (Status InvalidArgument ''CreateVolume Volume capabilities must be provided'')
      else if validateCapabilities modeString (cv_VolumeCapabilities req) \<noteq> [] then
        fail (Status InvalidArgument (''volume capabilities cannot be satisified: ''
          @ join ''; '' (validateCapabilities modeString (cv_VolumeCapabilities req))))
      else
        (case extractStorage (cv_CapacityRange req) of
           Inl err \<Rightarrow> fail (Status OutOfRange (''invalid capacity range: '' @ err))
         | Inr sz \<Rightarrow> provision nas d (cleanISCSIName (cv_Name req)) sz))"

section \<open>Deleting a volume\<close>

fun deleteLuns :: "'w nas \<Rightarrow> int list \<Rightarrow> ('w, unit) handler" where
  "deleteLuns nas [] = ret ()"
| "deleteLuns nas (targetLUNID # rest) =
     onErr (DeleteStorageISCSIBlockLUN nas targetLUNID False)
       (internal ''Failed to delete ISCSI Block based LUN'') (\<lambda>_. deleteLuns nas rest)"

fun deleteTargets :: "'w nas \<Rightarrow> string \<Rightarrow> targetInfo list \<Rightarrow> ('w, unit) handler" where
  "deleteTargets nas volumeId [] = ret ()"
| "deleteTargets nas volumeId (target # rest) =
     (if target_Name target = volumeId then
        onErr (DeleteStorageISCSITarget nas (TargetIndex target))
          (internal ''Failed to delete ISCSI target'') (\<lambda>_. deleteLuns nas (TargetLUNs target))
      else deleteTargets nas volumeId rest)"

definition DeleteVolume :: "'w nas \<Rightarrow> string \<Rightarrow> ('w, unit) handler" where
  "DeleteVolume nas volumeId =
     (if volumeId = '''' then fail (Status InvalidArgument ''DeleteVolume Volume ID must be provided'')
      else
        onErr (Login nas) (internal ''Failed to login to NAS'') (\<lambda>_.
        onErr (GetStorageISCSITargetList nas) (internal ''Failed to get list of ISCSI targets'') (\<lambda>targetList.
        deleteTargets nas volumeId (Targets targetList))))"

section \<open>Validating, listing, capacity\<close>

definition ValidateVolumeCapabilities :: "'w nas \<Rightarrow> string \<Rightarrow> capability list option
    \<Rightarrow> ('w, capability list) handler" where
  "ValidateVolumeCapabilities nas volumeId caps =
     (if volumeId = '''' then
        fail (Status InvalidArgument ''ValidateVolumeCapabilities Volume ID must be provided'')
      else if caps = None then
        fail (Status InvalidArgument ''ValidateVolumeCapabilities Volume Capabilities must be provided'')
      else
        onErr (Login nas) (internal ''Failed to login to NAS'') (\<lambda>_.
        onErr (GetStorageISCSITargetList nas) (internal ''Failed to get list of ISCSI targets'') (\<lambda>resp.
        if list_ex (\<lambda>target. target_Name target = volumeId) (Targets resp)
        then ret [\<lparr>AccessMode = Some supportedAccessMode, AccessType = None\<rparr>]
        else fail (Status NotFound
               (''ValidateVolumeCapabilities Volume ID '' @ volumeId @ '' not found'')))))"

text \<open>
  The listing loop. \<^verbatim>\<open>seenIds\<close> is a pointer: \<open>None\<close> is nil, and looking an index up in it
  is a nil dereference, the result \<open>None\<close> of the loop.
\<close>

fun listLoop :: "int \<Rightarrow> targetInfo list \<Rightarrow> string list \<Rightarrow> int set option
    \<Rightarrow> (string list \<times> string) option" where
  "listLoop maxEntries [] entries seenIds = Some (entries, '''')"
| "listLoop maxEntries (target # rest) entries seenIds =
     (case seenIds of
        None \<Rightarrow> None
      | Some seen \<Rightarrow>
          if TargetIndex target \<in> seen then listLoop maxEntries rest entries seenIds
          else if to_int32 (int (length entries)) \<ge> maxEntries then
            Some (entries, seenIndexesToBase64String (sorted_list_of_set seen))
          else listLoop maxEntries rest (entries @ [target_Name target])
                 (Some (insert (TargetIndex target) seen)))"

definition starting_seen :: "string \<Rightarrow> int set option" where
  "starting_seen token =
     (if token = '''' then None
      else (case base64SeenIndexesToMap token of None \<Rightarrow> Some {} | Some seen \<Rightarrow> Some seen))"

definition ListVolumes :: "'w nas \<Rightarrow> string \<Rightarrow> int \<Rightarrow> ('w, listVolumesResponse) handler" where
  "ListVolumes nas startingToken reqMaxEntries =
     onErr (Login nas) (internal ''Failed to login to NAS'') (\<lambda>_.
     onErr (GetStorageISCSITargetList nas) (internal ''Failed to get list of ISCSI targets'') (\<lambda>resp.
     let maxEntries = (if reqMaxEntries = 0 then to_int32 (int (length (Targets resp))) else reqMaxEntries)
     in case listLoop maxEntries (Targets resp) [] (starting_seen startingToken) of
          None \<Rightarrow> panic
        | Some (entries, nextToken) \<Rightarrow> ret \<lparr>Entries = entries, NextToken = nextToken\<rparr>))"

definition GetCapacity :: "'w nas \<Rightarrow> driver \<Rightarrow> ('w, getCapacityResponse) handler" where
  "GetCapacity nas d =
     onErr (Login nas) (internal ''Failed to login to NAS'') (\<lambda>_.
     onErr (GetStoragePoolSubscription nas (d_storagePoolID d))
       (internal ''Failed to get storage pool capacity'') (\<lambda>resp.
     ret \<lparr>AvailableCapacity = sint (CapacityBytes (PoolSubscription resp)),
          MaximumVolumeSize = maximumVolumeSizeInBytes,
          MinimumVolumeSize = minimumVolumeSizeInBytes\<rparr>))"

datatype controllerRPC = CREATE_DELETE_VOLUME | LIST_VOLUMES | GET_CAPACITY

definition ControllerGetCapabilities :: "('w, controllerRPC list) handler" where
  "ControllerGetCapabilities = ret [CREATE_DELETE_VOLUME, LIST_VOLUMES, GET_CAPACITY]"

section \<open>Services that are not offered\<close>

definition not_implemented :: "('w, 'a) handler" where
  "not_implemented = fail (Status Unimplemented ''not implemented'')"

definition CreateSnapshot :: "'r \<Rightarrow> ('w, 'a) handler" where
  "CreateSnapshot req = not_implemented"

definition DeleteSnapshot :: "'r \<Rightarrow> ('w, 'a) handler" where
  "DeleteSnapshot req = not_implemented"

definition ListSnapshots :: "'r \<Rightarrow> ('w, 'a) handler" where
  "ListSnapshots req = not_implemented"

definition ControllerExpandVolume :: "'r \<Rightarrow> ('w, 'a) handler" where
  "ControllerExpandVolume req = not_implemented"

definition ControllerGetVolume :: "'r \<Rightarrow> ('w, 'a) handler" where
  "ControllerGetVolume req = not_implemented"

definition ControllerPublishVolume :: "'r \<Rightarrow> ('w, 'a) handler" where
  "ControllerPublishVolume req = not_implemented"

definition ControllerUnpublishVolume :: "'r \<Rightarrow> ('w, 'a) handler" where
  "ControllerUnpublishVolume req = not_implemented"

end
