(* ===== verification/Traffic.thy ===== *)
theory Traffic
  imports Controller
begin

text \<open>
  The operations the controller uses, as entries of an observed run: the reply of each is
  decoded by a function of its own, and running it against an observed NAS adds the request
  with its reply to the traffic and leaves the client as it was. The last section tells the
  requests of different operations apart.
\<close>

section \<open>Decoding replies\<close>

definition login_reply :: "http_reply \<Rightarrow> (gerror, string) outcome" where
  "login_reply = reply_result unmarshalLogin login_check"

definition list_reply :: "http_reply \<Rightarrow> (gerror, targetListResp) outcome" where
  "list_reply = reply_result unmarshalTargetList
     (\<lambda>x. if tl_Result x \<noteq> ''0'' then Inl (ErrorString ''unknown error occurred'') else Inr x)"

definition lun_reply :: "http_reply \<Rightarrow> (gerror, lunResp) outcome" where
  "lun_reply = reply_result unmarshalLun
     (\<lambda>x. if lun_Result x \<noteq> ''0'' then Inl (ErrorString ''unknown error occurred'')
          else Inr (x\<lparr>lun_Capacity := Trim (lun_Capacity x) newline\<rparr>))"

definition pool_reply :: "http_reply \<Rightarrow> (gerror, storagePoolSubscriptionResp) outcome" where
  "pool_reply = reply_result unmarshalPool
     (\<lambda>x. if pool_Result x = ''-1'' then Inl (ErrorString ''invalid pool id'')
          else if pool_Result x \<noteq> ''0'' then Inl (ErrorString ''unknown error occurred'') else Inr x)"

definition target_reply :: "http_reply \<Rightarrow> (gerror, int) outcome" where
  "target_reply = reply_result unmarshalResult
     (\<lambda>x. if rr_Result x < 0 then Inl (ErrorString ''unknown error occurred'') else Inr (rr_Result x))"

definition init_reply :: "http_reply \<Rightarrow> (gerror, unit) outcome" where
  "init_reply = reply_result unmarshalResult
     (\<lambda>x. if rr_Result x < 0 then Inl (ErrorString ''unknown error occurred'') else Inr ())"

definition block_reply :: "http_reply \<Rightarrow> (gerror, createBlockLUNResp) outcome" where
  "block_reply = reply_result unmarshalCreateBlockLUN
     (\<lambda>x. if cb_Result x < 0 then Inl (ErrorString ''unknown error occurred'') else Inr x)"

definition echo_reply :: "int \<Rightarrow> http_reply \<Rightarrow> (gerror, unit) outcome" where
  "echo_reply i = reply_result unmarshalResult
     (\<lambda>x. if rr_Result x \<noteq> i then Inl (ErrorString ''unknown error occurred'') else Inr ())"

lemmas reply_defs = login_reply_def list_reply_def lun_reply_def pool_reply_def target_reply_def
  init_reply_def block_reply_def echo_reply_def

lemma reply_proper [simp]:
  "login_reply x \<noteq> Panic" "list_reply x \<noteq> Panic" "lun_reply x \<noteq> Panic" "pool_reply x \<noteq> Panic"
  "target_reply x \<noteq> Panic" "init_reply x \<noteq> Panic" "block_reply x \<noteq> Panic" "echo_reply i x \<noteq> Panic"
  by (simp_all add: reply_defs reply_result_proper)

lemma reply_hangs [simp]:
  "login_reply x = Hang \<longleftrightarrow> x = NoReply" "list_reply x = Hang \<longleftrightarrow> x = NoReply"
  "lun_reply x = Hang \<longleftrightarrow> x = NoReply" "pool_reply x = Hang \<longleftrightarrow> x = NoReply"
  "target_reply x = Hang \<longleftrightarrow> x = NoReply" "init_reply x = Hang \<longleftrightarrow> x = NoReply"
  "block_reply x = Hang \<longleftrightarrow> x = NoReply" "echo_reply i x = Hang \<longleftrightarrow> x = NoReply"
  by (simp_all add: reply_defs reply_result_proper)

lemmas reply_silent [simp] = reply_hangs [THEN iffD2, OF refl]

section \<open>Operations in an observed run\<close>

text \<open>
  \<open>sends s t c r x\<close>: between \<open>s\<close> and \<open>t\<close> the one request \<open>r\<close> was answered by \<open>x\<close>, and
  the client became \<open>c\<close>.
\<close>

definition sends :: "'w observed st \<Rightarrow> 'w observed st \<Rightarrow> client \<Rightarrow> http_request \<Rightarrow> http_reply \<Rightarrow> bool" where
  "sends s t c r x \<longleftrightarrow> traffic t = traffic s @ [(r, x)] \<and> cl t = c"

lemma logged_sends: "logged nas r (net s) = (x, net t) \<Longrightarrow> cl t = c \<Longrightarrow> sends s t c r x"
  by (simp add: sends_def logged_step)

lemma logged_run:
  assumes "\<exists>x. logged nas q (net s) = (x, net t) \<and> cl t = cl s \<and> r = f x" and "good_client (cl s)"
  shows "\<exists>x. r = f x \<and> sends s t (cl s) q x \<and> good_client (cl t)"
proof -
  obtain x where x: "logged nas q (net s) = (x, net t)" "cl t = cl s" "r = f x" using assms(1) by blast
  from logged_sends [OF x(1,2)] x(2,3) assms(2) show ?thesis by auto
qed

lemma login_sends:
  assumes "Login (logged nas) s = (r, t)" and "good_client (cl s)"
  obtains x v where "login_reply x = Ret v" and "r = Ret ()" and "good_client (cl t)"
      and "sends s t ((cl s)\<lparr>sid := v\<rparr>) (login_request (cl s)) x"
  | x e where "login_reply x = Fail e" and "r = Fail e"
      and "sends s t (cl s) (login_request (cl s)) x"
  | "r = Hang" and "sends s t (cl s) (login_request (cl s)) NoReply"
proof -
  have p: "plain_endpoint (loginEndpoint (cl s))" using assms(2) by (simp add: good_client_def)
  obtain x w where n: "logged nas (login_request (cl s)) (net s) = (x, w)"
    by (metis prod.exhaust)
  have run: "(case login_reply x of
       Ret v \<Rightarrow> (Ret (), s\<lparr>cl := (cl s)\<lparr>sid := v\<rparr>, net := w\<rparr>)
     | Fail e \<Rightarrow> (Fail e, s\<lparr>net := w\<rparr>)
     | Panic \<Rightarrow> (Panic, s\<lparr>net := w\<rparr>)
     | Hang \<Rightarrow> (Hang, s\<lparr>net := w\<rparr>)) = (r, t)"
    using Login_plain [OF p, of "logged nas"] n assms(1) by (simp add: login_reply_def)
  show ?thesis
  proof (cases "login_reply x")
    case (Ret v)
    with run have t: "r = Ret ()" "t = s\<lparr>cl := (cl s)\<lparr>sid := v\<rparr>, net := w\<rparr>" by simp_all
    have "good_client (cl t)" using assms(2) by (simp add: t good_client_def)
    moreover have "sends s t ((cl s)\<lparr>sid := v\<rparr>) (login_request (cl s)) x"
      using n by (intro logged_sends) (simp_all add: t)
    ultimately show ?thesis using that(1) Ret t(1) by blast
  next
    case (Fail e)
    with run have t: "r = Fail e" "t = s\<lparr>net := w\<rparr>" by simp_all
    have "sends s t (cl s) (login_request (cl s)) x"
      using n by (intro logged_sends) (simp_all add: t)
    then show ?thesis using that(2) Fail t(1) by blast
  next
    case Hang
    then have "x = NoReply" by simp
    moreover from run Hang have t: "r = Hang" "t = s\<lparr>net := w\<rparr>" by simp_all
    have "sends s t (cl s) (login_request (cl s)) x"
      using n by (intro logged_sends) (simp_all add: t)
    ultimately show ?thesis using that(3) t(1) by blast
  qed simp
qed

lemma list_sends:
  assumes "GetStorageISCSITargetList (logged nas) s = (r, t)" and "good_client (cl s)"
  obtains x where "r = list_reply x" and "sends s t (cl s) (list_request (cl s)) x" and "good_client (cl t)"
  using logged_run [OF run_list [OF assms] assms(2)] that unfolding list_reply_def by blast

lemma lun_sends:
  assumes "GetStorageISCSILun (logged nas) l s = (r, t)" and "good_client (cl s)"
  obtains x where "r = lun_reply x" and "sends s t (cl s) (lun_request (cl s) l) x" and "good_client (cl t)"
  using logged_run [OF run_lun [OF assms] assms(2)] that unfolding lun_reply_def by blast

lemma pool_sends:
  assumes "GetStoragePoolSubscription (logged nas) p s = (r, t)" and "good_client (cl s)"
  obtains x where "r = pool_reply x" and "sends s t (cl s) (pool_request (cl s) p) x" and "good_client (cl t)"
  using logged_run [OF run_pool [OF assms] assms(2)] that unfolding pool_reply_def by blast

lemma add_target_sends:
  assumes "CreateStorageISCSITarget (logged nas) name False False True s = (r, t)" and "good_client (cl s)"
  obtains x where "r = target_reply x" and "sends s t (cl s) (add_target_request (cl s) name) x"
    and "good_client (cl t)"
  using logged_run [OF run_add_target [OF assms] assms(2)] that unfolding target_reply_def by blast

lemma add_init_sends:
  assumes "CreateStorageISCSIInitiator (logged nas) i False '''' '''' False '''' '''' s = (r, t)"
    and "good_client (cl s)"
  obtains x where "r = init_reply x" and "sends s t (cl s) (add_init_request (cl s) i) x"
    and "good_client (cl t)"
  using logged_run [OF run_add_init [OF assms] assms(2)] that unfolding init_reply_def by blast

lemma add_lun_sends:
  assumes "CreateStorageISCSIBlockLUN (logged nas) name p cap False 512 False False False False s = (r, t)"
    and "good_client (cl s)"
  obtains x where "r = block_reply x" and "sends s t (cl s) (add_lun_request (cl s) name p cap) x"
    and "good_client (cl t)"
  using logged_run [OF run_add_lun [OF assms] assms(2)] that unfolding block_reply_def by blast

lemma attach_sends:
  assumes "AttachStorageISCSITargetLUN (logged nas) l i s = (r, t)" and "good_client (cl s)"
  obtains x where "r = echo_reply 0 x" and "sends s t (cl s) (attach_request (cl s) l i) x"
    and "good_client (cl t)"
  using logged_run [OF run_attach [OF assms] assms(2)] that unfolding echo_reply_def by blast

lemma del_target_sends:
  assumes "DeleteStorageISCSITarget (logged nas) i s = (r, t)" and "good_client (cl s)"
  obtains x where "r = echo_reply i x" and "sends s t (cl s) (del_target_request (cl s) i) x"
    and "good_client (cl t)"
  using logged_run [OF run_del_target [OF assms] assms(2)] that unfolding echo_reply_def by blast

lemma del_lun_sends:
  assumes "DeleteStorageISCSIBlockLUN (logged nas) l False s = (r, t)" and "good_client (cl s)"
  obtains x where "r = echo_reply 0 x" and "sends s t (cl s) (del_lun_request (cl s) l) x"
    and "good_client (cl t)"
  using logged_run [OF run_del_lun [OF assms] assms(2)] that unfolding echo_reply_def by blast

text \<open>A request that is not answered is the last of the run.\<close>

lemma unanswered:
  assumes "good_client (cl s)"
  shows "Login (logged nas) s = (Hang, t) \<Longrightarrow> sends s t (cl s) (login_request (cl s)) NoReply"
    and "GetStorageISCSITargetList (logged nas) s = (Hang, t) \<Longrightarrow> sends s t (cl s) (list_request (cl s)) NoReply"
    and "GetStorageISCSILun (logged nas) l s = (Hang, t) \<Longrightarrow> sends s t (cl s) (lun_request (cl s) l) NoReply"
    and "CreateStorageISCSITarget (logged nas) name False False True s = (Hang, t)
      \<Longrightarrow> sends s t (cl s) (add_target_request (cl s) name) NoReply"
    and "CreateStorageISCSIInitiator (logged nas) i False '''' '''' False '''' '''' s = (Hang, t)
      \<Longrightarrow> sends s t (cl s) (add_init_request (cl s) i) NoReply"
    and "CreateStorageISCSIBlockLUN (logged nas) name p cap False 512 False False False False s = (Hang, t)
      \<Longrightarrow> sends s t (cl s) (add_lun_request (cl s) name p cap) NoReply"
    and "AttachStorageISCSITargetLUN (logged nas) l i s = (Hang, t)
      \<Longrightarrow> sends s t (cl s) (attach_request (cl s) l i) NoReply"
    and "DeleteStorageISCSITarget (logged nas) i s = (Hang, t)
      \<Longrightarrow> sends s t (cl s) (del_target_request (cl s) i) NoReply"
    and "DeleteStorageISCSIBlockLUN (logged nas) l False s = (Hang, t)
      \<Longrightarrow> sends s t (cl s) (del_lun_request (cl s) l) NoReply"
proof -
  show "Login (logged nas) s = (Hang, t) \<Longrightarrow> sends s t (cl s) (login_request (cl s)) NoReply"
    by (erule login_sends [OF _ assms]) simp_all
qed (use list_sends [OF _ assms] lun_sends [OF _ assms] add_target_sends [OF _ assms] add_init_sends [OF _ assms]
      add_lun_sends [OF _ assms] attach_sends [OF _ assms] del_target_sends [OF _ assms] del_lun_sends [OF _ assms]
      reply_hangs in metis)+

text \<open>Most handlers log in and list the targets first.\<close>

lemma listing_cases [consumes 2, case_names login_error list_error listed]:
  assumes "onErr (Login (logged nas)) (internal m1)
      (\<lambda>_. onErr (GetStorageISCSITargetList (logged nas)) (internal m2) k) s = (r, t)"
    and "good_client (cl s)"
  obtains x where "\<forall>v. login_reply x \<noteq> Ret v" and "cl t = cl s"
      and "r = (if x = NoReply then Hang else Fail (Status Internal m1))"
      and "traffic t = traffic s @ [(login_request (cl s), x)]"
  | x v y where "login_reply x = Ret v" and "\<forall>l. list_reply y \<noteq> Ret l"
      and "r = (if y = NoReply then Hang else Fail (Status Internal m2))"
      and "cl t = (cl s)\<lparr>sid := v\<rparr>"
      and "traffic t = traffic s @ [(login_request (cl s), x), (list_request ((cl s)\<lparr>sid := v\<rparr>), y)]"
  | x v y l u where "login_reply x = Ret v" and "list_reply y = Ret l" and "cl u = (cl s)\<lparr>sid := v\<rparr>"
      and "traffic u = traffic s @ [(login_request (cl s), x), (list_request ((cl s)\<lparr>sid := v\<rparr>), y)]"
      and "good_client (cl u)" and "k l u = (r, t)"
  using assms(1)
proof (cases rule: onErr_cases)
  case (Ret a u)
  obtain x v where x: "login_reply x = Ret v" "good_client (cl u)"
      "sends s u ((cl s)\<lparr>sid := v\<rparr>) (login_request (cl s)) x"
    using login_sends [OF Ret(1) assms(2)] by (metis outcome.distinct(1,5))
  have u: "traffic u = traffic s @ [(login_request (cl s), x)]" "cl u = (cl s)\<lparr>sid := v\<rparr>"
    using x(3) by (simp_all add: sends_def)
  from Ret(2) show ?thesis
  proof (cases rule: onErr_cases)
    case (Ret l w)
    obtain y where y: "list_reply y = Ret l" "sends u w (cl u) (list_request (cl u)) y" "good_client (cl w)"
      using list_sends [OF Ret(1) x(2)] by metis
    show ?thesis by (rule that(3) [OF x(1) y(1) _ _ y(3) Ret(2)]) (use y(2) u in \<open>simp_all add: sends_def\<close>)
  next
    case (Fail e w)
    obtain y where y: "list_reply y = Fail e" "sends u w (cl u) (list_request (cl u)) y"
      using list_sends [OF Fail(1) x(2)] by metis
    then have "\<forall>l. list_reply y \<noteq> Ret l" "y \<noteq> NoReply" by auto
    then show ?thesis
      by (intro that(2) [OF x(1)])
        (use y(2) u Fail(2) in \<open>auto simp: sends_def internal_def fail_def\<close>)
  next
    case Hang
    then show ?thesis
      using unanswered(2) [OF x(2) Hang(1)] u by (intro that(2) [OF x(1), of NoReply]) (auto simp: sends_def)
  qed (use list_sends [OF _ x(2)] reply_proper in metis)
next
  case (Fail e u)
  obtain x where x: "login_reply x = Fail e" "sends s u (cl s) (login_request (cl s)) x"
    using login_sends [OF Fail(1) assms(2)] by (metis outcome.distinct outcome.inject(2))
  then have "\<forall>v. login_reply x \<noteq> Ret v" "x \<noteq> NoReply" by auto
  then show ?thesis
    by (intro that(1) [of x]) (use x(2) Fail(2) in \<open>auto simp: sends_def internal_def fail_def\<close>)
next
  case Hang
  then show ?thesis
    using unanswered(1) [OF assms(2) Hang(1)] by (intro that(1) [of NoReply]) (auto simp: sends_def)
qed (use login_sends [OF _ assms(2)] outcome.distinct in metis)

section \<open>Telling requests apart\<close>

lemma func_apart: "request_func a = f \<Longrightarrow> request_func b = g \<Longrightarrow> f \<noteq> g \<Longrightarrow> a \<noteq> b"
  by auto

lemma requests_apart:
  assumes "good_client c" and "good_client c'"
  shows "login_request c \<noteq> add_target_request c' name" "list_request c \<noteq> add_target_request c' name"
    "add_init_request c i \<noteq> add_target_request c' name" "lun_request c l \<noteq> add_target_request c' name"
    "add_lun_request c n p k \<noteq> add_target_request c' name" "attach_request c l i \<noteq> add_target_request c' name"
    "del_target_request c i \<noteq> add_target_request c' name" "del_lun_request c l \<noteq> add_target_request c' name"
    "login_request c \<noteq> add_lun_request c' n p k" "list_request c \<noteq> add_lun_request c' n p k"
    "add_target_request c name \<noteq> add_lun_request c' n p k" "add_init_request c i \<noteq> add_lun_request c' n p k"
    "lun_request c l \<noteq> add_lun_request c' n p k" "del_target_request c i \<noteq> add_lun_request c' n p k"
    "del_lun_request c l \<noteq> add_lun_request c' n p k"
  by (rule func_apart, rule request_funcs [OF assms(1)] login_func [OF assms(1)],
      rule request_funcs [OF assms(2)], simp)+

lemmas requests_apart_sym = requests_apart [THEN not_sym]

lemma attach_is_no_add_lun: "attach_request c l i \<noteq> add_lun_request c' n p k"
proof
  assume "attach_request c l i = add_lun_request c' n p k"
  then have "req_body (attach_request c l i) = req_body (add_lun_request c' n p k)" by simp
  then show False by (simp add: request_defs post_request_def Encode_Nil_iff eq_commute [of "[]"])
qed

end
