(* ===== verification/Replay.thy ===== *)
theory Replay
  imports Traffic
begin

text \<open>
  A NAS that answers from a list, whatever it is asked, and the documents it may answer with.
  Runs against it can be evaluated: with an ordinary client no address has to be parsed, and
  each operation takes the next answer. The concrete runs that show the hypotheses of the
  properties can hold are such replays.
\<close>

section \<open>Operations as equations\<close>

lemma run_eq:
  fixes s :: "'w st"
  assumes "\<And>r t. m s = (r, t) \<Longrightarrow> \<exists>x. nas q (net s) = (x, net t) \<and> cl t = cl s \<and> r = f x"
  shows "m s = (case nas q (net s) of (x, w) \<Rightarrow> (f x, s\<lparr>net := w\<rparr>))"
proof -
  obtain r t where m: "m s = (r, t)" by (metis prod.exhaust)
  obtain x where x: "nas q (net s) = (x, net t)" "cl t = cl s" "r = f x" using assms [OF m] by blast
  from x(2) have "t = s\<lparr>net := net t\<rparr>" by (cases s, cases t) simp
  then show ?thesis using m x(1,3) by simp
qed

lemma list_eq: "good_client (cl s) \<Longrightarrow> GetStorageISCSITargetList nas s =
    (case nas (list_request (cl s)) (net s) of (x, w) \<Rightarrow> (list_reply x, s\<lparr>net := w\<rparr>))"
  unfolding list_reply_def by (rule run_eq, rule run_list)

lemma lun_eq: "good_client (cl s) \<Longrightarrow> GetStorageISCSILun nas l s =
    (case nas (lun_request (cl s) l) (net s) of (x, w) \<Rightarrow> (lun_reply x, s\<lparr>net := w\<rparr>))"
  unfolding lun_reply_def by (rule run_eq, rule run_lun)

lemma pool_eq: "good_client (cl s) \<Longrightarrow> GetStoragePoolSubscription nas p s =
    (case nas (pool_request (cl s) p) (net s) of (x, w) \<Rightarrow> (pool_reply x, s\<lparr>net := w\<rparr>))"
  unfolding pool_reply_def by (rule run_eq, rule run_pool)

lemma add_target_eq: "good_client (cl s) \<Longrightarrow> CreateStorageISCSITarget nas name False False True s =
    (case nas (add_target_request (cl s) name) (net s) of (x, w) \<Rightarrow> (target_reply x, s\<lparr>net := w\<rparr>))"
  unfolding target_reply_def by (rule run_eq, rule run_add_target)

lemma add_init_eq: "good_client (cl s) \<Longrightarrow> CreateStorageISCSIInitiator nas i False '''' '''' False '''' '''' s =
    (case nas (add_init_request (cl s) i) (net s) of (x, w) \<Rightarrow> (init_reply x, s\<lparr>net := w\<rparr>))"
  unfolding init_reply_def by (rule run_eq, rule run_add_init)

lemma add_lun_eq: "good_client (cl s) \<Longrightarrow> CreateStorageISCSIBlockLUN nas name p cap False 512 False False False False s =
    (case nas (add_lun_request (cl s) name p cap) (net s) of (x, w) \<Rightarrow> (block_reply x, s\<lparr>net := w\<rparr>))"
  unfolding block_reply_def by (rule run_eq, rule run_add_lun)

lemma attach_eq: "good_client (cl s) \<Longrightarrow> AttachStorageISCSITargetLUN nas l i s =
    (case nas (attach_request (cl s) l i) (net s) of (x, w) \<Rightarrow> (echo_reply 0 x, s\<lparr>net := w\<rparr>))"
  unfolding echo_reply_def by (rule run_eq, rule run_attach)

lemma del_target_eq: "good_client (cl s) \<Longrightarrow> DeleteStorageISCSITarget nas i s =
    (case nas (del_target_request (cl s) i) (net s) of (x, w) \<Rightarrow> (echo_reply i x, s\<lparr>net := w\<rparr>))"
  unfolding echo_reply_def by (rule run_eq, rule run_del_target)

lemma del_lun_eq: "good_client (cl s) \<Longrightarrow> DeleteStorageISCSIBlockLUN nas l False s =
    (case nas (del_lun_request (cl s) l) (net s) of (x, w) \<Rightarrow> (echo_reply 0 x, s\<lparr>net := w\<rparr>))"
  unfolding echo_reply_def by (rule run_eq, rule run_del_lun)

lemma login_eq: "good_client (cl s) \<Longrightarrow> Login nas s =
    (case nas (login_request (cl s)) (net s) of
       (x, w) \<Rightarrow>
         (case login_reply x of
            Ret v \<Rightarrow> (Ret (), s\<lparr>cl := (cl s)\<lparr>sid := v\<rparr>, net := w\<rparr>)
          | Fail e \<Rightarrow> (Fail e, s\<lparr>net := w\<rparr>)
          | Panic \<Rightarrow> (Panic, s\<lparr>net := w\<rparr>)
          | Hang \<Rightarrow> (Hang, s\<lparr>net := w\<rparr>)))"
  using Login_plain [of s nas] by (simp add: good_client_def login_reply_def)

lemmas op_eqs = login_eq list_eq lun_eq pool_eq add_target_eq add_init_eq add_lun_eq attach_eq
  del_target_eq del_lun_eq

text \<open>A NAS that accepts the login and answers the listing, and what a handler makes of it.\<close>

definition listing :: "'w nas \<Rightarrow> 'w st \<Rightarrow> targetListResp \<Rightarrow> 'w st \<Rightarrow> bool" where
  "listing nas s l t \<longleftrightarrow> (\<exists>x v w y w'. nas (login_request (cl s)) (net s) = (x, w) \<and> login_reply x = Ret v
     \<and> nas (list_request ((cl s)\<lparr>sid := v\<rparr>)) w = (y, w') \<and> list_reply y = Ret l
     \<and> t = s\<lparr>cl := (cl s)\<lparr>sid := v\<rparr>, net := w'\<rparr>)"

lemma good_client_sid [simp]: "good_client (c\<lparr>sid := v\<rparr>) = good_client c"
  by (simp add: good_client_def)

lemma listing_run:
  assumes "listing nas s l t" and "good_client (cl s)"
  shows "onErr (Login nas) h (\<lambda>_. onErr (GetStorageISCSITargetList nas) g k) s = k l t"
    and "good_client (cl t)"
  using assms by (auto simp: listing_def onErr_def login_eq list_eq)

lemma list_reply_int64: "list_reply y = Ret l \<Longrightarrow> g \<in> set (Targets l) \<Longrightarrow> in_int64 (TargetIndex g)"
  unfolding list_reply_def
  by (erule reply_result_Ret) (auto intro: unmarshalTargetList_int64 split: if_splits)

lemma listing_int64: "listing nas s l t \<Longrightarrow> g \<in> set (Targets l) \<Longrightarrow> in_int64 (TargetIndex g)"
  by (auto simp: listing_def intro: list_reply_int64)

section \<open>Documents\<close>

definition ok :: "xml list \<Rightarrow> http_reply" where
  "ok doc = Response 200 (Inr (Some (Elem ''QDocRoot'' doc)))"

definition login_doc :: "string \<Rightarrow> xml list" where
  "login_doc v = [leaf ''authPassed'' ''1'', leaf ''authSid'' v]"

definition target_elem :: "int \<times> string \<times> string \<times> int list \<Rightarrow> xml" where
  "target_elem t = (case t of (i, name, iqn, luns) \<Rightarrow>
     Elem ''targetInfo''
       [leaf ''targetIndex'' (Itoa i), leaf ''targetName'' name, leaf ''targetIQN'' iqn,
        Elem ''targetLUNList'' (map (\<lambda>l. leaf ''LUNIndex'' (Itoa l)) luns)])"

definition target_info :: "int \<times> string \<times> string \<times> int list \<Rightarrow> targetInfo" where
  "target_info t = (case t of (i, name, iqn, luns) \<Rightarrow>
     \<lparr>TargetIndex = i, target_Name = name, IQN = iqn, Alias = '''', target_Status = '''',
      TargetLUNs = luns, InitiatorConnections = []\<rparr>)"

definition list_doc :: "(int \<times> string \<times> string \<times> int list) list \<Rightarrow> xml list" where
  "list_doc ts = [leaf ''result'' ''0'', Elem ''iSCSITargetList'' (map target_elem ts)]"

definition lun_doc :: "string \<Rightarrow> xml list" where
  "lun_doc st = [leaf ''result'' ''0'', Elem ''LUNInfo'' [Elem ''row'' [leaf ''LUNStatus'' st]]]"

definition result_doc :: "int \<Rightarrow> xml list" where
  "result_doc i = [leaf ''result'' (Itoa i)]"

definition pool_doc :: "nat \<Rightarrow> nat \<Rightarrow> xml list" where
  "pool_doc capacity free =
     [leaf ''result'' ''0'',
      Elem ''PoolSubscription'' [leaf ''capacity_bytes'' (dec_nat capacity), leaf ''freesize_bytes'' (dec_nat free)]]"

lemma xml_ints_leaves:
  assumes "\<forall>i\<in>set is. in_int64 i"
  shows "those (map (\<lambda>e. int_of_text (xml_text e)) (map (\<lambda>l. leaf t (Itoa l)) is)) = Some is"
  using xml_number.dec_enc_all [OF assms] by (simp add: comp_def)

lemma login_reply_doc [simp]: "login_reply (ok (login_doc v)) = Ret v"
  by (simp add: login_reply_def reply_result_def ok_def login_doc_def unmarshalLogin_def login_check_def
      xml_string_def)

definition lun_info :: "string \<Rightarrow> lunResp" where
  "lun_info st = (case lun_reply (ok (lun_doc st)) of Ret info \<Rightarrow> info)"

lemma lun_reply_doc [simp]:
  "lun_reply (ok (lun_doc st)) = Ret (lun_info st)" "lun_Status (lun_info st) = st"
  by (simp_all add: lun_info_def lun_reply_def reply_result_def ok_def lun_doc_def unmarshalLun_def
      xml_string_def Let_def)

lemma result_replies_doc [simp]:
  assumes "in_int64 i"
  shows "target_reply (ok (result_doc i)) =
      (if i < 0 then Fail (ErrorString ''unknown error occurred'') else Ret i)"
    and "init_reply (ok (result_doc i)) =
      (if i < 0 then Fail (ErrorString ''unknown error occurred'') else Ret ())"
    and "echo_reply k (ok (result_doc i)) =
      (if i \<noteq> k then Fail (ErrorString ''unknown error occurred'') else Ret ())"
  using xml_number.dec_enc [OF assms]
  by (simp_all add: target_reply_def init_reply_def echo_reply_def reply_result_def ok_def result_doc_def
      unmarshalResult_def xml_int_def xml_ints_def last_or_def)

lemma block_reply_doc [simp]:
  assumes "in_int64 i"
  shows "block_reply (ok (result_doc i)) =
    (if i < 0 then Fail (ErrorString ''unknown error occurred'')
     else Ret \<lparr>cb_AuthPassed = '''', cb_Result = i, VolumeID = 0\<rparr>)"
  using xml_number.dec_enc [OF assms]
  by (simp add: block_reply_def reply_result_def ok_def result_doc_def unmarshalCreateBlockLUN_def
      xml_int_def xml_ints_def last_or_def xml_string_def)

lemma unmarshal_target_elem:
  assumes "in_int64 i" and "\<forall>l\<in>set luns. in_int64 l"
  shows "unmarshalTarget (target_elem (i, name, iqn, luns)) = Some (target_info (i, name, iqn, luns))"
proof -
  have "filter (has_tag ''LUNIndex'') (map (\<lambda>l. leaf ''LUNIndex'' (Itoa l)) luns) =
      map (\<lambda>l. leaf ''LUNIndex'' (Itoa l)) luns" for luns
    by (simp add: filter_id_conv)
  then have "xml_ints [''targetLUNList'', ''LUNIndex''] (target_elem (i, name, iqn, luns)) = Some luns"
    using xml_ints_leaves [OF assms(2), of "''LUNIndex''"]
    by (simp add: xml_ints_def target_elem_def comp_def)
  then show ?thesis
    using xml_number.dec_enc [OF assms(1)]
    by (simp add: unmarshalTarget_def target_elem_def target_info_def xml_int_def xml_ints_def last_or_def
        xml_string_def)
qed

lemma list_reply_doc:
  assumes "list_all (\<lambda>(i, name, iqn, luns). in_int64 i \<and> list_all in_int64 luns) ts"
  shows "list_reply (ok (list_doc ts)) =
    Ret \<lparr>tl_AuthPassed = '''', tl_Result = ''0'', Targets = map target_info ts\<rparr>"
proof -
  have "filter (has_tag ''targetInfo'') (map target_elem ts) = map target_elem ts"
    by (simp add: filter_id_conv target_elem_def split: prod.splits)
  moreover have "map (unmarshalTarget \<circ> target_elem) ts = map Some (map target_info ts)"
    using assms by (auto simp: list_all_iff unmarshal_target_elem)
  then have "those (map (unmarshalTarget \<circ> target_elem) ts) = Some (map target_info ts)"
    by (simp only: those_map_Some)
  ultimately show ?thesis
    by (simp add: list_reply_def reply_result_def ok_def list_doc_def unmarshalTargetList_def
        xml_string_def comp_def)
qed

section \<open>Replaying\<close>

text \<open>When the list is used up, the last argument is the answer to everything.\<close>

fun replayed :: "http_reply \<Rightarrow> http_reply list nas" where
  "replayed d q [] = (d, [])"
| "replayed d q (x # xs) = (x, xs)"

definition refused :: http_reply where
  "refused = DoErr ''connection refused''"

lemma logged_replayed [simp]: "logged (replayed d) q (es, x # xs) = (x, (es @ [(q, x)], xs))"
  by (simp add: logged_def)

definition demo_client :: client where
  "demo_client =
     (case NewClient ''admin'' ''secret'' ''http://nas.local:8080/'' of Inr c \<Rightarrow> c
      | Inl e \<Rightarrow> undefined)"

lemma demo_client_props: "good_client demo_client \<and> sid demo_client = []"
proof -
  have "plain_address ''http'' ''nas.local'' '':8080'' ''''"
    by (simp add: plain_address_def host_char_def is_digit_def is_alnum_def)
  from NewClient_plain [OF this, of "''admin''" "''secret''" 1] show ?thesis
    by (auto simp: demo_client_def address_def)
qed

lemmas demo_client_good = conjunct1 [OF demo_client_props]
lemmas demo_client_sid = conjunct2 [OF demo_client_props]

definition demo_driver :: driver where
  "demo_driver =
     \<lparr>d_name = DefaultDriverName, d_storagePoolID = 1, d_endpoint = ''unix:///csi/csi.sock'',
      d_URL = ''http://nas.local:8080/'', d_nodeID = ''node1'', d_username = ''admin'',
      d_password = ''secret'', d_isController = True, d_prefix = '''', d_portal = ''nas.local:3260'',
      d_configDir = '''', d_ready = True\<rparr>"

definition replay :: "http_reply list \<Rightarrow> http_reply list observed st" where
  "replay xs = \<lparr>cl = demo_client, net = ([], xs)\<rparr>"

lemma pool_reply_doc:
  assumes "capacity < 2 ^ 64" and "free < 2 ^ 64"
  shows "\<exists>r. pool_reply (ok (pool_doc capacity free)) = Ret r
    \<and> CapacityBytes (PoolSubscription r) = word_of_nat capacity
    \<and> FreesizeBytes (PoolSubscription r) = word_of_nat free"
  using uint64_of_text_dec [OF assms(1)] uint64_of_text_dec [OF assms(2)]
  by (simp add: pool_reply_def reply_result_def ok_def pool_doc_def unmarshalPool_def unmarshalPoolInfo_def
      xml_string_def xml_int_def xml_ints_def xml_uint64_def last_or_def)

end
