(* ===== verification/CreateLaws.thy ===== *)
theory CreateLaws
  imports Controller
begin

text \<open>
  Laws of \<^verbatim>\<open>CreateVolume\<close>: which requests are accepted, when the readiness loop returns,
  what a successful run returns, and which traffic the failing runs leave behind. Traffic is
  what an observed NAS noted during the run.
\<close>

section \<open>Acceptable requests\<close>

definition cap_ok :: "capability \<Rightarrow> bool" where
  "cap_ok c \<longleftrightarrow> AccessMode c = Some SINGLE_NODE_WRITER \<and> AccessType c \<noteq> None"

definition acceptable :: "createVolumeRequest \<Rightarrow> bool" where
  "acceptable req \<longleftrightarrow>
     cv_Name req \<noteq> '''' \<and> cv_VolumeCapabilities req \<noteq> [] \<and> list_all cap_ok (cv_VolumeCapabilities req)
     \<and> (case extractStorage (cv_CapacityRange req) of Inl _ \<Rightarrow> False | Inr _ \<Rightarrow> True)"

lemma capability_violations_empty: "capability_violations ms c = {} \<longleftrightarrow> cap_ok c"
  by (auto simp: capability_violations_def cap_ok_def supportedAccessMode_def GetMode_def
      split: option.splits access_type.splits)

lemma collect_violations_union:
  "collect_violations ms caps acc = acc \<union> (\<Union>c\<in>set caps. capability_violations ms c)"
  by (induction caps arbitrary: acc) auto

lemma finite_violations [simp]: "finite (capability_violations ms c)"
  by (simp add: capability_violations_def split: option.splits access_type.splits)

lemma validateCapabilities_Nil: "validateCapabilities ms caps = [] \<longleftrightarrow> list_all cap_ok caps"
  by (simp add: validateCapabilities_def collect_violations_union list_all_iff capability_violations_empty)

lemma CreateVolume_accepted:
  assumes "acceptable req"
  obtains sz where "extractStorage (cv_CapacityRange req) = Inr sz"
    and "CreateVolume nas ms d req = provision nas d (cleanISCSIName (cv_Name req)) sz"
  using assms by (auto simp: acceptable_def CreateVolume_def validateCapabilities_Nil split: sum.splits)

lemma CreateVolume_rejected:
  assumes "\<not> acceptable req"
  shows "\<exists>c m. CreateVolume nas ms d req s = (Fail (Status c m), s) \<and> c \<in> {InvalidArgument, OutOfRange}"
  using assms
  by (auto simp: acceptable_def CreateVolume_def validateCapabilities_Nil fail_def split: sum.splits)

section \<open>The readiness loop\<close>

definition still_creating :: "'w nas \<Rightarrow> int \<Rightarrow> 'w st \<Rightarrow> bool" where
  "still_creating nas l s =
     (case fst (GetStorageISCSILun nas l s) of
        Ret info \<Rightarrow> lun_StatusString info = ''creating''
      | _ \<Rightarrow> False)"

primrec poll_state :: "'w nas \<Rightarrow> int \<Rightarrow> nat \<Rightarrow> 'w st \<Rightarrow> 'w st" where
  "poll_state nas l 0 s = s"
| "poll_state nas l (Suc n) s = poll_state nas l n (snd (GetStorageISCSILun nas l s))"

lemma pollLun_step:
  "still_creating nas l s \<Longrightarrow> pollLun nas l s = pollLun nas l (snd (GetStorageISCSILun nas l s))"
  by (subst pollLun.simps) (auto simp: still_creating_def split: prod.splits outcome.splits)

lemma pollLun_stop: "\<not> still_creating nas l s \<Longrightarrow> pollLun nas l s \<noteq> None"
  by (subst pollLun.simps) (auto simp: still_creating_def split: prod.splits outcome.splits)

lemma pollLun_enough:
  "\<not> still_creating nas l (poll_state nas l n s) \<Longrightarrow> pollLun nas l s \<noteq> None"
proof (induction n arbitrary: s)
  case 0
  then show ?case by (simp add: pollLun_stop)
next
  case (Suc n)
  then show ?case
    by (cases "still_creating nas l s") (simp_all add: pollLun_step pollLun_stop)
qed

lemma pollLun_returned:
  assumes "pollLun nas l s = Some y"
  shows "\<exists>n. \<not> still_creating nas l (poll_state nas l n s)"
proof (rule pollLun.raw_induct
    [where P = "\<lambda>nas l s y. \<exists>n. \<not> still_creating nas l (poll_state nas l n s)", OF _ assms])
  fix f nas l s y
  assume IH: "\<And>nas l s y. f nas l s = Some y \<Longrightarrow> \<exists>n. \<not> still_creating nas l (poll_state nas l n s)"
    and eq: "(case GetStorageISCSILun nas l s of
      (r, t) \<Rightarrow>
        (case r of
           Ret lunInfo \<Rightarrow>
             if lun_StatusString lunInfo = ''creating'' then f nas l t else Some (Ret (), t)
         | Fail e \<Rightarrow> Some (Fail (Status Internal ''Failed to get ISCSI Block based LUN readiness''), t)
         | Panic \<Rightarrow> Some (Panic, t)
         | Hang \<Rightarrow> Some (Hang, t))) = Some y"
  show "\<exists>n. \<not> still_creating nas l (poll_state nas l n s)"
  proof (cases "still_creating nas l s")
    case True
    then have "f nas l (snd (GetStorageISCSILun nas l s)) = Some y"
      using eq by (auto simp: still_creating_def split: prod.splits outcome.splits)
    from IH [OF this] obtain n where
      "\<not> still_creating nas l (poll_state nas l n (snd (GetStorageISCSILun nas l s)))" ..
    then have "\<not> still_creating nas l (poll_state nas l (Suc n) s)" by simp
    then show ?thesis by blast
  next
    case False
    then have "\<not> still_creating nas l (poll_state nas l 0 s)" by simp
    then show ?thesis by blast
  qed
qed

lemma pollLun_induct [consumes 1, case_names stop step]:
  assumes "pollLun nas l s = Some y"
    and stop: "\<And>s. \<lbrakk>\<not> still_creating nas l s; pollLun nas l s = Some y\<rbrakk> \<Longrightarrow> P s"
    and step: "\<And>s. \<lbrakk>still_creating nas l s; P (snd (GetStorageISCSILun nas l s))\<rbrakk> \<Longrightarrow> P s"
  shows "P s"
proof -
  obtain n where "\<not> still_creating nas l (poll_state nas l n s)"
    using pollLun_returned [OF assms(1)] ..
  then show ?thesis using assms(1)
  proof (induction n arbitrary: s)
    case 0
    then show ?case by (intro stop) simp_all
  next
    case (Suc n)
    then show ?case by (cases "still_creating nas l s") (auto intro: stop step simp: pollLun_step)
  qed
qed

lemma pollLun_returns_iff:
  "pollLun nas l s \<noteq> None \<longleftrightarrow> (\<exists>n. \<not> still_creating nas l (poll_state nas l n s))"
  using pollLun_enough pollLun_returned by blast

lemma pollLun_least:
  assumes "\<not> still_creating nas l (poll_state nas l n s)"
    and "\<forall>m<n. still_creating nas l (poll_state nas l m s)"
  shows "pollLun nas l s = pollLun nas l (poll_state nas l n s)"
  using assms
proof (induction n arbitrary: s)
  case (Suc n)
  have first: "still_creating nas l s" using Suc.prems(2) by force
  have "\<forall>m<n. still_creating nas l (poll_state nas l m (snd (GetStorageISCSILun nas l s)))"
    using Suc.prems(2) by force
  with Suc.IH Suc.prems(1) show ?case by (simp add: pollLun_step [OF first])
qed simp

section \<open>How a run can end\<close>

text \<open>
  \<open>ends_in h f m\<close>: a run of \<open>m\<close> that never returns ends in a state with \<open>h\<close>, one that
  fails ends with an error with \<open>f\<close>.
\<close>

definition hangs_in :: "('s \<Rightarrow> bool) \<Rightarrow> ('s, 'e, 'a) io \<Rightarrow> bool" where
  "hangs_in h m \<longleftrightarrow> (\<forall>s t. m s = (Hang, t) \<longrightarrow> h t)"

definition ends_in :: "('s \<Rightarrow> bool) \<Rightarrow> ('e \<Rightarrow> bool) \<Rightarrow> ('s, 'e, 'a) io \<Rightarrow> bool" where
  "ends_in h f m \<longleftrightarrow> (\<forall>s t. m s = (Hang, t) \<longrightarrow> h t) \<and> (\<forall>s t e. m s = (Fail e, t) \<longrightarrow> f e)"

lemma ends_in_ret: "ends_in h f (ret a)"
  by (simp add: ends_in_def ret_def)

lemma ends_in_fail: "f e \<Longrightarrow> ends_in h f (fail e)"
  by (simp add: ends_in_def fail_def)

lemma ends_in_onErr:
  "\<lbrakk>hangs_in h m; \<And>e. ends_in h f (g e); \<And>a. ends_in h f (k a)\<rbrakk> \<Longrightarrow> ends_in h f (onErr m g k)"
  by (auto simp: ends_in_def hangs_in_def elim!: onErr_cases)

lemma ends_in_onErr_fail:
  "\<lbrakk>ends_in h f m; \<And>a. ends_in h f (k a)\<rbrakk> \<Longrightarrow> ends_in h f (onErr m fail k)"
  by (auto simp: ends_in_def fail_def elim!: onErr_cases)

lemma ends_in_ignoring: "hangs_in h m \<Longrightarrow> ends_in h f k \<Longrightarrow> ends_in h f (ignoring m k)"
  by (simp add: ignoring_def ends_in_onErr)

lemma ends_in_if: "ends_in h f m \<Longrightarrow> ends_in h f k \<Longrightarrow> ends_in h f (if b then m else k)"
  by simp

lemmas ends_in_intros = ends_in_ret ends_in_fail ends_in_onErr ends_in_ignoring ends_in_if

text \<open>
  A run that does not return has sent a request that was never answered, or polls a LUN for ever.
\<close>

definition endless :: "'w nas \<Rightarrow> 'w st \<Rightarrow> bool" where
  "endless nas t \<longleftrightarrow> (\<exists>l. \<forall>n. still_creating nas l (poll_state nas l n t))"

definition stuck :: "'w nas \<Rightarrow> 'w st \<Rightarrow> bool" where
  "stuck nas t \<longleftrightarrow> (\<exists>q w. nas q w = (NoReply, net t)) \<or> endless nas t"

lemma hangs_unanswered:
  "(\<And>s t. m s = (Hang, t) \<Longrightarrow> \<exists>q. nas q (net s) = (NoReply, net t)) \<Longrightarrow> hangs_in (stuck nas) m"
  unfolding hangs_in_def stuck_def by blast

lemma ops_hang:
  "hangs_in (stuck nas) (Login nas)"
  "hangs_in (stuck nas) (GetStorageISCSITargetList nas)"
  "hangs_in (stuck nas) (GetStoragePoolSubscription nas p)"
  "hangs_in (stuck nas) (CreateStorageISCSITarget nas name dd hg cm)"
  "hangs_in (stuck nas) (CreateStorageISCSIInitiator nas i ce cu cp me mu mp)"
  "hangs_in (stuck nas) (DeleteStorageISCSITarget nas i)"
  "hangs_in (stuck nas) (CreateStorageISCSIBlockLUN nas name pl cap thin sec wc fua ssd tier)"
  "hangs_in (stuck nas) (DeleteStorageISCSIBlockLUN nas l bg)"
  "hangs_in (stuck nas) (AttachStorageISCSITargetLUN nas l i)"
  by (rule hangs_unanswered, erule Login_hang_unanswered target_list.hang_unanswered pool.hang_unanswered
      add_target.hang_unanswered [of nas "(name, dd, hg, cm)", simplified]
      add_init.hang_unanswered [of nas "(i, ce, cu, cp, me, mu, mp)", simplified]
      del_target.hang_unanswered
      add_lun.hang_unanswered [of nas "(name, pl, cap, thin, sec, wc, fua, ssd, tier)", simplified]
      del_lun.hang_unanswered [of nas "(l, bg)", simplified] attach.hang_unanswered [of nas "(l, i)", simplified])+

definition late_status :: "status \<Rightarrow> bool" where
  "late_status st \<longleftrightarrow> status_code st = Internal \<or> st = Status AlreadyExists ''Volume already exists''"

lemma pollLun_ends:
  assumes "pollLun nas l s = Some y"
  shows "(fst y = Hang \<longrightarrow> stuck nas (snd y)) \<and> (\<forall>st. fst y = Fail st \<longrightarrow> late_status st)"
  using assms
proof (induction rule: pollLun_induct)
  case (stop s)
  obtain r t where run: "GetStorageISCSILun nas l s = (r, t)" by (metis prod.exhaust)
  have "stuck nas t" if "r = Hang"
    using lun.hang_unanswered [of nas l s t] run that unfolding stuck_def by blast
  then show ?case using stop
    by (cases r) (auto simp: run pollLun.simps [of nas l s] still_creating_def late_status_def split: if_splits)
qed

lemma waitForLun_ends: "ends_in (stuck nas) late_status (waitForLun nas l)"
proof -
  have "stuck nas s" if "pollLun nas l s = None" for s
    using that pollLun_enough unfolding stuck_def endless_def by metis
  then show ?thesis using pollLun_ends
    by (auto simp: ends_in_def waitForLun_def split: option.splits) force+
qed

lemma internal_ends: "ends_in h late_status (internal msg e)"
  by (simp add: internal_def ends_in_fail late_status_def)

lemma finishVolume_ends: "ends_in (stuck nas) late_status (finishVolume nas d name sz)"
  unfolding finishVolume_def Let_def
  by (intro ends_in_intros ops_hang internal_ends) (simp add: late_status_def)

lemma attachVolume_ends: "ends_in (stuck nas) late_status (attachVolume nas d name sz i l)"
  unfolding attachVolume_def by (intro ends_in_intros ops_hang internal_ends finishVolume_ends)

lemma createLUN_ends: "ends_in (stuck nas) late_status (createLUN nas d name sz i)"
  unfolding createLUN_def
  by (intro ends_in_onErr [OF ops_hang(7)] ends_in_ignoring ops_hang internal_ends
      ends_in_onErr_fail waitForLun_ends attachVolume_ends)

lemma createTarget_ends: "ends_in (stuck nas) late_status (createTarget nas d name sz)"
  unfolding createTarget_def
  by (intro ends_in_onErr ends_in_ignoring ops_hang internal_ends createLUN_ends)

lemma provision_ends: "ends_in (stuck nas) late_status (provision nas d name sz)"
  unfolding provision_def
  by (intro ends_in_onErr ends_in_if ops_hang internal_ends createTarget_ends ends_in_fail)
    (simp add: late_status_def)

section \<open>The account is never touched\<close>

lemma pollLun_account: "pollLun nas l s = Some y \<Longrightarrow> same_account s (snd y)"
proof (induction rule: pollLun_induct)
  case (stop s)
  obtain r t where run: "GetStorageISCSILun nas l s = (r, t)" by (metis prod.exhaust)
  have "snd y = t"
    using stop by (cases r) (auto simp: run pollLun.simps [of nas l s] still_creating_def split: if_splits)
  then show ?case using staysD [OF stays_ops(2) run] by simp
next
  case (step s)
  have "same_account s (snd (GetStorageISCSILun nas l s))"
    using stays_ops(2) unfolding stays_def by blast
  then show ?case using step(2) account.frame_trans by blast
qed

lemma stays_wait: "stays same_account (waitForLun nas l)"
  by (auto simp: stays_def waitForLun_def account.frame_refl dest: pollLun_account split: option.splits)

lemma stays_internal: "stays same_account (internal msg e)"
  by (simp add: internal_def account.stays_fail)

lemmas account_intros = account.stays_intros stays_ops stays_Login stays_wait stays_internal

lemma stays_CreateVolume: "stays same_account (CreateVolume nas ms d req)"
proof -
  have "stays same_account (finishVolume nas d name sz)" for name sz
    unfolding finishVolume_def Let_def by (intro account_intros)
  then have "stays same_account (attachVolume nas d name sz i l)" for name sz i l
    unfolding attachVolume_def by (intro account_intros)
  then have "stays same_account (createLUN nas d name sz i)" for name sz i
    unfolding createLUN_def by (intro account_intros)
  then have "stays same_account (createTarget nas d name sz)" for name sz
    unfolding createTarget_def by (intro account_intros)
  then have "stays same_account (provision nas d name sz)" for name sz
    unfolding provision_def by (intro account_intros)
  then show ?thesis
    unfolding CreateVolume_def
    by (cases "extractStorage (cv_CapacityRange req)") (simp_all add: account.stays_fail)
qed

lemma stays_deleteLuns: "stays same_account (deleteLuns nas luns)"
proof (induction luns)
  case (Cons l luns)
  then show ?case unfolding deleteLuns.simps by (intro account_intros)
qed (simp add: account.stays_ret)

lemma stays_deleteTargets: "stays same_account (deleteTargets nas volumeId targets)"
proof (induction targets)
  case (Cons g gs)
  then show ?case unfolding deleteTargets.simps by (intro account_intros stays_deleteLuns)
qed (simp add: account.stays_ret)

lemma stays_DeleteVolume: "stays same_account (DeleteVolume nas volumeId)"
  unfolding DeleteVolume_def by (intro account_intros stays_deleteTargets)

lemma stays_readers:
  "stays same_account (ValidateVolumeCapabilities nas volumeId caps)"
  "stays same_account (ListVolumes nas token m)"
  "stays same_account (GetCapacity nas d)"
  unfolding ValidateVolumeCapabilities_def ListVolumes_def GetCapacity_def Let_def
  by (intro account_intros; simp add: account_intros split: option.split prod.split)+

end
