(* ===== verification/CreateMachine.thy ===== *)
theory CreateMachine
  imports Replay CreateLaws
begin

text \<open>
  \<^verbatim>\<open>CreateVolume\<close> as a state machine. A phase says what exists on the NAS so far, a step is
  one request with its reply; the exits with clean-up pass through \<open>Undo\<close>, which lists the
  removals still to be sent. A request that gets no reply leads to \<open>Done Hang\<close>. The handler refines the machine: its traffic labels a path from
  \<open>Fresh\<close> to \<open>Done\<close> with its result. Invariants of paths, by rule induction, then say what a run
  can leave behind.
\<close>

section \<open>Phases and steps\<close>

datatype phase =
    Fresh
  | Session
  | Vacant
  | TargetMade int
  | InitMade int
  | LunMade int int
  | LunBuilt int int
  | Attached int int
  | Undo "http_request list" status
  | Done "(status, volume) outcome"

type_synonym config = "client \<times> phase"
type_synonym event = "http_request \<times> http_reply"

abbreviation internally :: "string \<Rightarrow> phase" where
  "internally msg \<equiv> Done (Fail (Status Internal msg))"

definition undone :: "http_request list \<Rightarrow> status \<Rightarrow> phase" where
  "undone qs st = (if qs = [] then Done (Fail st) else Undo qs st)"

text \<open>The request a phase sends next. A LUN is built once its status is not \<open>creating\<close>.\<close>

fun next_request :: "driver \<Rightarrow> string \<Rightarrow> int \<Rightarrow> client \<Rightarrow> phase \<Rightarrow> http_request option" where
  "next_request d name sz c Fresh = Some (login_request c)"
| "next_request d name sz c Session = Some (list_request c)"
| "next_request d name sz c Vacant = Some (add_target_request c name)"
| "next_request d name sz c (TargetMade i) = Some (add_init_request c i)"
| "next_request d name sz c (InitMade i) = Some (add_lun_request c name (d_storagePoolID d) (sz div giB))"
| "next_request d name sz c (LunMade i l) = Some (lun_request c l)"
| "next_request d name sz c (LunBuilt i l) = Some (attach_request c l i)"
| "next_request d name sz c (Attached i l) = Some (list_request c)"
| "next_request d name sz c (Undo qs st) = (case qs of [] \<Rightarrow> None | q # _ \<Rightarrow> Some q)"
| "next_request d name sz c (Done r) = None"

inductive create_step :: "driver \<Rightarrow> string \<Rightarrow> int \<Rightarrow> config \<Rightarrow> event \<Rightarrow> config \<Rightarrow> bool"
  for d :: driver and name :: string and sz :: int where
  login: "login_reply x = Ret v \<Longrightarrow>
    create_step d name sz (c, Fresh) (login_request c, x) (c\<lparr>sid := v\<rparr>, Session)"
| login_error: "login_reply x = Fail e \<Longrightarrow>
    create_step d name sz (c, Fresh) (login_request c, x) (c, internally ''Failed to login to NAS'')"
| vacant: "list_reply x = Ret l \<Longrightarrow> name \<notin> target_Name ` set (Targets l) \<Longrightarrow>
    create_step d name sz (c, Session) (list_request c, x) (c, Vacant)"
| taken: "list_reply x = Ret l \<Longrightarrow> name \<in> target_Name ` set (Targets l) \<Longrightarrow>
    create_step d name sz (c, Session) (list_request c, x)
      (c, Done (Fail (Status AlreadyExists ''Volume already exists'')))"
| list_error: "list_reply x = Fail e \<Longrightarrow>
    create_step d name sz (c, Session) (list_request c, x)
      (c, internally ''Failed to get list of ISCSI targets'')"
| target: "target_reply x = Ret i \<Longrightarrow>
    create_step d name sz (c, Vacant) (add_target_request c name, x) (c, TargetMade i)"
| target_error: "target_reply x = Fail e \<Longrightarrow>
    create_step d name sz (c, Vacant) (add_target_request c name, x)
      (c, internally ''Failed to create ISCSI target'')"
| init: "init_reply x = Ret u \<Longrightarrow>
    create_step d name sz (c, TargetMade i) (add_init_request c i, x) (c, InitMade i)"
| init_error: "init_reply x = Fail e \<Longrightarrow>
    create_step d name sz (c, TargetMade i) (add_init_request c i, x)
      (c, Undo [del_target_request c i] (Status Internal ''Failed to create ISCSI initator''))"
| block: "block_reply x = Ret b \<Longrightarrow>
    create_step d name sz (c, InitMade i) (add_lun_request c name (d_storagePoolID d) (sz div giB), x)
      (c, LunMade i (cb_Result b))"
| block_error: "block_reply x = Fail e \<Longrightarrow>
    create_step d name sz (c, InitMade i) (add_lun_request c name (d_storagePoolID d) (sz div giB), x)
      (c, Undo [del_target_request c i] (Status Internal ''Failed to create ISCSI Block based LUN''))"
| waiting: "lun_reply x = Ret info \<Longrightarrow> lun_StatusString info = ''creating'' \<Longrightarrow>
    create_step d name sz (c, LunMade i l) (lun_request c l, x) (c, LunMade i l)"
| built: "lun_reply x = Ret info \<Longrightarrow> lun_StatusString info \<noteq> ''creating'' \<Longrightarrow>
    create_step d name sz (c, LunMade i l) (lun_request c l, x) (c, LunBuilt i l)"
| poll_error: "lun_reply x = Fail e \<Longrightarrow>
    create_step d name sz (c, LunMade i l) (lun_request c l, x)
      (c, internally ''Failed to get ISCSI Block based LUN readiness'')"
| attached: "echo_reply 0 x = Ret u \<Longrightarrow>
    create_step d name sz (c, LunBuilt i l) (attach_request c l i, x) (c, Attached i l)"
| attach_error: "echo_reply 0 x = Fail e \<Longrightarrow>
    create_step d name sz (c, LunBuilt i l) (attach_request c l i, x)
      (c, Undo [del_target_request c i, del_lun_request c l]
            (Status Internal ''Failed to associate LUN with ISCSI target''))"
| finished: "list_reply x = Ret tls \<Longrightarrow> find_iqn name (Targets tls) \<noteq> '''' \<Longrightarrow>
    create_step d name sz (c, Attached i l) (list_request c, x)
      (c, Done (Ret (volume_response d name sz (find_iqn name (Targets tls)))))"
| no_iqn: "list_reply x = Ret tls \<Longrightarrow> find_iqn name (Targets tls) = '''' \<Longrightarrow>
    create_step d name sz (c, Attached i l) (list_request c, x) (c, internally ''Failed to get ISCSI IQN'')"
| relist_error: "list_reply x = Fail e \<Longrightarrow>
    create_step d name sz (c, Attached i l) (list_request c, x)
      (c, internally ''Failed to get list of ISCSI targets'')"
| undo: "x \<noteq> NoReply \<Longrightarrow> create_step d name sz (c, Undo (q # qs) st) (q, x) (c, undone qs st)"
| silent: "next_request d name sz c p = Some q \<Longrightarrow> create_step d name sz (c, p) (q, NoReply) (c, Done Hang)"

inductive create_path :: "driver \<Rightarrow> string \<Rightarrow> int \<Rightarrow> config \<Rightarrow> event list \<Rightarrow> config \<Rightarrow> bool"
  for d :: driver and name :: string and sz :: int where
  here: "create_path d name sz p [] p"
| step: "create_step d name sz p e q \<Longrightarrow> create_path d name sz q es r \<Longrightarrow> create_path d name sz p (e # es) r"

inductive_cases step_from: "create_step d name sz (c, p) e q"
inductive_cases path_Cons: "create_path d name sz p (e # es) r"
inductive_simps path_Nil: "create_path d name sz p [] r"

section \<open>The handler refines the machine\<close>

text \<open>
  A run from a phase either ends at \<open>Done\<close>, or waits for its LUN for ever, and then the
  state is the one the waiting started in.
\<close>

definition refines :: "driver \<Rightarrow> string \<Rightarrow> int \<Rightarrow> phase \<Rightarrow> 'w observed st
    \<Rightarrow> (status, volume) outcome \<Rightarrow> 'w observed st \<Rightarrow> bool" where
  "refines d name sz p s r t \<longleftrightarrow>
     (\<exists>es. traffic t = traffic s @ es
        \<and> (r \<noteq> Panic \<and> create_path d name sz (cl s, p) es (cl t, Done r)
           \<or> r = Hang \<and> (\<exists>i l. create_path d name sz (cl s, p) es (cl t, LunMade i l))))"

lemma refines_step:
  assumes "sends s u c q x" and "create_step d name sz (cl s, p) (q, x) (c, p')"
    and "refines d name sz p' u r t"
  shows "refines d name sz p s r t"
proof -
  have u: "traffic u = traffic s @ [(q, x)]" "cl u = c" using assms(1) by (simp_all add: sends_def)
  obtain es where es: "traffic t = traffic u @ es"
    and or: "r \<noteq> Panic \<and> create_path d name sz (cl u, p') es (cl t, Done r)
           \<or> r = Hang \<and> (\<exists>i l. create_path d name sz (cl u, p') es (cl t, LunMade i l))"
    using assms(3) unfolding refines_def by blast
  have "traffic t = traffic s @ ((q, x) # es)" using es u(1) by simp
  moreover have "create_path d name sz (cl s, p) ((q, x) # es) z"
    if "create_path d name sz (cl u, p') es z" for z
    using create_path.step [OF assms(2)] that u(2) by simp
  ultimately show ?thesis using or unfolding refines_def by blast
qed

lemma refines_done: "r \<noteq> Panic \<Longrightarrow> refines d name sz (Done r) s r s"
  by (auto simp: refines_def intro: create_path.here)

lemma refines_silent:
  assumes "sends s t (cl s) q NoReply" and "next_request d name sz (cl s) p = Some q"
  shows "refines d name sz p s Hang t"
proof -
  have "refines d name sz (Done Hang) t Hang t" by (rule refines_done) simp
  then show ?thesis by (rule refines_step [OF assms(1) create_step.silent [OF assms(2)]])
qed

lemma cleanup_target:
  assumes "ignoring (DeleteStorageISCSITarget (logged nas) i) k s = (r, t)" and "good_client (cl s)"
    and "\<And>u. k u = (r, t) \<Longrightarrow> cl u = cl s \<Longrightarrow> refines d name sz (undone qs st) u r t"
  shows "refines d name sz (Undo (del_target_request (cl s) i # qs) st) s r t"
  using assms(1)
proof (cases rule: ignoring_cases)
  case (run r' u)
  obtain x where x: "r' = echo_reply i x" "sends s u (cl s) (del_target_request (cl s) i) x"
    using del_target_sends [OF run(1) assms(2)] .
  then have "cl u = cl s" "x \<noteq> NoReply" using run(3) by (auto simp: sends_def)
  from refines_step [OF x(2) create_step.undo [OF this(2)] assms(3) [OF run(2) this(1)]] show ?thesis .
next
  case Hang
  then show ?thesis using refines_silent [OF unanswered(8) [OF assms(2) Hang(1)]] by simp
qed (use del_target_sends [OF _ assms(2)] reply_proper in metis)

lemma cleanup_lun:
  assumes "ignoring (DeleteStorageISCSIBlockLUN (logged nas) l False) k s = (r, t)" and "good_client (cl s)"
    and "\<And>u. k u = (r, t) \<Longrightarrow> cl u = cl s \<Longrightarrow> refines d name sz (undone qs st) u r t"
  shows "refines d name sz (Undo (del_lun_request (cl s) l # qs) st) s r t"
  using assms(1)
proof (cases rule: ignoring_cases)
  case (run r' u)
  obtain x where x: "r' = echo_reply 0 x" "sends s u (cl s) (del_lun_request (cl s) l) x"
    using del_lun_sends [OF run(1) assms(2)] .
  then have "cl u = cl s" "x \<noteq> NoReply" using run(3) by (auto simp: sends_def)
  from refines_step [OF x(2) create_step.undo [OF this(2)] assms(3) [OF run(2) this(1)]] show ?thesis .
next
  case Hang
  then show ?thesis using refines_silent [OF unanswered(9) [OF assms(2) Hang(1)]] by simp
qed (use del_lun_sends [OF _ assms(2)] reply_proper in metis)

lemma undone_run:
  "internal msg err u = (r, t) \<Longrightarrow> refines d name sz (undone [] (Status Internal msg)) u r t"
  by (auto simp: internal_def fail_def undone_def intro: refines_done)

lemma undo_target:
  assumes "ignoring (DeleteStorageISCSITarget (logged nas) i) (internal msg e) s = (r, t)"
    and "good_client (cl s)" and "cl s = c"
  shows "refines d name sz (Undo [del_target_request c i] (Status Internal msg)) s r t"
  using cleanup_target [OF assms(1,2)] undone_run unfolding assms(3) [symmetric] by metis

lemma finishVolume_refines:
  assumes "finishVolume (logged nas) d name sz s = (r, t)" and "good_client (cl s)"
  shows "refines d name sz (Attached i l) s r t"
  using assms(1) unfolding finishVolume_def
proof (cases rule: onErr_cases)
  case (Ret tls u)
  obtain x where x: "list_reply x = Ret tls" "sends s u (cl s) (list_request (cl s)) x"
    using list_sends [OF Ret(1) assms(2)] by metis
  show ?thesis
  proof (cases "find_iqn name (Targets tls) = ''''")
    case True
    show ?thesis
      by (rule refines_step [OF x(2) create_step.no_iqn [OF x(1) True]])
        (use Ret(2) True in \<open>auto simp: fail_def Let_def intro: refines_done\<close>)
  next
    case False
    show ?thesis
      by (rule refines_step [OF x(2) create_step.finished [OF x(1) False]])
        (use Ret(2) False in \<open>auto simp: ret_def Let_def intro: refines_done\<close>)
  qed
next
  case (Fail e u)
  obtain x where x: "list_reply x = Fail e" "sends s u (cl s) (list_request (cl s)) x"
    using list_sends [OF Fail(1) assms(2)] by metis
  show ?thesis
    by (rule refines_step [OF x(2) create_step.relist_error [OF x(1)]])
      (use Fail(2) in \<open>auto simp: internal_def fail_def intro: refines_done\<close>)
next
  case Hang
  then show ?thesis using refines_silent [OF unanswered(2) [OF assms(2) Hang(1)]] by simp
qed (use list_sends [OF _ assms(2)] reply_proper in metis)

lemma attachVolume_refines:
  assumes "attachVolume (logged nas) d name sz i l s = (r, t)" and "good_client (cl s)"
  shows "refines d name sz (LunBuilt i l) s r t"
  using assms(1) unfolding attachVolume_def
proof (cases rule: onErr_cases)
  case (Ret a u)
  obtain x where x: "echo_reply 0 x = Ret a" "sends s u (cl s) (attach_request (cl s) l i) x" "good_client (cl u)"
    using attach_sends [OF Ret(1) assms(2)] by metis
  show ?thesis
    by (rule refines_step [OF x(2) create_step.attached [OF x(1)] finishVolume_refines [OF Ret(2) x(3)]])
next
  case (Fail e u)
  obtain x where x: "echo_reply 0 x = Fail e" "sends s u (cl s) (attach_request (cl s) l i) x" "good_client (cl u)"
    using attach_sends [OF Fail(1) assms(2)] by metis
  have "cl u = cl s" using x(2) by (simp add: sends_def)
  let ?st = "Status Internal ''Failed to associate LUN with ISCSI target''"
  have "refines d name sz (Undo [del_target_request (cl u) i, del_lun_request (cl u) l] ?st) u r t"
  proof (rule cleanup_target [OF Fail(2) x(3)])
    fix v assume v: "ignoring (DeleteStorageISCSIBlockLUN (logged nas) l False)
       (internal ''Failed to associate LUN with ISCSI target'' e) v = (r, t)" "cl v = cl u"
    then have "refines d name sz (Undo [del_lun_request (cl v) l] ?st) v r t"
      using cleanup_lun [OF v(1)] x(3) undone_run by metis
    then show "refines d name sz (undone [del_lun_request (cl u) l] ?st) v r t"
      by (simp add: undone_def v(2))
  qed
  then show ?thesis using refines_step [OF x(2) create_step.attach_error [OF x(1)]] \<open>cl u = cl s\<close> by simp
next
  case Hang
  then show ?thesis using refines_silent [OF unanswered(7) [OF assms(2) Hang(1)]] by simp
qed (use attach_sends [OF _ assms(2)] reply_proper in metis)

lemma poll_refines:
  assumes "pollLun (logged nas) l s = Some y" and "good_client (cl s)"
    and ready: "\<And>u. y = (Ret (), u) \<Longrightarrow> good_client (cl u) \<Longrightarrow> refines d name sz (LunBuilt i l) u r t"
    and error: "\<And>st u. y = (Fail st, u) \<Longrightarrow> r = Fail st \<and> t = u"
    and silence: "\<And>u. y = (Hang, u) \<Longrightarrow> r = Hang \<and> t = u"
  shows "refines d name sz (LunMade i l) s r t"
  using assms(1,2)
proof (induction rule: pollLun_induct)
  case (stop s)
  obtain r' u where run: "GetStorageISCSILun (logged nas) l s = (r', u)" by (metis prod.exhaust)
  obtain x where x: "r' = lun_reply x" "sends s u (cl s) (lun_request (cl s) l) x" "good_client (cl u)"
    using lun_sends [OF run stop(3)] .
  show ?case
  proof (cases "lun_reply x")
    case (Ret info)
    with stop(1) run x(1) have ne: "lun_StatusString info \<noteq> ''creating''" by (simp add: still_creating_def)
    with stop(2) run x(1) Ret have "y = (Ret (), u)" by (simp add: pollLun.simps)
    from refines_step [OF x(2) create_step.built [OF Ret ne] ready [OF this x(3)]] show ?thesis .
  next
    case (Fail e)
    with stop(2) run x(1)
    have "y = (Fail (Status Internal ''Failed to get ISCSI Block based LUN readiness''), u)"
      by (simp add: pollLun.simps)
    from error [OF this] refines_step [OF x(2) create_step.poll_error [OF Fail] refines_done]
    show ?thesis by simp
  next
    case Hang
    with stop(2) run x(1) have "y = (Hang, u)" by (simp add: pollLun.simps)
    from silence [OF this] x(2) Hang show ?thesis by (auto intro: refines_silent)
  qed simp
next
  case (step s)
  obtain r' u where run: "GetStorageISCSILun (logged nas) l s = (r', u)" by (metis prod.exhaust)
  obtain x where x: "r' = lun_reply x" "sends s u (cl s) (lun_request (cl s) l) x" "good_client (cl u)"
    using lun_sends [OF run step(3)] .
  obtain info where info: "lun_reply x = Ret info" "lun_StatusString info = ''creating''"
    using step(1) run x(1) by (auto simp: still_creating_def split: outcome.splits)
  have "refines d name sz (LunMade i l) u r t" using step(2) run x(3) by simp
  from refines_step [OF x(2) create_step.waiting [OF info] this] show ?case .
qed

lemma wait_refines:
  assumes "onErr (waitForLun (logged nas) l) fail (\<lambda>_. attachVolume (logged nas) d name sz i l) s = (r, t)"
    and "good_client (cl s)"
  shows "refines d name sz (LunMade i l) s r t"
proof (cases "pollLun (logged nas) l s")
  case None
  then have "r = Hang" "t = s" using assms(1) by (auto simp: waitForLun_def onErr_def)
  then show ?thesis by (auto simp: refines_def intro: create_path.here)
next
  case (Some y)
  then have k: "waitForLun (logged nas) l s = y" by (simp add: waitForLun_def)
  show ?thesis
  proof (rule poll_refines [OF Some assms(2)])
    fix u assume "y = (Ret (), u)" "good_client (cl u)"
    then show "refines d name sz (LunBuilt i l) u r t"
      using assms(1) k by (intro attachVolume_refines) (simp_all add: onErr_def)
  next
    fix st u assume "y = (Fail st, u)"
    then show "r = Fail st \<and> t = u" using assms(1) k by (simp add: onErr_def fail_def)
  next
    fix u assume "y = (Hang, u)"
    then show "r = Hang \<and> t = u" using assms(1) k by (simp add: onErr_def)
  qed
qed

lemma createLUN_refines:
  assumes "createLUN (logged nas) d name sz i s = (r, t)" and "good_client (cl s)"
  shows "refines d name sz (InitMade i) s r t"
  using assms(1) unfolding createLUN_def mult_1
proof (cases rule: onErr_cases)
  case (Ret b u)
  obtain x where x: "block_reply x = Ret b" "good_client (cl u)"
      "sends s u (cl s) (add_lun_request (cl s) name (d_storagePoolID d) (sz div giB)) x"
    using add_lun_sends [OF Ret(1) assms(2)] by metis
  show ?thesis
    by (rule refines_step [OF x(3) create_step.block [OF x(1)] wait_refines [OF Ret(2) x(2)]])
next
  case (Fail e u)
  obtain x where x: "block_reply x = Fail e" "good_client (cl u)"
      "sends s u (cl s) (add_lun_request (cl s) name (d_storagePoolID d) (sz div giB)) x"
    using add_lun_sends [OF Fail(1) assms(2)] by metis
  have "cl u = cl s" using x(3) by (simp add: sends_def)
  from refines_step [OF x(3) create_step.block_error [OF x(1)] undo_target [OF Fail(2) x(2) this]]
  show ?thesis .
next
  case Hang
  then show ?thesis using refines_silent [OF unanswered(6) [OF assms(2) Hang(1)]] by simp
qed (use add_lun_sends [OF _ assms(2)] reply_proper in metis)

lemma createTarget_refines:
  assumes "createTarget (logged nas) d name sz s = (r, t)" and "good_client (cl s)"
  shows "refines d name sz Vacant s r t"
  using assms(1) unfolding createTarget_def
proof (cases rule: onErr_cases)
  case (Ret i u)
  obtain x where x: "target_reply x = Ret i" "sends s u (cl s) (add_target_request (cl s) name) x"
      "good_client (cl u)"
    using add_target_sends [OF Ret(1) assms(2)] by metis
  show ?thesis
  proof (rule refines_step [OF x(2) create_step.target [OF x(1)]])
    from Ret(2) show "refines d name sz (TargetMade i) u r t"
    proof (cases rule: onErr_cases)
      case (Ret a v)
      obtain y where y: "init_reply y = Ret a" "sends u v (cl u) (add_init_request (cl u) i) y" "good_client (cl v)"
        using add_init_sends [OF Ret(1) x(3)] by metis
      show ?thesis
        by (rule refines_step [OF y(2) create_step.init [OF y(1)] createLUN_refines [OF Ret(2) y(3)]])
    next
      case (Fail e v)
      obtain y where y: "init_reply y = Fail e" "sends u v (cl u) (add_init_request (cl u) i) y" "good_client (cl v)"
        using add_init_sends [OF Fail(1) x(3)] by metis
      have "cl v = cl u" using y(2) by (simp add: sends_def)
      from refines_step [OF y(2) create_step.init_error [OF y(1)] undo_target [OF Fail(2) y(3) this]]
      show ?thesis .
    next
      case Hang
      then show ?thesis using refines_silent [OF unanswered(5) [OF x(3) Hang(1)]] by simp
    qed (use add_init_sends [OF _ x(3)] reply_proper in metis)
  qed
next
  case (Fail e u)
  obtain x where x: "target_reply x = Fail e" "sends s u (cl s) (add_target_request (cl s) name) x"
    using add_target_sends [OF Fail(1) assms(2)] by metis
  show ?thesis
    by (rule refines_step [OF x(2) create_step.target_error [OF x(1)]])
      (use Fail(2) in \<open>auto simp: internal_def fail_def intro: refines_done\<close>)
next
  case Hang
  then show ?thesis using refines_silent [OF unanswered(4) [OF assms(2) Hang(1)]] by simp
qed (use add_target_sends [OF _ assms(2)] reply_proper in metis)

lemma provision_refines:
  assumes "provision (logged nas) d name sz s = (r, t)" and "good_client (cl s)"
  shows "refines d name sz Fresh s r t"
  using assms(1) unfolding provision_def
proof (cases rule: onErr_cases)
  case (Ret a u)
  obtain x v where x: "login_reply x = Ret v" "good_client (cl u)"
      "sends s u ((cl s)\<lparr>sid := v\<rparr>) (login_request (cl s)) x"
    using login_sends [OF Ret(1) assms(2)] by (metis outcome.distinct(1,5))
  show ?thesis
  proof (rule refines_step [OF x(3) create_step.login [OF x(1)]])
    from Ret(2) show "refines d name sz Session u r t"
    proof (cases rule: onErr_cases)
      case (Ret tls w)
      obtain y where y: "list_reply y = Ret tls" "sends u w (cl u) (list_request (cl u)) y" "good_client (cl w)"
        using list_sends [OF Ret(1) x(2)] by metis
      show ?thesis
      proof (cases "name \<in> target_Name ` set (Targets tls)")
        case True
        then have "list_ex (\<lambda>target. target_Name target = name) (Targets tls)"
          by (auto simp: list_ex_iff)
        with Ret(2) show ?thesis
          by (intro refines_step [OF y(2) create_step.taken [OF y(1) True]])
            (auto simp: fail_def intro: refines_done)
      next
        case False
        then have "\<not> list_ex (\<lambda>target. target_Name target = name) (Targets tls)"
          by (auto simp: list_ex_iff)
        with Ret(2) show ?thesis
          by (intro refines_step [OF y(2) create_step.vacant [OF y(1) False]])
            (auto intro: createTarget_refines y(3))
      qed
    next
      case (Fail e w)
      obtain y where y: "list_reply y = Fail e" "sends u w (cl u) (list_request (cl u)) y"
        using list_sends [OF Fail(1) x(2)] by metis
      show ?thesis
        by (rule refines_step [OF y(2) create_step.list_error [OF y(1)]])
          (use Fail(2) in \<open>auto simp: internal_def fail_def intro: refines_done\<close>)
    next
      case Hang
      then show ?thesis using refines_silent [OF unanswered(2) [OF x(2) Hang(1)]] by simp
    qed (use list_sends [OF _ x(2)] reply_proper in metis)
  qed
next
  case (Fail e u)
  obtain x where x: "login_reply x = Fail e" "sends s u (cl s) (login_request (cl s)) x"
    using login_sends [OF Fail(1) assms(2)] by (metis outcome.distinct outcome.inject(2))
  show ?thesis
    by (rule refines_step [OF x(2) create_step.login_error [OF x(1)]])
      (use Fail(2) in \<open>auto simp: internal_def fail_def intro: refines_done\<close>)
next
  case Hang
  then show ?thesis using refines_silent [OF unanswered(1) [OF assms(2) Hang(1)]] by simp
qed (use login_sends [OF _ assms(2)] outcome.distinct in metis)

section \<open>What a run leaves behind\<close>

text \<open>
  The bookkeeping of a run, read off its traffic with the client after the login: the indexes
  of the targets and LUNs the NAS said it had created, and the removals that were sent.
\<close>

definition targets_made :: "client \<Rightarrow> string \<Rightarrow> event list \<Rightarrow> int set" where
  "targets_made c name es =
     {i. \<exists>x. (add_target_request c name, x) \<in> set es \<and> target_reply x = Ret i}"

definition luns_made :: "driver \<Rightarrow> client \<Rightarrow> string \<Rightarrow> int \<Rightarrow> event list \<Rightarrow> int set" where
  "luns_made d c name sz es =
     {l. \<exists>x b. (add_lun_request c name (d_storagePoolID d) (sz div giB), x) \<in> set es
           \<and> block_reply x = Ret b \<and> l = cb_Result b}"

definition quiet :: "event list \<Rightarrow> bool" where
  "quiet es \<longleftrightarrow> list_all (\<lambda>e. \<not> removes (fst e)) es"

definition seen_built :: "client \<Rightarrow> int \<Rightarrow> event list \<Rightarrow> bool" where
  "seen_built c l es \<longleftrightarrow> (\<exists>x info. (lun_request c l, x) \<in> set es \<and> lun_reply x = Ret info
     \<and> lun_StatusString info \<noteq> ''creating'')"

definition seen_attached :: "client \<Rightarrow> int \<Rightarrow> int \<Rightarrow> event list \<Rightarrow> bool" where
  "seen_attached c l i es \<longleftrightarrow> (\<exists>x. (attach_request c l i, x) \<in> set es \<and> echo_reply 0 x = Ret ())"

definition seen_iqn :: "client \<Rightarrow> string \<Rightarrow> string \<Rightarrow> event list \<Rightarrow> bool" where
  "seen_iqn c name iqn es \<longleftrightarrow> (\<exists>x tls. es \<noteq> [] \<and> last es = (list_request c, x) \<and> list_reply x = Ret tls
     \<and> iqn = find_iqn name (Targets tls))"

lemma targets_made_snoc [simp]:
  "targets_made c name (es @ [(q, x)]) =
    targets_made c name es \<union> (if q = add_target_request c name then {i. target_reply x = Ret i} else {})"
  by (auto simp: targets_made_def)

lemma luns_made_snoc [simp]:
  "luns_made d c name sz (es @ [(q, x)]) =
    luns_made d c name sz es
      \<union> (if q = add_lun_request c name (d_storagePoolID d) (sz div giB)
         then {l. \<exists>b. block_reply x = Ret b \<and> l = cb_Result b} else {})"
  by (auto simp: luns_made_def)

lemma quiet_snoc [simp]: "quiet (es @ [e]) \<longleftrightarrow> quiet es \<and> \<not> removes (fst e)"
  by (simp add: quiet_def)

lemma seen_snoc [simp]:
  "seen_built c l (es @ [e]) \<longleftrightarrow> seen_built c l es \<or> seen_built c l [e]"
  "seen_attached c l i (es @ [e]) \<longleftrightarrow> seen_attached c l i es \<or> seen_attached c l i [e]"
  by (auto simp: seen_built_def seen_attached_def)

lemma seen_here:
  "lun_reply x = Ret info \<Longrightarrow> lun_StatusString info \<noteq> ''creating'' \<Longrightarrow> seen_built c l [(lun_request c l, x)]"
  "echo_reply 0 x = Ret u \<Longrightarrow> seen_attached c l i [(attach_request c l i, x)]"
  "list_reply x = Ret tls \<Longrightarrow> seen_iqn c name (find_iqn name (Targets tls)) (es @ [(list_request c, x)])"
  by (simp_all add: seen_built_def seen_attached_def seen_iqn_def)

lemma made_Nil [simp]: "targets_made c name [] = {}" "luns_made d c name sz [] = {}" "quiet []"
  by (simp_all add: targets_made_def luns_made_def quiet_def)

lemmas made_single [simp] = targets_made_snoc [where es = "[]", simplified] luns_made_snoc [where es = "[]", simplified]

text \<open>The exits that keep what was created: they come after the LUN was made, without clean-up.\<close>

definition leaving :: "status set" where
  "leaving = Status Internal ` {''Failed to get ISCSI Block based LUN readiness'',
     ''Failed to get list of ISCSI targets'', ''Failed to get ISCSI IQN''}"

text \<open>The invariant: what the bookkeeping says in each phase.\<close>

definition cleaned :: "driver \<Rightarrow> string \<Rightarrow> int \<Rightarrow> client \<Rightarrow> event list \<Rightarrow> http_request set \<Rightarrow> bool" where
  "cleaned d name sz c es qs \<longleftrightarrow>
     del_target_request c ` targets_made c name es \<subseteq> qs \<and> del_lun_request c ` luns_made d c name sz es \<subseteq> qs"

fun ledger :: "driver \<Rightarrow> string \<Rightarrow> int \<Rightarrow> client \<Rightarrow> event list \<Rightarrow> phase \<Rightarrow> bool" where
  "ledger d name sz c es Fresh \<longleftrightarrow> es = []"
| "ledger d name sz c es Session \<longleftrightarrow> targets_made c name es = {} \<and> luns_made d c name sz es = {} \<and> quiet es"
| "ledger d name sz c es Vacant \<longleftrightarrow> targets_made c name es = {} \<and> luns_made d c name sz es = {} \<and> quiet es"
| "ledger d name sz c es (TargetMade i) \<longleftrightarrow>
     targets_made c name es = {i} \<and> luns_made d c name sz es = {} \<and> quiet es"
| "ledger d name sz c es (InitMade i) \<longleftrightarrow>
     targets_made c name es = {i} \<and> luns_made d c name sz es = {} \<and> quiet es"
| "ledger d name sz c es (LunMade i l) \<longleftrightarrow>
     targets_made c name es = {i} \<and> luns_made d c name sz es = {l} \<and> quiet es"
| "ledger d name sz c es (LunBuilt i l) \<longleftrightarrow>
     targets_made c name es = {i} \<and> luns_made d c name sz es = {l} \<and> quiet es \<and> seen_built c l es"
| "ledger d name sz c es (Attached i l) \<longleftrightarrow>
     targets_made c name es = {i} \<and> luns_made d c name sz es = {l} \<and> quiet es \<and> seen_built c l es
     \<and> seen_attached c l i es"
| "ledger d name sz c es (Undo qs st) \<longleftrightarrow>
     qs \<noteq> [] \<and> set qs \<subseteq> range (del_target_request c) \<union> range (del_lun_request c)
     \<and> cleaned d name sz c es (set qs \<union> fst ` set es) \<and> status_code st = Internal \<and> st \<notin> leaving"
| "ledger d name sz c es (Done r) \<longleftrightarrow>
     (case r of
        Ret v \<Rightarrow> (\<exists>i l iqn. targets_made c name es = {i} \<and> luns_made d c name sz es = {l} \<and> quiet es
            \<and> seen_built c l es \<and> seen_attached c l i es \<and> seen_iqn c name iqn es \<and> iqn \<noteq> ''''
            \<and> v = volume_response d name sz iqn)
      | Fail st \<Rightarrow>
          (if st \<in> leaving
           then quiet es \<and> (st = Status Internal ''Failed to get list of ISCSI targets''
               \<and> targets_made c name es = {} \<and> luns_made d c name sz es = {}
             \<or> (\<exists>i l. targets_made c name es = {i} \<and> luns_made d c name sz es = {l}))
           else cleaned d name sz c es (fst ` set es)
             \<and> (if status_code st = AlreadyExists
                then quiet es \<and> targets_made c name es = {} \<and> luns_made d c name sz es = {}
                else status_code st = Internal))
      | Panic \<Rightarrow> False
      | Hang \<Rightarrow> True)"

lemma leaving_simps [simp]:
  "Status Internal ''Failed to login to NAS'' \<notin> leaving"
  "Status AlreadyExists m \<notin> leaving"
  "Status Internal ''Failed to get list of ISCSI targets'' \<in> leaving"
  "Status Internal ''Failed to create ISCSI target'' \<notin> leaving"
  "Status Internal ''Failed to create ISCSI initator'' \<notin> leaving"
  "Status Internal ''Failed to create ISCSI Block based LUN'' \<notin> leaving"
  "Status Internal ''Failed to get ISCSI Block based LUN readiness'' \<in> leaving"
  "Status Internal ''Failed to associate LUN with ISCSI target'' \<notin> leaving"
  "Status Internal ''Failed to get ISCSI IQN'' \<in> leaving"
  by (auto simp: leaving_def)

lemma same_status_code [simp]: "(st :: status) \<in> leaving \<Longrightarrow> status_code st = Internal"
  by (auto simp: leaving_def)

lemma removal_made_nothing:
  assumes "good_client c" and "q \<in> range (del_target_request c) \<union> range (del_lun_request c)"
  shows "targets_made c name (es @ [(q, x)]) = targets_made c name es"
    and "luns_made d c name sz (es @ [(q, x)]) = luns_made d c name sz es"
proof -
  have "q \<noteq> add_target_request c name" "q \<noteq> add_lun_request c name (d_storagePoolID d) (sz div giB)"
    using assms(2) requests_apart [OF assms(1,1)] requests_apart_sym [OF assms(1,1)] by auto
  then show "targets_made c name (es @ [(q, x)]) = targets_made c name es"
    "luns_made d c name sz (es @ [(q, x)]) = luns_made d c name sz es" by simp_all
qed

lemma ledger_undo:
  assumes "ledger d name sz c es (Undo (q # qs) st)" and "good_client c"
  shows "ledger d name sz c (es @ [(q, x)]) (undone qs st)"
proof -
  have q: "q \<in> range (del_target_request c) \<union> range (del_lun_request c)"
    and cleaned: "cleaned d name sz c es (set (q # qs) \<union> fst ` set es)"
    using assms(1) by auto
  have "set (q # qs) \<union> fst ` set es = set qs \<union> fst ` set (es @ [(q, x)])" by auto
  then have "cleaned d name sz c (es @ [(q, x)]) (set qs \<union> fst ` set (es @ [(q, x)]))"
    using cleaned removal_made_nothing [OF assms(2) q] by (simp add: cleaned_def)
  then show ?thesis using assms(1) by (cases "qs = []") (auto simp: undone_def)
qed

lemma ledger_step:
  assumes "create_step d name sz (c, p) e (c', p')" and "good_client c" and "ledger d name sz c es p"
  shows "good_client c' \<and> ledger d name sz c' (es @ [e]) p'"
  using assms(1)
proof (cases rule: create_step.cases)
  case (login x v)
  then have "good_client c'" using assms(2) by (simp add: good_client_def)
  then show ?thesis
    using login assms requests_apart_sym [OF assms(2) \<open>good_client c'\<close>]
    by (simp add: quiet_def targets_made_def luns_made_def)
next
  case (undo q qs st x)
  then show ?thesis using ledger_undo assms(2,3) by simp
next
  case (finished x tls i l)
  then have "seen_iqn c name (find_iqn name (Targets tls)) (es @ [e])" by (simp add: seen_here)
  then show ?thesis using finished assms(2,3) requests_apart [OF assms(2,2)] by auto
qed (use assms(2,3) requests_apart [OF assms(2,2)] attach_is_no_add_lun
     in \<open>simp_all add: cleaned_def seen_here\<close>)

lemma ledger_path:
  assumes "create_path d name sz p es q" and "good_client (fst p)" and "ledger d name sz (fst p) h (snd p)"
  shows "good_client (fst q) \<and> ledger d name sz (fst q) (h @ es) (snd q)"
  using assms
proof (induction arbitrary: h rule: create_path.induct)
  case (here p)
  then show ?case by simp
next
  case (step p e q es r)
  have "good_client (fst q) \<and> ledger d name sz (fst q) (h @ [e]) (snd q)"
    using ledger_step [of d name sz "fst p" "snd p" e "fst q" "snd q"] step.hyps(1) step.prems by simp
  then show ?case using step.IH [of "h @ [e]"] by simp
qed

lemma CreateVolume_path:
  assumes "acceptable req" and "CreateVolume (logged nas) ms d req s = (r, t)" and "good_client (cl s)"
  obtains sz where "extractStorage (cv_CapacityRange req) = Inr sz"
    and "refines d (cleanISCSIName (cv_Name req)) sz Fresh s r t"
  using CreateVolume_accepted [OF assms(1), of "logged nas" ms d] provision_refines assms(2,3) by metis

lemma CreateVolume_ledger:
  assumes "acceptable req" and "CreateVolume (logged nas) ms d req s = (r, t)" and "good_client (cl s)"
    and "traffic s = []" and "extractStorage (cv_CapacityRange req) = Inr sz" and "r \<noteq> Hang"
  shows "ledger d (cleanISCSIName (cv_Name req)) sz (cl t) (traffic t) (Done r)"
proof -
  obtain es where "traffic t = es" and "create_path d (cleanISCSIName (cv_Name req)) sz (cl s, Fresh) es (cl t, Done r)"
    using CreateVolume_path [OF assms(1-3)] assms(4-6) unfolding refines_def
    by (metis append_Nil sum.inject(2))
  with ledger_path [OF this(2), of "[]"] assms(3) show ?thesis by simp
qed

text \<open>Once the name has been found vacant, the run no longer reports an existing volume.\<close>

fun past_check :: "phase \<Rightarrow> bool" where
  "past_check Fresh = False"
| "past_check Session = False"
| "past_check (Undo qs st) = (status_code st \<noteq> AlreadyExists)"
| "past_check (Done r) = (\<forall>m. r \<noteq> Fail (Status AlreadyExists m))"
| "past_check _ = True"

lemma past_check_step: "create_step d name sz p e q \<Longrightarrow> past_check (snd p) \<Longrightarrow> past_check (snd q)"
  by (induction rule: create_step.induct) (auto simp: undone_def)

lemma past_check_path: "create_path d name sz p es q \<Longrightarrow> past_check (snd p) \<Longrightarrow> past_check (snd q)"
  by (induction rule: create_path.induct) (simp_all add: past_check_step)

lemma done_path: "create_path d name sz p es q \<Longrightarrow> snd p = Done r \<Longrightarrow> es = [] \<and> q = p"
  by (induction rule: create_path.induct) (auto elim: create_step.cases)

lemma taken_path:
  assumes "create_path d name sz (c, Fresh) es (c', Done (Fail (Status AlreadyExists m)))"
  obtains x v y l where "es = [(login_request c, x), (list_request c', y)]" and "login_reply x = Ret v"
    and "c' = c\<lparr>sid := v\<rparr>" and "list_reply y = Ret l" and "name \<in> target_Name ` set (Targets l)"
proof -
  from assms obtain e q es1 where e: "es = e # es1" "create_step d name sz (c, Fresh) e q"
    and r1: "create_path d name sz q es1 (c', Done (Fail (Status AlreadyExists m)))"
    by (auto elim: create_path.cases)
  from e(2) show ?thesis
  proof (cases rule: create_step.cases)
    case (login x v)
    with r1 obtain f p es2 where f: "es1 = f # es2" "create_step d name sz (c\<lparr>sid := v\<rparr>, Session) f p"
      and r2: "create_path d name sz p es2 (c', Done (Fail (Status AlreadyExists m)))"
      by (auto elim: create_path.cases)
    from f(2) show ?thesis
    proof (cases rule: create_step.cases)
      case (vacant y l)
      with past_check_path [OF r2] show ?thesis by simp
    next
      case (taken y l)
      with done_path [OF r2] show ?thesis using that e(1) f(1) login by simp
    next
      case (list_error y e')
      with done_path [OF r2] show ?thesis by simp
    next
      case (silent q')
      with done_path [OF r2] show ?thesis by simp
    qed
  next
    case (login_error x e')
    with done_path [OF r1] show ?thesis by simp
  next
    case (silent q')
    with done_path [OF r1] show ?thesis by simp
  qed
qed

section \<open>How long a run is\<close>

text \<open>A path into a hang ends with the request that got no reply.\<close>

lemma hang_step: "create_step d name sz p e q \<Longrightarrow> snd q = Done Hang \<Longrightarrow> snd e = NoReply"
  by (auto elim!: create_step.cases simp: undone_def split: if_splits)

lemma hang_path:
  "create_path d name sz p es q \<Longrightarrow> snd q = Done Hang \<Longrightarrow> snd p \<noteq> Done Hang
    \<Longrightarrow> \<exists>es' r. es = es' @ [(r, NoReply)]"
proof (induction rule: create_path.induct)
  case (step p e q es r)
  show ?case
  proof (cases "snd q = Done Hang")
    case True
    then have "es = []" using done_path [OF step.hyps(2)] by simp
    moreover have "snd e = NoReply" using hang_step [OF step.hyps(1) True] .
    ultimately show ?thesis by (intro exI [of _ "[]"] exI [of _ "fst e"]) (cases e, simp)
  next
    case False
    then obtain es' r' where "es = es' @ [(r', NoReply)]" using step.IH step.prems(1) by blast
    then show ?thesis by (intro exI [of _ "e # es'"] exI [of _ r']) simp
  qed
qed simp

text \<open>The answers that keep the loop going: a readiness call, answered with \<open>creating\<close>.\<close>

definition creating_answer :: "event \<Rightarrow> bool" where
  "creating_answer e \<longleftrightarrow>
     (case request_forms (fst e) of None \<Rightarrow> False | Some (q, b) \<Rightarrow> map_of q ''lun_info'' = Some ''1'')
     \<and> (case lun_reply (snd e) of Ret info \<Rightarrow> lun_StatusString info = ''creating'' | _ \<Rightarrow> False)"

lemma creating_answer_lun:
  assumes "good_client c" and "lun_reply x = Ret info" and "lun_StatusString info = ''creating''"
  shows "creating_answer (lun_request c l, x)"
proof -
  have p: "plain_endpoint (iscsiPortalEndpoint c)" using assms(1) by (simp add: good_client_def)
  show ?thesis
    using request_forms_post [OF p, of "[(''sid'', sid c), (''func'', ''extra_get''), (''lun_info'', ''1''), (''lunID'', Itoa l)]" "[]"] assms(2,3)
    by (simp add: creating_answer_def lun_request_def map_of_sort_key)
qed

text \<open>Every other request moves the run on: \<open>to_go\<close> is the most it still sends.\<close>

fun to_go :: "phase \<Rightarrow> nat" where
  "to_go Fresh = 9"
| "to_go Session = 8"
| "to_go Vacant = 7"
| "to_go (TargetMade i) = 6"
| "to_go (InitMade i) = 5"
| "to_go (LunMade i l) = 4"
| "to_go (LunBuilt i l) = 3"
| "to_go (Attached i l) = 1"
| "to_go (Undo qs st) = length qs"
| "to_go (Done r) = 0"

lemma good_client_step: "create_step d name sz p e q \<Longrightarrow> good_client (fst p) \<Longrightarrow> good_client (fst q)"
  by (induction rule: create_step.induct) simp_all

lemma to_go_step:
  assumes "create_step d name sz p e q" and "good_client (fst p)"
  shows "Suc (to_go (snd q)) \<le> to_go (snd p) + (if creating_answer e then 1 else 0)"
  using assms
proof (induction rule: create_step.induct)
  case (waiting x info c i l)
  then show ?case by (simp add: creating_answer_lun)
next
  case (silent c p q)
  then show ?case by (cases p) (simp_all split: list.splits)
qed (simp_all add: undone_def)

lemma path_length:
  "create_path d name sz p es q \<Longrightarrow> good_client (fst p)
    \<Longrightarrow> length es + to_go (snd q) \<le> to_go (snd p) + length (filter creating_answer es)"
proof (induction rule: create_path.induct)
  case (step p e q es r)
  then show ?case using to_go_step [OF step.hyps(1)] good_client_step [OF step.hyps(1)] by fastforce
qed simp


end
