(* ===== verification/CreateProps.thy ===== *)
theory CreateProps
  imports CreateMachine
begin

text \<open>
  The properties of \<^verbatim>\<open>CreateVolume\<close>, each with a replay at which its hypotheses hold.
\<close>

section \<open>Concrete runs\<close>

definition demo_request :: createVolumeRequest where
  "demo_request =
     \<lparr>cv_Name = ''pvc-1A'',
      cv_VolumeCapabilities = [\<lparr>AccessMode = Some SINGLE_NODE_WRITER, AccessType = Some (Mount ''ext4'' [])\<rparr>],
      cv_CapacityRange = Some \<lparr>RequiredBytes = 2 * giB, LimitBytes = 0\<rparr>\<rparr>"

lemma demo_acceptable: "acceptable demo_request"
  by (simp add: acceptable_def demo_request_def cap_ok_def extractStorage_def size_defs)

lemma demo_size: "extractStorage (cv_CapacityRange demo_request) = Inr (2 * giB)"
  by (simp add: demo_request_def extractStorage_def size_defs)

lemma demo_name: "cleanISCSIName (cv_Name demo_request) = ''pvc1a''"
proof -
  have "cleanISCSIName ''pvc-1A'' = ''pvc1a''" by code_simp
  then show ?thesis by (simp add: demo_request_def)
qed

lemma demo_provision:
  "CreateVolume nas ms d demo_request = provision nas d ''pvc1a'' (2 * giB)"
  by (rule CreateVolume_accepted [OF demo_acceptable, of nas ms d]) (simp add: demo_size demo_name)

lemma pollLun_eq:
  "good_client (cl s) \<Longrightarrow> pollLun nas l s =
    (case nas (lun_request (cl s) l) (net s) of
       (x, w) \<Rightarrow>
         (case lun_reply x of
            Fail e \<Rightarrow> Some (Fail (Status Internal ''Failed to get ISCSI Block based LUN readiness''), s\<lparr>net := w\<rparr>)
          | Panic \<Rightarrow> Some (Panic, s\<lparr>net := w\<rparr>)
          | Hang \<Rightarrow> Some (Hang, s\<lparr>net := w\<rparr>)
          | Ret lunInfo \<Rightarrow>
              if lun_StatusString lunInfo = ''creating'' then pollLun nas l (s\<lparr>net := w\<rparr>)
              else Some (Ret (), s\<lparr>net := w\<rparr>)))"
  by (subst pollLun.simps) (auto simp: lun_eq split: prod.splits)

lemmas create_run_simps = demo_provision demo_client_good replay_def provision_def onErr_def io_simps
  op_eqs list_reply_doc createTarget_def internal_def in_int64_def createLUN_def waitForLun_def
  pollLun_eq attachVolume_def finishVolume_def target_info_def Let_def lun_StatusString_def

definition granted :: "http_reply list" where
  "granted = [ok (login_doc ''abc''), ok (list_doc []), ok (result_doc 3), ok (result_doc 0),
     ok (result_doc 7)]"

definition good_run :: "http_reply list" where
  "good_run = granted @ [ok (lun_doc ''0''), ok (lun_doc ''1''), ok (result_doc 0),
     ok (list_doc [(3, ''pvc1a'', ''iqn.2004-04.com.qnap:pvc1a'', [7])])]"

lemma good_run_result:
  "\<exists>t. CreateVolume (logged (replayed refused)) ms demo_driver demo_request (replay good_run) =
    (Ret (volume_response demo_driver ''pvc1a'' (2 * giB) ''iqn.2004-04.com.qnap:pvc1a''), t)"
  by (simp add: create_run_simps good_run_def granted_def)

text \<open>
  The loop ends with any other status: a LUN that is not found (\<open>-2\<close>) or being removed (\<open>-1\<close>) is
  attached as well, and the run succeeds.
\<close>

lemma odd_status_result:
  assumes "lun_status \<in> {''-2'', ''-1''}"
  shows "\<exists>t. CreateVolume (logged (replayed refused)) ms demo_driver demo_request
      (replay (granted @ [ok (lun_doc lun_status), ok (result_doc 0),
        ok (list_doc [(3, ''pvc1a'', ''iqn.2004-04.com.qnap:pvc1a'', [7])])])) =
    (Ret (volume_response demo_driver ''pvc1a'' (2 * giB) ''iqn.2004-04.com.qnap:pvc1a''), t)"
  using assms by (auto simp: create_run_simps granted_def)

text \<open>The NAS refuses to attach the LUN; the two removals succeed.\<close>

definition attach_fails :: "http_reply list" where
  "attach_fails = granted @ [ok (lun_doc ''1''), ok (result_doc (-1)), ok (result_doc 3), ok (result_doc 0)]"

lemma attach_fails_result:
  "\<exists>t. CreateVolume (logged (replayed refused)) ms demo_driver demo_request (replay attach_fails) =
    (Fail (Status Internal ''Failed to associate LUN with ISCSI target''), t)"
  by (simp add: create_run_simps attach_fails_def granted_def)

text \<open>The connection is lost while the LUN is being created.\<close>

lemma refused_lun: "lun_reply refused = Fail (TransportError ''connection refused'')"
  by (simp add: refused_def lun_reply_def reply_result_def)

lemma readiness_lost_result:
  "\<exists>t. CreateVolume (logged (replayed refused)) ms demo_driver demo_request
        (replay (granted @ [ok (lun_doc ''0''), refused])) =
    (Fail (Status Internal ''Failed to get ISCSI Block based LUN readiness''), t)"
  by (simp add: create_run_simps granted_def refused_lun)

text \<open>A volume of that name exists.\<close>

lemma taken_result:
  "\<exists>t. CreateVolume (logged (replayed refused)) ms demo_driver demo_request
        (replay [ok (login_doc ''abc''), ok (list_doc [(3, ''pvc1a'', ''iqn'', [7])])]) =
    (Fail (Status AlreadyExists ''Volume already exists''), t)"
  by (simp add: create_run_simps)

section \<open>Properties\<close>

text \<open>
  C1: the handler refines the state machine. The traffic of a run on an accepted request is the
  labels of a path of the machine from \<open>Fresh\<close>, with the cleaned name and the chosen size. The
  path ends in \<open>Done\<close> with the result, and if that is not to return, the last request got no
  reply; otherwise the run waits for the LUN the path has made, for ever. It never
  panics.
\<close>

theorem CreateVolume_refines:
  assumes "acceptable req" and "good_client (cl s)"
    and "CreateVolume (logged nas) ms d req s = (r, t)"
  shows "\<exists>sz es. extractStorage (cv_CapacityRange req) = Inr sz \<and> traffic t = traffic s @ es
    \<and> (r \<noteq> Panic \<and> (r = Hang \<longrightarrow> (\<exists>es' q. es = es' @ [(q, NoReply)]))
         \<and> create_path d (cleanISCSIName (cv_Name req)) sz (cl s, Fresh) es (cl t, Done r)
       \<or> r = Hang
         \<and> (\<exists>i l. create_path d (cleanISCSIName (cv_Name req)) sz (cl s, Fresh) es (cl t, LunMade i l)))"
proof -
  obtain sz where sz: "extractStorage (cv_CapacityRange req) = Inr sz"
    and "refines d (cleanISCSIName (cv_Name req)) sz Fresh s r t"
    by (rule CreateVolume_path [OF assms(1,3,2)])
  then obtain es where es: "traffic t = traffic s @ es"
    and or: "r \<noteq> Panic \<and> create_path d (cleanISCSIName (cv_Name req)) sz (cl s, Fresh) es (cl t, Done r)
      \<or> r = Hang \<and> (\<exists>i l. create_path d (cleanISCSIName (cv_Name req)) sz (cl s, Fresh) es (cl t, LunMade i l))"
    unfolding refines_def by blast
  have "\<exists>es' q. es = es' @ [(q, NoReply)]"
    if "create_path d (cleanISCSIName (cv_Name req)) sz (cl s, Fresh) es (cl t, Done r)" "r = Hang"
    using hang_path [OF that(1)] that(2) by simp
  with or have "r \<noteq> Panic \<and> (r = Hang \<longrightarrow> (\<exists>es' q. es = es' @ [(q, NoReply)]))
         \<and> create_path d (cleanISCSIName (cv_Name req)) sz (cl s, Fresh) es (cl t, Done r)
       \<or> r = Hang
         \<and> (\<exists>i l. create_path d (cleanISCSIName (cv_Name req)) sz (cl s, Fresh) es (cl t, LunMade i l))"
    by satx
  with sz es show ?thesis by (intro exI [of _ sz] exI [of _ es] conjI)
qed

theorem CreateVolume_refines_witness:
  "\<exists>(t :: http_reply list observed st) es. traffic t = es
    \<and> create_path demo_driver ''pvc1a'' (2 * giB) (demo_client, Fresh) es
        (cl t, Done (Ret (volume_response demo_driver ''pvc1a'' (2 * giB) ''iqn.2004-04.com.qnap:pvc1a'')))"
proof -
  obtain t where run: "CreateVolume (logged (replayed refused)) (\<lambda>_. '''') demo_driver demo_request (replay good_run) =
    (Ret (volume_response demo_driver ''pvc1a'' (2 * giB) ''iqn.2004-04.com.qnap:pvc1a''), t)"
    using good_run_result by blast
  have "good_client (cl (replay good_run))" by (simp add: replay_def demo_client_good)
  from CreateVolume_refines [OF demo_acceptable this run] obtain sz es where
    "extractStorage (cv_CapacityRange demo_request) = Inr sz" "traffic t = traffic (replay good_run) @ es"
    "create_path demo_driver (cleanISCSIName (cv_Name demo_request)) sz (cl (replay good_run), Fresh) es
        (cl t, Done (Ret (volume_response demo_driver ''pvc1a'' (2 * giB) ''iqn.2004-04.com.qnap:pvc1a'')))"
    by blast
  then show ?thesis by (auto simp: replay_def demo_size demo_name)
qed

text \<open>
  C2: a volume that is reported as created exists. On success the size is the one chosen for the
  requested range and the identifier is the cleaned name; the NAS created exactly one target and
  one LUN, reported the LUN with a status other than \<open>creating\<close> (the code asks no more: it need
  not be \<open>ready\<close>, as \<open>odd_status_result\<close> shows), confirmed the attachment of that LUN to
  that target, and the last request listed a target of that name, whose non-empty IQN is the one
  in the volume context; no removal was sent.
\<close>

theorem CreateVolume_success:
  assumes "CreateVolume (logged nas) ms d req s = (Ret v, t)" and "good_client (cl s)" and "traffic s = []"
  shows "\<exists>sz i l iqn. extractStorage (cv_CapacityRange req) = Inr sz
    \<and> v = \<lparr>VolumeId = cleanISCSIName (cv_Name req), vol_CapacityBytes = sz,
          VolumeContext = [''targetPortal'' \<mapsto> d_portal d, ''iqn'' \<mapsto> iqn, ''lun'' \<mapsto> ''0'', ''portals'' \<mapsto> ''[]'']\<rparr>
    \<and> iqn \<noteq> '''' \<and> seen_iqn (cl t) (VolumeId v) iqn (traffic t)
    \<and> targets_made (cl t) (VolumeId v) (traffic t) = {i} \<and> luns_made d (cl t) (VolumeId v) sz (traffic t) = {l}
    \<and> seen_built (cl t) l (traffic t) \<and> seen_attached (cl t) l i (traffic t) \<and> quiet (traffic t)"
proof -
  have "acceptable req" using CreateVolume_rejected [of req "logged nas" ms d s] assms(1) by fastforce
  moreover from this obtain sz where "extractStorage (cv_CapacityRange req) = Inr sz"
    by (rule CreateVolume_accepted)
  ultimately have "ledger d (cleanISCSIName (cv_Name req)) sz (cl t) (traffic t) (Done (Ret v))"
    using CreateVolume_ledger [OF _ assms] by simp
  with \<open>extractStorage (cv_CapacityRange req) = Inr sz\<close> show ?thesis
    by (auto simp: volume_response_def)
qed

theorem CreateVolume_success_witness:
  "\<exists>sz i l iqn. extractStorage (cv_CapacityRange demo_request) = Inr sz
    \<and> iqn \<noteq> '''' \<and> vol_CapacityBytes (volume_response demo_driver ''pvc1a'' (2 * giB) ''iqn.2004-04.com.qnap:pvc1a'') = sz
    \<and> (\<exists>t :: http_reply list observed st. targets_made (cl t) ''pvc1a'' (traffic t) = {i}
        \<and> luns_made demo_driver (cl t) ''pvc1a'' sz (traffic t) = {l})"
proof -
  obtain t where run: "CreateVolume (logged (replayed refused)) (\<lambda>_. '''') demo_driver demo_request (replay good_run) =
    (Ret (volume_response demo_driver ''pvc1a'' (2 * giB) ''iqn.2004-04.com.qnap:pvc1a''), t)"
    using good_run_result by blast
  have "good_client (cl (replay good_run))" "traffic (replay good_run) = []"
    by (simp_all add: replay_def demo_client_good)
  from CreateVolume_success [OF run this] show ?thesis
    by (fastforce simp: volume_response_def demo_size)
qed

text \<open>
  C3: failures clean up. When a run fails with any status but the three that leave everything in
  place, the removal of every target it created and of every LUN it created was sent.
\<close>

theorem CreateVolume_cleans_up:
  assumes "CreateVolume (logged nas) ms d req s = (Fail st, t)" and "good_client (cl s)" and "traffic s = []"
    and "st \<notin> leaving" and "extractStorage (cv_CapacityRange req) = Inr sz"
  shows "(\<forall>i \<in> targets_made (cl t) (cleanISCSIName (cv_Name req)) (traffic t).
      del_target_request (cl t) i \<in> fst ` set (traffic t))
    \<and> (\<forall>l \<in> luns_made d (cl t) (cleanISCSIName (cv_Name req)) sz (traffic t).
      del_lun_request (cl t) l \<in> fst ` set (traffic t))"
proof -
  have "cleaned d (cleanISCSIName (cv_Name req)) sz (cl t) (traffic t) (fst ` set (traffic t))"
  proof (cases "acceptable req")
    case True
    from CreateVolume_ledger [OF True assms(1-3,5)] assms(4) show ?thesis by simp
  next
    case False
    then show ?thesis
      using CreateVolume_rejected [OF False, of "logged nas" ms d s] assms(1,3) by (auto simp: cleaned_def)
  qed
  then show ?thesis by (auto simp: cleaned_def)
qed

theorem CreateVolume_cleans_up_witness:
  "\<exists>t :: http_reply list observed st.
    (\<forall>i \<in> targets_made (cl t) ''pvc1a'' (traffic t). del_target_request (cl t) i \<in> fst ` set (traffic t))
    \<and> CreateVolume (logged (replayed refused)) (\<lambda>_. '''') demo_driver demo_request (replay attach_fails) =
      (Fail (Status Internal ''Failed to associate LUN with ISCSI target''), t)"
proof -
  obtain t where run: "CreateVolume (logged (replayed refused)) (\<lambda>_. '''') demo_driver demo_request (replay attach_fails) =
    (Fail (Status Internal ''Failed to associate LUN with ISCSI target''), t)"
    using attach_fails_result by blast
  have "good_client (cl (replay attach_fails))" "traffic (replay attach_fails) = []"
    by (simp_all add: replay_def demo_client_good)
  from CreateVolume_cleans_up [OF run this _ demo_size] run show ?thesis by (auto simp: demo_name)
qed

text \<open>
  C22: two failures leave a target and a LUN behind. When the readiness of the LUN cannot be read,
  or the new target has no IQN in the last list, the NAS has created a target and a LUN, and the
  run sent no removal at all.
\<close>

theorem CreateVolume_leaks:
  assumes "CreateVolume (logged nas) ms d req s = (Fail (Status Internal msg), t)"
    and "good_client (cl s)" and "traffic s = []"
    and "msg = ''Failed to get ISCSI Block based LUN readiness'' \<or> msg = ''Failed to get ISCSI IQN''"
  shows "\<exists>sz i l. extractStorage (cv_CapacityRange req) = Inr sz
    \<and> targets_made (cl t) (cleanISCSIName (cv_Name req)) (traffic t) = {i}
    \<and> luns_made d (cl t) (cleanISCSIName (cv_Name req)) sz (traffic t) = {l} \<and> quiet (traffic t)"
proof -
  have acc: "acceptable req" using CreateVolume_rejected [of req "logged nas" ms d s] assms(1) by fastforce
  then obtain sz where sz: "extractStorage (cv_CapacityRange req) = Inr sz"
    by (rule CreateVolume_accepted)
  have "Status Internal msg \<in> leaving" using assms(4) by auto
  with CreateVolume_ledger [OF acc assms(1-3) sz] assms(4) sz show ?thesis by auto
qed

theorem CreateVolume_leaks_witness:
  "\<exists>sz i l. extractStorage (cv_CapacityRange demo_request) = Inr sz
    \<and> (\<exists>t :: http_reply list observed st. targets_made (cl t) ''pvc1a'' (traffic t) = {i}
        \<and> luns_made demo_driver (cl t) ''pvc1a'' sz (traffic t) = {l} \<and> quiet (traffic t)
        \<and> CreateVolume (logged (replayed refused)) (\<lambda>_. '''') demo_driver demo_request
            (replay (granted @ [ok (lun_doc ''0''), refused])) =
          (Fail (Status Internal ''Failed to get ISCSI Block based LUN readiness''), t))"
proof -
  let ?s = "replay (granted @ [ok (lun_doc ''0''), refused])"
  obtain t where run: "CreateVolume (logged (replayed refused)) (\<lambda>_. '''') demo_driver demo_request ?s =
    (Fail (Status Internal ''Failed to get ISCSI Block based LUN readiness''), t)"
    using readiness_lost_result by blast
  have "good_client (cl ?s)" "traffic ?s = []" by (simp_all add: replay_def demo_client_good)
  from CreateVolume_leaks [OF run this] run show ?thesis by (auto simp: demo_name)
qed

text \<open>
  C25: an existing volume is not touched. A run that answers \<open>AlreadyExists\<close> sent a login and one
  listing, which has a target of the cleaned name, and nothing else.
\<close>

theorem CreateVolume_taken:
  assumes "CreateVolume (logged nas) ms d req s = (Fail (Status AlreadyExists m), t)"
    and "good_client (cl s)" and "traffic s = []"
  shows "\<exists>x y l. traffic t = [(login_request (cl s), x), (list_request (cl t), y)]
    \<and> login_reply x = Ret (sid (cl t)) \<and> list_reply y = Ret l
    \<and> cleanISCSIName (cv_Name req) \<in> target_Name ` set (Targets l)"
proof -
  have acc: "acceptable req" using CreateVolume_rejected [of req "logged nas" ms d s] assms(1) by fastforce
  from CreateVolume_path [OF acc assms(1,2)] obtain sz where
    "refines d (cleanISCSIName (cv_Name req)) sz Fresh s (Fail (Status AlreadyExists m)) t" by blast
  then have "create_path d (cleanISCSIName (cv_Name req)) sz (cl s, Fresh) (traffic t)
      (cl t, Done (Fail (Status AlreadyExists m)))"
    using assms(3) by (auto simp: refines_def)
  then show ?thesis by (rule taken_path) auto
qed

theorem CreateVolume_taken_witness:
  "\<exists>(t :: http_reply list observed st) x y. traffic t = [(login_request demo_client, x), (list_request (cl t), y)]
    \<and> login_reply x = Ret (sid (cl t))"
proof -
  let ?s = "replay [ok (login_doc ''abc''), ok (list_doc [(3, ''pvc1a'', ''iqn'', [7])])]"
  obtain t where run: "CreateVolume (logged (replayed refused)) (\<lambda>_. '''') demo_driver demo_request ?s =
    (Fail (Status AlreadyExists ''Volume already exists''), t)"
    using taken_result by blast
  have "good_client (cl ?s)" "traffic ?s = []" by (simp_all add: replay_def demo_client_good)
  from CreateVolume_taken [OF run this] show ?thesis by (auto simp: replay_def)
qed

text \<open>
  C26: what is refused before the NAS is asked. A request without name, without capabilities, or
  with a capability other than a single-node writer with an access type is an invalid argument;
  a range with no allowed size is out of range; the state is as before. No other request ends
  with either status.
\<close>

theorem CreateVolume_validation:
  "(if cv_Name req \<noteq> '''' \<and> cv_VolumeCapabilities req \<noteq> [] \<and> list_all cap_ok (cv_VolumeCapabilities req)
    then case extractStorage (cv_CapacityRange req) of
           Inl err \<Rightarrow> CreateVolume nas ms d req s = (Fail (Status OutOfRange (''invalid capacity range: '' @ err)), s)
         | Inr sz \<Rightarrow> fst (CreateVolume nas ms d req s)
             \<notin> Fail ` {st. status_code st \<notin> {Internal, AlreadyExists}}
    else \<exists>m. CreateVolume nas ms d req s = (Fail (Status InvalidArgument m), s))"
proof (cases "acceptable req")
  case True
  then obtain sz where "extractStorage (cv_CapacityRange req) = Inr sz"
    and "CreateVolume nas ms d req = provision nas d (cleanISCSIName (cv_Name req)) sz"
    by (rule CreateVolume_accepted)
  with provision_ends [of nas d "cleanISCSIName (cv_Name req)" sz] True show ?thesis
    by (auto simp: acceptable_def ends_in_def late_status_def) (metis prod.collapse status.sel(1))+
next
  case False
  then show ?thesis
    by (auto simp: acceptable_def CreateVolume_def validateCapabilities_Nil fail_def split: sum.splits)
qed

text \<open>
  C29: the readiness loop stops at the first answer that is not "creating". If that is the answer
  after \<open>n\<close> others, the loop makes exactly \<open>n + 1\<close> calls and its result is the one of the last
  call: success, whatever the status, or the readiness error.
\<close>

theorem waitForLun_stops:
  assumes "\<forall>m<n. still_creating nas l (poll_state nas l m s)"
    and "\<not> still_creating nas l (poll_state nas l n s)"
  shows "waitForLun nas l s =
    (case GetStorageISCSILun nas l (poll_state nas l n s) of
       (Ret info, t) \<Rightarrow> (Ret (), t)
     | (Fail e, t) \<Rightarrow> (Fail (Status Internal ''Failed to get ISCSI Block based LUN readiness''), t)
     | (Panic, t) \<Rightarrow> (Panic, t)
     | (Hang, t) \<Rightarrow> (Hang, t))"
  using pollLun_least [OF assms(2,1)] assms(2)
  by (simp add: waitForLun_def pollLun.simps [of nas l "poll_state nas l n s"] still_creating_def
      split: prod.splits outcome.splits)

theorem waitForLun_stops_witness:
  "waitForLun (replayed refused) 7 \<lparr>cl = demo_client, net = [ok (lun_doc ''0''), ok (lun_doc ''1'')]\<rparr> =
    (Ret (), \<lparr>cl = demo_client, net = []\<rparr>)"
proof -
  let ?s = "\<lparr>cl = demo_client, net = [ok (lun_doc ''0''), ok (lun_doc ''1'')]\<rparr>"
  have "\<forall>m<1. still_creating (replayed refused) 7 (poll_state (replayed refused) 7 m ?s)"
    "\<not> still_creating (replayed refused) 7 (poll_state (replayed refused) 7 1 ?s)"
    by (simp_all add: still_creating_def lun_eq demo_client_good lun_StatusString_def)
  from waitForLun_stops [OF this] show ?thesis
    by (simp add: lun_eq demo_client_good)
qed

text \<open>
  C11: the work of a run is bounded, and there are two ways not to return. A run sends at most nine
  requests besides the readiness calls that are answered with \<open>creating\<close>. If it never returns,
  then either its last request got no reply (the client sets no deadline, and the context of the
  caller is not used), or from the state it is in the NAS reports one LUN as being created in
  every answer to come. So the handler returns on every NAS that answers each request and
  stops reporting its LUNs as being created.
\<close>

theorem CreateVolume_waits_for_creation:
  assumes "CreateVolume (logged nas) ms d req s = (r, t)" and "good_client (cl s)" and "traffic s = []"
  shows "length (traffic t) \<le> 9 + length (filter creating_answer (traffic t))
    \<and> (r = Hang \<longrightarrow> (\<exists>es q. traffic t = es @ [(q, NoReply)])
        \<or> (\<exists>l. \<forall>n. still_creating (logged nas) l (poll_state (logged nas) l n t)))"
proof (cases "acceptable req")
  case False
  then show ?thesis
    using CreateVolume_rejected [OF False, of "logged nas" ms d s] assms(1,3) by auto
next
  case True
  obtain sz where "refines d (cleanISCSIName (cv_Name req)) sz Fresh s r t"
    by (rule CreateVolume_path [OF True assms(1,2)])
  then obtain p where "create_path d (cleanISCSIName (cv_Name req)) sz (cl s, Fresh) (traffic t) (cl t, p)"
    using assms(3) by (auto simp: refines_def)
  from path_length [OF this] have "length (traffic t) \<le> 9 + length (filter creating_answer (traffic t))"
    using assms(2) by simp
  moreover have "stuck (logged nas) t" if "r = Hang"
  proof -
    obtain sz where "CreateVolume (logged nas) ms d req = provision (logged nas) d (cleanISCSIName (cv_Name req)) sz"
      using True by (rule CreateVolume_accepted)
    then show ?thesis
      using provision_ends [of "logged nas" d "cleanISCSIName (cv_Name req)" sz] assms(1) that
      by (simp add: ends_in_def)
  qed
  ultimately show ?thesis using logged_step unfolding stuck_def endless_def by metis
qed

text \<open>A NAS that never finishes the LUN.\<close>

abbreviation never_done :: "http_reply list observed nas" where
  "never_done \<equiv> logged (replayed (ok (lun_doc ''0'')))"

lemma never_done_step [simp]:
  "never_done q (es, []) = (ok (lun_doc ''0''), (es @ [(q, ok (lun_doc ''0''))], []))"
  by (simp add: logged_def)

lemma never_done_poll:
  assumes "good_client c"
  shows "still_creating never_done l (poll_state never_done l n \<lparr>cl = c, net = (es, [])\<rparr>)"
  by (induction n arbitrary: es)
    (simp_all add: still_creating_def lun_eq assms lun_StatusString_def)

lemma never_done_pollLun:
  "good_client c \<Longrightarrow> pollLun never_done l \<lparr>cl = c, net = (es, [])\<rparr> = None"
  using pollLun_returns_iff never_done_poll by blast

theorem CreateVolume_waits_for_creation_witness:
  "\<exists>t. CreateVolume never_done (\<lambda>_. '''') demo_driver demo_request (replay granted) = (Hang, t)
    \<and> length (traffic t) \<le> 9 + length (filter creating_answer (traffic t))
    \<and> ((\<exists>es q. traffic t = es @ [(q, NoReply)])
        \<or> (\<exists>l. \<forall>n. still_creating never_done l (poll_state never_done l n t)))"
proof -
  obtain t where run: "CreateVolume never_done (\<lambda>_. '''') demo_driver demo_request (replay granted) = (Hang, t)"
    by (simp add: create_run_simps granted_def never_done_pollLun del: pollLun_eq)
  have "good_client (cl (replay granted))" "traffic (replay granted) = []"
    by (simp_all add: replay_def demo_client_good)
  from CreateVolume_waits_for_creation [OF run this] run show ?thesis by blast
qed

end
