(* ===== verification/GoJson.thy ===== *)
theory GoJson
  imports GoUtf8 GoUrl
begin

text \<open>
  Go's \<^verbatim>\<open>json.Unmarshal\<close> into the two types the driver reads: a list of strings and a map
  from strings to strings. Any other value in the text is an error of \<^verbatim>\<open>Unmarshal\<close>, whether
  of syntax or of type, and so is what these parsers do not accept. Texts are byte lists.
\<close>

section \<open>White space and strings\<close>

definition json_ws :: "nat \<Rightarrow> bool" where
  "json_ws b \<longleftrightarrow> b = 32 \<or> b = 9 \<or> b = 10 \<or> b = 13"

definition skip_ws :: "nat list \<Rightarrow> nat list" where
  "skip_ws bs = dropWhile json_ws bs"

definition encode_rune :: "nat \<Rightarrow> nat list" where
  "encode_rune r =
     (if r < 128 then [r]
      else if r < 2048 then [192 + r div 64, 128 + r mod 64]
      else if r < 65536 then [224 + r div 4096, 128 + r div 64 mod 64, 128 + r mod 64]
      else [240 + r div 262144, 128 + r div 4096 mod 64, 128 + r div 64 mod 64, 128 + r mod 64])"

text \<open>Four hexadecimal digits.\<close>

definition hex4 :: "nat list \<Rightarrow> (nat \<times> nat list) option" where
  "hex4 bs =
     (case bs of
        a # b # c # d # rest \<Rightarrow>
          (case (unhex (char_of a), unhex (char_of b), unhex (char_of c), unhex (char_of d)) of
             (Some a', Some b', Some c', Some d') \<Rightarrow> Some (((a' * 16 + b') * 16 + c') * 16 + d', rest)
           | _ \<Rightarrow> None)
      | _ \<Rightarrow> None)"

text \<open>
  A \<^verbatim>\<open>\u\<close> escape: a high surrogate followed by the escape of a low one is a single rune; any
  other surrogate is a replacement rune, and what follows it is read on its own.
\<close>

definition low_surrogate :: "nat list \<Rightarrow> (nat \<times> nat list) option" where
  "low_surrogate bs =
     (case bs of
        a # b # rest \<Rightarrow> if a = 92 \<and> b = 117 then hex4 rest else None
      | _ \<Rightarrow> None)"

definition json_unicode :: "nat \<Rightarrow> nat list \<Rightarrow> nat list \<times> nat list" where
  "json_unicode u rest =
     (if u < 55296 \<or> 57344 \<le> u then (encode_rune u, rest)
      else
        (case low_surrogate rest of
           None \<Rightarrow> (encode_rune RuneError, rest)
         | Some (v, rest') \<Rightarrow>
             if u < 56320 \<and> 56320 \<le> v \<and> v < 57344
             then (encode_rune (65536 + (u - 55296) * 1024 + (v - 56320)), rest')
             else (encode_rune RuneError, rest)))"

definition simple_escape :: "nat \<Rightarrow> nat option" where
  "simple_escape e =
     (if e = 34 \<or> e = 92 \<or> e = 47 then Some e
      else if e = 98 then Some 8
      else if e = 102 then Some 12
      else if e = 110 then Some 10
      else if e = 114 then Some 13
      else if e = 116 then Some 9
      else None)"

text \<open>What follows a backslash.\<close>

definition json_escape :: "nat list \<Rightarrow> (nat list \<times> nat list) option" where
  "json_escape bs =
     (case bs of
        [] \<Rightarrow> None
      | e # rest \<Rightarrow>
          if e = 117 then map_option (\<lambda>(u, rest'). json_unicode u rest') (hex4 rest)
          else map_option (\<lambda>c. ([c], rest)) (simple_escape e))"

lemma hex4_shorter: "hex4 bs = Some (u, rest) \<Longrightarrow> length rest < length bs"
  by (auto simp: hex4_def split: list.splits option.splits)

lemma low_surrogate_shorter: "low_surrogate bs = Some (u, rest) \<Longrightarrow> length rest < length bs"
  by (auto simp: low_surrogate_def dest: hex4_shorter split: list.splits if_splits)

lemma json_unicode_shorter: "json_unicode u bs = (out, rest) \<Longrightarrow> length rest \<le> length bs"
  by (auto simp: json_unicode_def dest!: low_surrogate_shorter split: option.splits if_splits)

lemma json_escape_shorter: "json_escape bs = Some (out, rest) \<Longrightarrow> length rest < length bs"
  by (auto simp: json_escape_def dest!: json_unicode_shorter hex4_shorter split: list.splits if_splits prod.splits)

text \<open>The bytes of a string after its opening quote, with what follows the closing one.\<close>

function json_string :: "nat list \<Rightarrow> (nat list \<times> nat list) option" where
  "json_string [] = None"
| "json_string (b # rest) =
     (if b = 34 then Some ([], rest)
      else if b = 92 then
        (case json_escape rest of
           None \<Rightarrow> None
         | Some (out, rest') \<Rightarrow> map_option (\<lambda>(s, r). (out @ s, r)) (json_string rest'))
      else if b < 32 then None
      else
        (case decode_rune b rest of
           (r, w) \<Rightarrow> map_option (\<lambda>(s, t). (encode_rune r @ s, t)) (json_string (drop (w - 1) rest))))"
  by pat_completeness auto
termination
  by (relation "measure length") (auto dest: json_escape_shorter)

lemma json_string_shorter: "json_string bs = Some (s, rest) \<Longrightarrow> length rest < length bs"
proof (induction bs arbitrary: s rest rule: json_string.induct)
  case (2 b bs)
  consider "b = 34" | "b \<noteq> 34" "b = 92" | "b \<noteq> 34" "b \<noteq> 92" "\<not> b < 32"
    using "2.prems" by (cases "b = 34"; cases "b = 92") (auto split: if_splits)
  then show ?case
  proof cases
    case 2
    with "2.prems" obtain out bs' s' where e: "json_escape bs = Some (out, bs')"
      and "json_string bs' = Some (s', rest)"
      by (auto split: option.splits)
    then have "length rest < length bs'" using "2.IH"(1) [OF 2 e refl] by blast
    then show ?thesis using json_escape_shorter [OF e] by simp
  next
    case 3
    obtain r w where d: "decode_rune b bs = (r, w)" by (cases "decode_rune b bs")
    with 3 "2.prems" obtain s' where "json_string (drop (w - 1) bs) = Some (s', rest)" by auto
    then have "length rest < length (drop (w - 1) bs)" using "2.IH"(2) [OF 3 d [symmetric]] by blast
    then show ?thesis by simp
  qed (use "2.prems" in auto)
qed simp

section \<open>Values\<close>

text \<open>A string, or \<^verbatim>\<open>null\<close>, which leaves a Go string empty.\<close>

definition json_value :: "nat list \<Rightarrow> (nat list \<times> nat list) option" where
  "json_value bs =
     (case bs of
        [] \<Rightarrow> None
      | b # rest \<Rightarrow>
          if b = 34 then json_string rest
          else if take 4 bs = [110, 117, 108, 108] then Some ([], drop 4 bs)
          else None)"

lemma json_value_shorter: "json_value bs = Some (s, rest) \<Longrightarrow> length rest < length bs"
  by (auto simp: json_value_def dest: json_string_shorter split: list.splits if_splits)

lemma skip_ws_length [simp]: "length (skip_ws bs) \<le> length bs"
  by (simp add: skip_ws_def length_dropWhile_le)

lemma skip_ws_Cons: "skip_ws bs = c # rest \<Longrightarrow> length rest < length bs"
  using skip_ws_length [of bs] by simp

text \<open>Elements up to the closing bracket, and members up to the closing brace.\<close>

function json_elements :: "nat list \<Rightarrow> (nat list list \<times> nat list) option" where
  "json_elements bs =
     (case json_value (skip_ws bs) of
        None \<Rightarrow> None
      | Some (v, rest) \<Rightarrow>
          (case skip_ws rest of
             [] \<Rightarrow> None
           | c # rest' \<Rightarrow>
               if c = 44 then map_option (\<lambda>(vs, r). (v # vs, r)) (json_elements rest')
               else if c = 93 then Some ([v], rest')
               else None))"
  by pat_completeness auto
termination
proof (relation "measure length")
  fix bs p v rest c rest'
  assume a: "json_value (skip_ws bs) = Some p" "(v, rest) = p" "skip_ws rest = c # rest'"
  from a(1,2) have "length rest < length (skip_ws bs)" by (auto dest: json_value_shorter)
  moreover have "length rest' < length rest" by (rule skip_ws_Cons [OF a(3)])
  ultimately show "(rest', bs) \<in> measure length"
    unfolding in_measure using skip_ws_length [of bs] by linarith
qed simp

definition json_array :: "nat list \<Rightarrow> (nat list list \<times> nat list) option" where
  "json_array bs =
     (case skip_ws bs of
        c # rest \<Rightarrow> if c = 93 then Some ([], rest) else json_elements bs
      | [] \<Rightarrow> None)"

definition json_member :: "nat list \<Rightarrow> ((nat list \<times> nat list) \<times> nat list) option" where
  "json_member bs =
     (case skip_ws bs of
        [] \<Rightarrow> None
      | q # rest \<Rightarrow>
          if q \<noteq> 34 then None
          else
            (case json_string rest of
               None \<Rightarrow> None
             | Some (k, rest') \<Rightarrow>
                 (case skip_ws rest' of
                    [] \<Rightarrow> None
                  | c # rest'' \<Rightarrow>
                      if c \<noteq> 58 then None
                      else map_option (\<lambda>(v, r). ((k, v), r)) (json_value (skip_ws rest'')))))"

lemma json_member_shorter: "json_member bs = Some (kv, rest) \<Longrightarrow> length rest < length bs"
proof -
  assume "json_member bs = Some (kv, rest)"
  then obtain q r1 k r2 c r3 v where a: "skip_ws bs = q # r1" "json_string r1 = Some (k, r2)"
    "skip_ws r2 = c # r3" "json_value (skip_ws r3) = Some (v, rest)"
    by (auto simp: json_member_def split: list.splits if_splits option.splits)
  show ?thesis
    using skip_ws_Cons [OF a(1)] json_string_shorter [OF a(2)] skip_ws_Cons [OF a(3)]
      json_value_shorter [OF a(4)] skip_ws_length [of r3] by linarith
qed

function json_members :: "nat list \<Rightarrow> ((nat list \<times> nat list) list \<times> nat list) option" where
  "json_members bs =
     (case json_member bs of
        None \<Rightarrow> None
      | Some (kv, rest) \<Rightarrow>
          (case skip_ws rest of
             [] \<Rightarrow> None
           | c # rest' \<Rightarrow>
               if c = 44 then map_option (\<lambda>(kvs, r). (kv # kvs, r)) (json_members rest')
               else if c = 125 then Some ([kv], rest')
               else None))"
  by pat_completeness auto
termination
proof (relation "measure length")
  fix bs p kv rest c rest'
  assume a: "json_member bs = Some p" "(kv, rest) = p" "skip_ws rest = c # rest'"
  from a(1,2) have "length rest < length bs" by (auto dest: json_member_shorter)
  moreover have "length rest' < length rest" by (rule skip_ws_Cons [OF a(3)])
  ultimately show "(rest', bs) \<in> measure length" by simp
qed simp

declare json_elements.simps [simp del] json_members.simps [simp del]

definition json_object :: "nat list \<Rightarrow> ((nat list \<times> nat list) list \<times> nat list) option" where
  "json_object bs =
     (case skip_ws bs of
        c # rest \<Rightarrow> if c = 125 then Some ([], rest) else json_members bs
      | [] \<Rightarrow> None)"

section \<open>Documents\<close>

text \<open>
  \<open>None\<close> is an error. A \<^verbatim>\<open>null\<close> document leaves a nil list or map, which the driver treats
  like an empty one. A map is the list of its members, the last one first, so that of two
  members with one name the later counts.
\<close>

definition to_bytes :: "string \<Rightarrow> nat list" where
  "to_bytes s = map of_char s"

definition of_bytes :: "nat list \<Rightarrow> string" where
  "of_bytes bs = map char_of bs"

definition is_null :: "nat list \<Rightarrow> bool" where
  "is_null bs \<longleftrightarrow> take 4 bs = [110, 117, 108, 108] \<and> skip_ws (drop 4 bs) = []"

definition Unmarshal_strings :: "string \<Rightarrow> string list option" where
  "Unmarshal_strings s =
     (case skip_ws (to_bytes s) of
        [] \<Rightarrow> None
      | b # rest \<Rightarrow>
          if is_null (b # rest) then Some []
          else if b \<noteq> 91 then None
          else
            (case json_array rest of
               None \<Rightarrow> None
             | Some (vs, rest') \<Rightarrow> if skip_ws rest' = [] then Some (map of_bytes vs) else None))"

definition Unmarshal_map :: "string \<Rightarrow> (string \<times> string) list option" where
  "Unmarshal_map s =
     (case skip_ws (to_bytes s) of
        [] \<Rightarrow> None
      | b # rest \<Rightarrow>
          if is_null (b # rest) then Some []
          else if b \<noteq> 123 then None
          else
            (case json_object rest of
               None \<Rightarrow> None
             | Some (kvs, rest') \<Rightarrow>
                 if skip_ws rest' = [] then Some (map (map_prod of_bytes of_bytes) (rev kvs)) else None))"

section \<open>Texts written plainly\<close>

text \<open>
  Strings of printable ASCII without quotes and backslashes are written between quotes as they
  are. A list of such strings, and a map, is read back from its text.
\<close>

definition json_plain :: "string \<Rightarrow> bool" where
  "json_plain s \<longleftrightarrow> list_all (\<lambda>c. 32 \<le> byte c \<and> byte c < 128 \<and> byte c \<noteq> 34 \<and> byte c \<noteq> 92) s"

definition json_quote :: "string \<Rightarrow> string" where
  "json_quote s = CHR 0x22 # s @ [CHR 0x22]"

definition json_list_text :: "string list \<Rightarrow> string" where
  "json_list_text ss = ''['' @ join '','' (map json_quote ss) @ '']''"

definition json_map_text :: "(string \<times> string) list \<Rightarrow> string" where
  "json_map_text kvs = ''{'' @ join '','' (map (\<lambda>(k, v). json_quote k @ '':'' @ json_quote v) kvs) @ ''}''"

lemma bytes_append [simp]: "to_bytes (a @ b) = to_bytes a @ to_bytes b"
  by (simp add: to_bytes_def)

lemma bytes_Cons [simp]: "to_bytes (c # s) = byte c # to_bytes s"
  by (simp add: to_bytes_def)

lemma bytes_Nil [simp]: "to_bytes [] = []"
  by (simp add: to_bytes_def)

lemma of_bytes_to_bytes [simp]: "of_bytes (to_bytes s) = s"
  by (simp add: of_bytes_def to_bytes_def comp_def)

lemma skip_ws_simps [simp]:
  "skip_ws [] = []" "skip_ws (b # bs) = (if json_ws b then skip_ws bs else b # bs)"
  by (simp_all add: skip_ws_def)

lemma json_ws_simps [simp]:
  "\<not> json_ws 34" "\<not> json_ws 44" "\<not> json_ws 58" "\<not> json_ws 91" "\<not> json_ws 93" "\<not> json_ws 110"
  "\<not> json_ws 123" "\<not> json_ws 125" "json_ws 32"
  by (simp_all add: json_ws_def)

lemma json_string_plain: "json_plain s \<Longrightarrow> json_string (to_bytes s @ 34 # rest) = Some (to_bytes s, rest)"
  by (induction s) (auto simp: json_plain_def decode_rune_def encode_rune_def)

lemma json_value_quote:
  "json_plain s \<Longrightarrow> json_value (to_bytes (json_quote s) @ rest) = Some (to_bytes s, rest)"
  using json_string_plain [of s rest] by (simp add: json_value_def json_quote_def)

lemma skip_ws_quote [simp]: "skip_ws (to_bytes (json_quote s) @ rest) = to_bytes (json_quote s) @ rest"
  by (simp add: json_quote_def)

lemma json_elements_plain:
  assumes "ss \<noteq> []" and "\<forall>s\<in>set ss. json_plain s"
  shows "json_elements (to_bytes (join '','' (map json_quote ss)) @ 93 # rest) = Some (map to_bytes ss, rest)"
  using assms
proof (induction ss rule: induct_list012)
  case (2 s)
  then show ?case by (subst json_elements.simps) (simp add: json_value_quote)
next
  case (3 s t ss)
  then show ?case by (subst json_elements.simps) (simp add: json_value_quote)
qed simp

lemma Unmarshal_strings_text:
  assumes "\<forall>s\<in>set ss. json_plain s"
  shows "Unmarshal_strings (json_list_text ss) = Some ss"
proof (cases ss)
  case Nil
  then show ?thesis by (simp add: Unmarshal_strings_def json_list_text_def json_array_def is_null_def)
next
  case (Cons s ts)
  obtain bs where bs: "to_bytes (join '','' (map json_quote ss)) @ [93] = 34 # bs"
    by (cases ts) (simp_all add: Cons json_quote_def)
  have "json_array (34 # bs) = Some (map to_bytes ss, [])"
    using json_elements_plain [of ss "[]"] assms Cons bs by (simp add: json_array_def)
  then show ?thesis using bs by (simp add: Unmarshal_strings_def json_list_text_def is_null_def comp_def)
qed

lemma json_member_plain:
  assumes "json_plain k" and "json_plain v"
  shows "json_member (to_bytes (json_quote k) @ 58 # to_bytes (json_quote v) @ rest)
    = Some ((to_bytes k, to_bytes v), rest)"
proof -
  have "json_value (34 # to_bytes v @ 34 # rest) = Some (to_bytes v, rest)"
    using json_string_plain [OF assms(2), of rest] by (simp add: json_value_def)
  then show ?thesis
    by (simp add: json_member_def json_quote_def json_string_plain [OF assms(1)])
qed

lemma json_members_plain:
  assumes "kvs \<noteq> []" and "\<forall>(k, v)\<in>set kvs. json_plain k \<and> json_plain v"
  shows "json_members (to_bytes (join '','' (map (\<lambda>(k, v). json_quote k @ '':'' @ json_quote v) kvs)) @ 125 # rest)
    = Some (map (map_prod to_bytes to_bytes) kvs, rest)"
  using assms
proof (induction kvs rule: induct_list012)
  case (2 kv)
  then show ?case by (subst json_members.simps) (auto simp: json_member_plain split: prod.splits)
next
  case (3 kv kv' kvs)
  then show ?case by (subst json_members.simps) (auto simp: json_member_plain split: prod.splits)
qed simp

lemma Unmarshal_map_text:
  assumes "\<forall>(k, v)\<in>set kvs. json_plain k \<and> json_plain v"
  shows "Unmarshal_map (json_map_text kvs) = Some (rev kvs)"
proof (cases kvs)
  case Nil
  then show ?thesis by (simp add: Unmarshal_map_def json_map_text_def json_object_def is_null_def)
next
  case (Cons kv ts)
  obtain k v where kv: "kv = (k, v)" by (cases kv)
  obtain bs where bs: "to_bytes (join '','' (map (\<lambda>(k, v). json_quote k @ '':'' @ json_quote v) kvs)) @ [125]
      = 34 # bs"
    by (cases ts) (simp_all add: Cons kv json_quote_def)
  have "json_object (34 # bs) = Some (map (map_prod to_bytes to_bytes) kvs, [])"
    using json_members_plain [of kvs "[]"] assms Cons bs by (simp add: json_object_def)
  moreover have "map (map_prod of_bytes of_bytes) (rev (map (map_prod to_bytes to_bytes) kvs)) = rev kvs"
    by (simp add: rev_map comp_def map_prod_def split_beta)
  ultimately show ?thesis using bs by (simp add: Unmarshal_map_def json_map_text_def is_null_def)
qed

interpretation json_strings: codec json_list_text Unmarshal_strings "list_all json_plain"
  by unfold_locales (simp add: list_all_iff Unmarshal_strings_text)

end
