(* ===== verification/IscsiParams.thy ===== *)
theory IscsiParams
  imports Driver GoJson
begin

text \<open>
  \<^verbatim>\<open>driver/iscsi_iscsi.go\<close>: what the node service reads from a publish request, the volume
  context with its portals and secrets, and the connector it builds for the iSCSI library. A
  Go map read by name only is an association list.
\<close>

section \<open>Requests\<close>

record nodePublishVolumeRequest =
  np_VolumeId :: string
  np_TargetPath :: string
  np_VolumeCapability :: "capability option"
  np_Readonly :: bool
  np_VolumeContext :: "string \<rightharpoonup> string"

text \<open>Reading a Go map of strings: the zero value for a missing key.\<close>

definition ctx :: "(string \<rightharpoonup> string) \<Rightarrow> string \<Rightarrow> string" where
  "ctx m k = (case m k of None \<Rightarrow> '''' | Some v \<Rightarrow> v)"

definition GetFsType :: "capability option \<Rightarrow> string" where
  "GetFsType cap =
     (case Option.bind cap AccessType of Some (Mount fs flags) \<Rightarrow> fs | _ \<Rightarrow> '''')"

definition GetMountFlags :: "capability option \<Rightarrow> string list" where
  "GetMountFlags cap =
     (case Option.bind cap AccessType of Some (Mount fs flags) \<Rightarrow> flags | _ \<Rightarrow> [])"

text \<open>
  The errors of reading a request: a text of the driver, or an error of the standard library
  about the given input, whose wording is not the driver's.
\<close>

datatype info_error = InfoText string | JsonError string | AtoiError string

section \<open>Types\<close>

record secrets =
  SecretsType :: string
  sec_UserName :: string
  sec_Password :: string
  sec_UserNameIn :: string
  sec_PasswordIn :: string

definition no_secrets :: secrets where
  "no_secrets = \<lparr>SecretsType = '''', sec_UserName = '''', sec_Password = '''', sec_UserNameIn = '''',
     sec_PasswordIn = ''''\<rparr>"

record iscsiDisk =
  Portals :: "string list"
  disk_Iqn :: string
  disk_lun :: int
  Iface :: string
  chapDiscovery :: bool
  chapSession :: bool
  disk_secret :: "(string \<times> string) list"
  sessionSecret :: secrets
  discoverySecret :: secrets
  InitiatorName :: string
  VolName :: string

text \<open>
  The connector of the iSCSI library: the fields the driver fills. What the library keeps in
  its other fields belongs to the host.
\<close>

record connector =
  VolumeName :: string
  TargetIqn :: string
  TargetPortals :: "string list"
  con_Lun :: int
  DoDiscovery :: bool
  SessionSecrets :: secrets
  DiscoverySecrets :: secrets

section \<open>Portals and secrets\<close>

definition portalMounter :: "string \<Rightarrow> string" where
  "portalMounter portal = (if CHR '':'' \<notin> set portal then portal @ '':3260'' else portal)"

definition parseSecret :: "string \<Rightarrow> (string \<times> string) list" where
  "parseSecret secretParams = (case Unmarshal_map secretParams of None \<Rightarrow> [] | Some secret \<Rightarrow> secret)"

fun read_keys :: "(string \<times> string) list \<Rightarrow> string list \<Rightarrow> info_error + string list" where
  "read_keys secretParams [] = Inr []"
| "read_keys secretParams (k # ks) =
     (case map_of secretParams k of
        None \<Rightarrow> Inl (InfoText (k @ '' not found in secret''))
      | Some v \<Rightarrow> (case read_keys secretParams ks of Inl e \<Rightarrow> Inl e | Inr vs \<Rightarrow> Inr (v # vs)))"

definition chap_keys :: "string \<Rightarrow> string list" where
  "chap_keys prefix = [prefix @ ''username'', prefix @ ''password'', prefix @ ''username_in'', prefix @ ''password_in'']"

definition chap_secrets :: "string list \<Rightarrow> secrets" where
  "chap_secrets vs = \<lparr>SecretsType = ''chap'', sec_UserName = vs ! 0, sec_Password = vs ! 1,
     sec_UserNameIn = vs ! 2, sec_PasswordIn = vs ! 3\<rparr>"

definition parseSessionSecret :: "(string \<times> string) list \<Rightarrow> info_error + secrets" where
  "parseSessionSecret secretParams =
     (if secretParams = [] then Inr no_secrets
      else (case read_keys secretParams (chap_keys ''node.session.auth.'') of
              Inl e \<Rightarrow> Inl e
            | Inr vs \<Rightarrow> Inr (chap_secrets vs)))"

definition parseDiscoverySecret :: "(string \<times> string) list \<Rightarrow> info_error + secrets" where
  "parseDiscoverySecret secretParams =
     (if secretParams = [] then Inr no_secrets
      else (case read_keys secretParams (chap_keys ''node.sendtargets.auth.'') of
              Inl e \<Rightarrow> Inl e
            | Inr vs \<Rightarrow> Inr (chap_secrets vs)))"

section \<open>Reading a request\<close>

text \<open>The portals, then the LUN, once the secrets are read.\<close>

definition diskInfo :: "nodePublishVolumeRequest \<Rightarrow> (string \<times> string) list \<Rightarrow> secrets \<Rightarrow> secrets
    \<Rightarrow> info_error + iscsiDisk" where
  "diskInfo req secret session discovery =
     (let c = ctx (np_VolumeContext req)
      in case Unmarshal_strings (c ''portals'') of
           None \<Rightarrow> Inl (JsonError (c ''portals''))
         | Some portals \<Rightarrow>
             (case Atoi (c ''lun'') of
                None \<Rightarrow> Inl (AtoiError (c ''lun''))
              | Some l \<Rightarrow> Inr
                  \<lparr>Portals = portalMounter (c ''targetPortal'') # map portalMounter portals,
                   disk_Iqn = c ''iqn'', disk_lun = to_int32 l, Iface = c ''iscsiInterface'',
                   chapDiscovery = (c ''discoveryCHAPAuth'' = ''true''),
                   chapSession = (c ''sessionCHAPAuth'' = ''true''),
                   disk_secret = secret, sessionSecret = session, discoverySecret = discovery,
                   InitiatorName = c ''initiatorName'', VolName = np_VolumeId req\<rparr>))"

definition getISCSIInfo :: "nodePublishVolumeRequest \<Rightarrow> info_error + iscsiDisk" where
  "getISCSIInfo req =
     (let c = ctx (np_VolumeContext req)
      in if c ''targetPortal'' = '''' \<or> c ''iqn'' = '''' \<or> c ''lun'' = ''''
         then Inl (InfoText ''ISCSI target information is missing'')
         else
           (let secret = parseSecret (c ''secret'')
            in case parseSessionSecret secret of
                 Inl err \<Rightarrow> Inl err
               | Inr session \<Rightarrow>
                   (case parseDiscoverySecret secret of
                      Inl err \<Rightarrow> Inl err
                    | Inr discovery \<Rightarrow> diskInfo req secret session discovery)))"

section \<open>The connector and the mounter\<close>

text \<open>\<open>None\<close> is a nil pointer.\<close>

definition buildISCSIConnector :: "iscsiDisk option \<Rightarrow> connector option" where
  "buildISCSIConnector iscsiInfo =
     (case iscsiInfo of
        None \<Rightarrow> None
      | Some info \<Rightarrow>
          if VolName info = '''' \<or> disk_Iqn info = '''' \<or> Portals info = [] then None
          else Some
            \<lparr>VolumeName = VolName info, TargetIqn = disk_Iqn info, TargetPortals = Portals info,
             con_Lun = disk_lun info, DoDiscovery = True,
             SessionSecrets = (if sessionSecret info \<noteq> no_secrets then sessionSecret info else no_secrets),
             DiscoverySecrets =
               (if sessionSecret info \<noteq> no_secrets \<and> discoverySecret info \<noteq> no_secrets
                then discoverySecret info else no_secrets)\<rparr>)"

record iscsiDiskMounter =
  dm_disk :: iscsiDisk
  dm_readOnly :: bool
  dm_fsType :: string
  dm_mountOptions :: "string list"
  dm_targetPath :: string
  dm_connector :: "connector option"

definition getISCSIDiskMounter :: "iscsiDisk \<Rightarrow> nodePublishVolumeRequest \<Rightarrow> iscsiDiskMounter" where
  "getISCSIDiskMounter iscsiInfo req =
     \<lparr>dm_disk = iscsiInfo, dm_readOnly = np_Readonly req, dm_fsType = GetFsType (np_VolumeCapability req),
      dm_mountOptions = GetMountFlags (np_VolumeCapability req), dm_targetPath = np_TargetPath req,
      dm_connector = buildISCSIConnector (Some iscsiInfo)\<rparr>"

text \<open>Of the unmounter only the name of the volume is set.\<close>

record iscsiDiskUnmounter =
  du_VolName :: string

record nodeUnpublishVolumeRequest =
  nu_VolumeId :: string
  nu_TargetPath :: string

definition getISCSIDiskUnmounter :: "nodeUnpublishVolumeRequest \<Rightarrow> iscsiDiskUnmounter" where
  "getISCSIDiskUnmounter req = \<lparr>du_VolName = nu_VolumeId req\<rparr>"

end
