(* ===== verification/Disks.thy ===== *)
theory Disks
  imports IscsiParams
begin

text \<open>
  \<^verbatim>\<open>driver/iscsi_util.go\<close>: attaching and detaching a disk. The iSCSI library, the mount
  utilities and the file system are parameters, the record \<open>host\<close>; each of its operations
  takes the hidden state \<open>'w\<close> of the machine. Nothing is assumed of them here. The errors of the
  two routines are the texts the node service reports.
\<close>

section \<open>The host\<close>

text \<open>An error of the host, and whether \<^verbatim>\<open>os.IsNotExist\<close> holds of it.\<close>

record os_error =
  os_notExist :: bool
  os_text :: string

text \<open>
  An operation answers, fails, or blocks: none of the calls is given a deadline, and the context
  of the request is not passed on.
\<close>

datatype 'a answer = Answer 'a | Error os_error | Blocked

type_synonym ('w, 'a) op = "'w \<Rightarrow> 'a answer \<times> 'w"

text \<open>
  A method of the connector may update it. The mount point heuristic returns its verdict
  beside an error, and \<open>None\<close> is a heuristic that blocks; the other operations return a value or
  an error.
\<close>

record 'w host =
  Connect :: "connector \<Rightarrow> ('w, string \<times> connector) op"
  DisconnectVolume :: "connector \<Rightarrow> ('w, connector) op"
  Disconnect :: "string \<Rightarrow> string list \<Rightarrow> ('w, unit) op"
  PersistConnector :: "connector \<Rightarrow> string \<Rightarrow> ('w, unit) op"
  GetConnectorFromFile :: "string \<Rightarrow> ('w, connector) op"
  IsLikelyNotMountPoint :: "string \<Rightarrow> 'w \<Rightarrow> (bool \<times> os_error option) option \<times> 'w"
  FormatAndMount :: "string \<Rightarrow> string \<Rightarrow> string \<Rightarrow> string list \<Rightarrow> ('w, unit) op"
  Unmount :: "string \<Rightarrow> ('w, unit) op"
  GetDeviceNameFromMount :: "string \<Rightarrow> ('w, string \<times> int) op"
  PathExists :: "string \<Rightarrow> ('w, bool) op"
  MkdirAll :: "string \<Rightarrow> nat \<Rightarrow> ('w, unit) op"
  RemoveAll :: "string \<Rightarrow> ('w, unit) op"
  Remove :: "string \<Rightarrow> ('w, unit) op"

definition call :: "('w, 'a) op \<Rightarrow> ('w, os_error, 'a) io" where
  "call m w =
     (case m w of
        (Error e, w') \<Rightarrow> (Fail e, w')
      | (Answer a, w') \<Rightarrow> (Ret a, w')
      | (Blocked, w') \<Rightarrow> (Hang, w'))"

lemma call_cases [consumes 1, case_names Ret Fail Hang]:
  assumes "call m w = (r, w')"
  obtains a where "r = Ret a" and "m w = (Answer a, w')"
  | e where "r = Fail e" and "m w = (Error e, w')"
  | "r = Hang" and "m w = (Blocked, w')"
  using assms by (auto simp: call_def split: prod.splits answer.splits)

lemma call_not [simp]: "call m w \<noteq> (Panic, w')"
  by (auto simp: call_def split: prod.splits answer.splits)

lemma onErr_call_cases [consumes 1, case_names Ret Fail Hang]:
  assumes "onErr (call m) h k w = (r, w')"
  obtains a u where "call m w = (Ret a, u)" and "k a u = (r, w')"
  | e u where "call m w = (Fail e, u)" and "h e u = (r, w')"
  | "call m w = (Hang, w')" and "r = Hang"
  using assms by (rule onErr_cases) auto

lemma ignoring_call_cases [consumes 1, case_names run Hang]:
  assumes "ignoring (call m) k w = (r, w')"
  obtains r' u where "call m w = (r', u)" and "k u = (r, w')"
  | "call m w = (Hang, w')" and "r = Hang"
  using assms by (rule ignoring_cases) auto

definition os_fail :: "os_error \<Rightarrow> ('w, string, 'a) io" where
  "os_fail e = fail (os_text e)"

section \<open>Attaching\<close>

text \<open>From the last stage to the first; each stage ends in the next. \<open>488\<close> is \<^verbatim>\<open>0o750\<close>.\<close>

definition mountDevice :: "'w host \<Rightarrow> iscsiDiskMounter \<Rightarrow> string \<Rightarrow> connector \<Rightarrow> string
    \<Rightarrow> ('w, string, string) io" where
  "mountDevice host b iscsiInfoPath c devicePath =
     onErr (call (MkdirAll host (dm_targetPath b) 488)) os_fail (\<lambda>_.
     onErr (call (PersistConnector host c iscsiInfoPath))
       (\<lambda>_. fail ''unable to create persistence file for connection'') (\<lambda>_.
     let options = (if dm_readOnly b then ''ro'' else ''rw'') # dm_mountOptions b
     in onErr (call (FormatAndMount host devicePath (dm_targetPath b) (dm_fsType b) options)) os_fail
          (\<lambda>_. ret devicePath)))"

definition attachDevice :: "'w host \<Rightarrow> iscsiDiskMounter \<Rightarrow> string \<Rightarrow> connector \<Rightarrow> string
    \<Rightarrow> ('w, string, string) io" where
  "attachDevice host b iscsiInfoPath c devicePath w =
     (case IsLikelyNotMountPoint host (dm_targetPath b) w of
        (None, w') \<Rightarrow> (Hang, w')
      | (Some (notMnt, err), w') \<Rightarrow>
          (case err of
             Some e \<Rightarrow>
               if \<not> os_notExist e
               then (Fail (''heuristic determination of mount point failed:'' @ os_text e), w')
               else if \<not> notMnt then (Ret '''', w')
               else mountDevice host b iscsiInfoPath c devicePath w'
           | None \<Rightarrow>
               if \<not> notMnt then (Ret '''', w')
               else mountDevice host b iscsiInfoPath c devicePath w'))"

definition AttachDisk :: "'w host \<Rightarrow> iscsiDiskMounter \<Rightarrow> string \<Rightarrow> ('w, string, string) io" where
  "AttachDisk host b iscsiInfoPath =
     (case dm_connector b of
        None \<Rightarrow> panic
      | Some connector \<Rightarrow>
          onErr (call (Connect host connector)) os_fail (\<lambda>(devicePath, c).
          if devicePath = '''' then fail ''connect reported success, but no path returned''
          else attachDevice host b iscsiInfoPath c devicePath))"

section \<open>Detaching\<close>

definition detachDevice :: "'w host \<Rightarrow> string \<Rightarrow> string \<Rightarrow> connector \<Rightarrow> ('w, string, unit) io" where
  "detachDevice host targetPath iscsiInfoPath c =
     onErr (call (DisconnectVolume host c)) os_fail (\<lambda>c'.
     ignoring (call (Disconnect host (TargetIqn c') (TargetPortals c')))
       (ignoring (call (RemoveAll host targetPath))
         (onErr (call (Remove host iscsiInfoPath)) os_fail ret)))"

definition DetachDisk :: "'w host \<Rightarrow> iscsiDiskUnmounter \<Rightarrow> string \<Rightarrow> string \<Rightarrow> ('w, string, unit) io" where
  "DetachDisk host c targetPath iscsiInfoPath =
     onErr (call (GetDeviceNameFromMount host targetPath)) os_fail (\<lambda>(_, cnt).
     onErr (call (PathExists host targetPath))
       (\<lambda>pathErr. fail (''error checking if path exists: '' @ os_text pathErr)) (\<lambda>pathExists.
     if \<not> pathExists then ret ()
     else
       onErr (call (GetConnectorFromFile host iscsiInfoPath))
         (\<lambda>err. if os_notExist err then ret ()
                else fail (''rpc error: code = Internal desc = '' @ os_text err)) (\<lambda>connector.
       onErr (call (Unmount host targetPath)) os_fail (\<lambda>_.
       if cnt - 1 \<noteq> 0 then ret ()
       else detachDevice host targetPath iscsiInfoPath connector))))"

end
