(* ===== verification/GoPath.thy ===== *)
theory GoPath
  imports GoText
begin

text \<open>
  Go's \<^verbatim>\<open>path\<close> package: \<^verbatim>\<open>Clean\<close>, \<^verbatim>\<open>Join\<close> and \<^verbatim>\<open>Dir\<close> on slash-separated paths, with
  the shape of a cleaned path and the laws the driver relies on for the files it keeps.
\<close>

section \<open>Cleaning\<close>

text \<open>
  The components are read left to right onto a stack, here in reverse: empty components and
  dots are dropped, a double dot removes the component before it, is dropped at the root, and
  is kept at the start of a relative path.
\<close>

fun clean_parts :: "bool \<Rightarrow> string list \<Rightarrow> string list \<Rightarrow> string list" where
  "clean_parts rooted acc [] = rev acc"
| "clean_parts rooted acc (c # cs) =
     (if c = '''' \<or> c = ''.'' then clean_parts rooted acc cs
      else if c = ''..'' then
        (if acc \<noteq> [] \<and> hd acc \<noteq> ''..'' then clean_parts rooted (tl acc) cs
         else if rooted then clean_parts rooted acc cs
         else clean_parts rooted (''..'' # acc) cs)
      else clean_parts rooted (c # acc) cs)"

definition rooted :: "string \<Rightarrow> bool" where
  "rooted s \<longleftrightarrow> s \<noteq> [] \<and> hd s = CHR ''/''"

definition path_of :: "bool \<Rightarrow> string list \<Rightarrow> string" where
  "path_of r parts =
     (if \<not> r \<and> parts = [] then ''.'' else (if r then ''/'' else '''') @ join ''/'' parts)"

definition Clean :: "string \<Rightarrow> string" where
  "Clean s = path_of (rooted s) (clean_parts (rooted s) [] (split_on (CHR ''/'') s))"

definition Join2 :: "string \<Rightarrow> string \<Rightarrow> string" where
  "Join2 a b = (if a \<noteq> [] then Clean (a @ ''/'' @ b) else if b \<noteq> [] then Clean b else [])"

definition Dir :: "string \<Rightarrow> string" where
  "Dir s = Clean (rev (dropWhile (\<lambda>c. c \<noteq> CHR ''/'') (rev s)))"

section \<open>Cleaned paths\<close>

definition plain_part :: "string \<Rightarrow> bool" where
  "plain_part c \<longleftrightarrow> c \<noteq> '''' \<and> c \<noteq> ''.'' \<and> c \<noteq> ''..'' \<and> CHR ''/'' \<notin> set c"

text \<open>Plain components, after double dots if the path is relative.\<close>

definition normal_parts :: "bool \<Rightarrow> string list \<Rightarrow> bool" where
  "normal_parts r parts \<longleftrightarrow>
     (\<exists>n rest. parts = replicate n ''..'' @ rest \<and> list_all plain_part rest \<and> (r \<longrightarrow> n = 0))"

lemma plain_part_simps [simp]: "\<not> plain_part ''''" "\<not> plain_part ''.''" "\<not> plain_part ''..''"
  by (simp_all add: plain_part_def)

lemma split_on_parts: "\<forall>w\<in>set (split_on sep s). sep \<notin> set w"
  by (induction s) (auto split: list.splits)

lemma normal_Nil [simp]: "normal_parts r []"
  unfolding normal_parts_def by (intro exI [of _ 0] exI [of _ "[]"]) simp

lemma normal_pop:
  assumes "normal_parts r (parts @ [c])"
  shows "normal_parts r parts"
proof -
  obtain n rest where n: "parts @ [c] = replicate n ''..'' @ rest" "list_all plain_part rest" "r \<longrightarrow> n = 0"
    using assms by (auto simp: normal_parts_def)
  show ?thesis
  proof (cases rest rule: rev_cases)
    case Nil
    then obtain m where "n = Suc m" using n(1) by (cases n) auto
    with n(1) Nil have "parts = replicate (n - 1) ''..''" by (simp flip: replicate_append_same)
    with n(3) show ?thesis unfolding normal_parts_def by (intro exI [of _ "n - 1"] exI [of _ "[]"]) auto
  next
    case (snoc ys y)
    with n show ?thesis unfolding normal_parts_def by (intro exI [of _ n] exI [of _ ys]) auto
  qed
qed

lemma normal_push:
  assumes "normal_parts r parts" and "plain_part c"
  shows "normal_parts r (parts @ [c])"
proof -
  obtain n rest where "parts = replicate n ''..'' @ rest" "list_all plain_part rest" "r \<longrightarrow> n = 0"
    using assms(1) by (auto simp: normal_parts_def)
  with assms(2) show ?thesis unfolding normal_parts_def by (intro exI [of _ n] exI [of _ "rest @ [c]"]) simp
qed

lemma normal_dots:
  assumes "normal_parts False parts" and "parts = [] \<or> last parts = ''..''"
  shows "normal_parts False (parts @ [''..''])"
proof -
  obtain n rest where n: "parts = replicate n ''..'' @ rest" "list_all plain_part rest"
    using assms(1) by (auto simp: normal_parts_def)
  have "rest = []"
    using n assms(2) by (cases rest rule: rev_cases) auto
  with n(1) have "parts @ [''..''] = replicate (Suc n) ''..'' @ []" by (simp add: replicate_append_same)
  then show ?thesis unfolding normal_parts_def by (intro exI [of _ "Suc n"] exI [of _ "[]"]) simp
qed

lemma clean_parts_normal:
  assumes "normal_parts r (rev acc)" and "\<forall>c\<in>set cs. CHR ''/'' \<notin> set c"
  shows "normal_parts r (clean_parts r acc cs)"
  using assms
proof (induction r acc cs rule: clean_parts.induct)
  case (2 r acc c cs)
  consider "c = '''' \<or> c = ''.''" | "c = ''..''" "acc \<noteq> []" "hd acc \<noteq> ''..''"
    | "c = ''..''" "acc = [] \<or> hd acc = ''..''" | "plain_part c"
    using 2 by (auto simp: plain_part_def)
  then show ?case
  proof cases
    case 2
    then have "normal_parts r (rev (tl acc))"
      using normal_pop [of r "rev (tl acc)" "hd acc"] "2.prems"(1)
      by (metis list.collapse rev.simps(2))
    then show ?thesis using 2 "2.IH" "2.prems" by simp
  next
    case 3
    then have "parts = [] \<or> last parts = ''..''" if "parts = rev acc" for parts
      using that by (auto simp: last_rev)
    then show ?thesis using 3 "2.IH" "2.prems" normal_dots [of "rev acc"] by auto
  next
    case 4
    then show ?thesis using "2.IH" "2.prems" normal_push [of r "rev acc" c] by auto
  qed (use "2.IH" "2.prems" in auto)
qed simp

lemma clean_parts_plain: "list_all plain_part cs \<Longrightarrow> clean_parts r acc cs = rev acc @ cs"
  by (induction cs arbitrary: acc) (auto simp: plain_part_def)

lemma clean_parts_dots: "acc = [] \<or> hd acc = ''..'' \<Longrightarrow>
  clean_parts False acc (replicate n ''..'' @ cs) = clean_parts False (replicate n ''..'' @ acc) cs"
proof (induction n arbitrary: acc)
  case (Suc n)
  have "clean_parts False acc (replicate (Suc n) ''..'' @ cs) =
      clean_parts False (''..'' # acc) (replicate n ''..'' @ cs)"
    using Suc.prems by auto
  also have "\<dots> = clean_parts False (replicate n ''..'' @ ''..'' # acc) cs" by (rule Suc.IH) simp
  finally show ?case by (simp add: replicate_app_Cons_same)
qed simp

lemma clean_parts_id:
  assumes "normal_parts r parts"
  shows "clean_parts r [] parts = parts"
proof -
  obtain n rest where n: "parts = replicate n ''..'' @ rest" "list_all plain_part rest" "r \<longrightarrow> n = 0"
    using assms by (auto simp: normal_parts_def)
  then show ?thesis by (cases r) (simp_all add: clean_parts_dots clean_parts_plain)
qed

lemma normal_no_slash: "normal_parts r parts \<Longrightarrow> \<forall>c\<in>set parts. CHR ''/'' \<notin> set c \<and> c \<noteq> []"
proof
  fix c
  assume n: "normal_parts r parts" and c: "c \<in> set parts"
  from n obtain n rest where "parts = replicate n ''..'' @ rest" and rest: "list_all plain_part rest"
    unfolding normal_parts_def by blast
  with c have "c = ''..'' \<or> c \<in> set rest" by simp blast
  then show "CHR ''/'' \<notin> set c \<and> c \<noteq> []"
    using rest by (elim disjE) (simp_all add: list_all_iff plain_part_def)
qed

lemma join_head:
  assumes "parts \<noteq> []" and "\<forall>c\<in>set parts. CHR ''/'' \<notin> set c \<and> c \<noteq> []"
  shows "join sep parts \<noteq> []" and "hd (join sep parts) \<noteq> CHR ''/''"
proof -
  obtain c cs where c: "parts = c # cs" using assms(1) by (cases parts) auto
  obtain x xs where x: "c = x # xs" using assms(2) c by (cases c) auto
  have "join sep parts = x # xs @ (if cs = [] then [] else sep @ join sep cs)"
    by (cases cs) (simp_all add: c x)
  moreover have "x \<noteq> CHR ''/''" using assms(2) by (auto simp: c x)
  ultimately show "join sep parts \<noteq> []" and "hd (join sep parts) \<noteq> CHR ''/''"
    by simp_all
qed

lemma path_of_split:
  assumes "normal_parts r parts"
  shows "rooted (path_of r parts) = r"
    and "clean_parts r [] (split_on (CHR ''/'') (path_of r parts)) = parts"
proof -
  have no: "\<forall>c\<in>set parts. CHR ''/'' \<notin> set c" using normal_no_slash [OF assms] by auto
  show "rooted (path_of r parts) = r"
    using join_head [OF _ normal_no_slash [OF assms], of "''/''"]
    by (cases "parts = []") (auto simp: path_of_def rooted_def)
  show "clean_parts r [] (split_on (CHR ''/'') (path_of r parts)) = parts"
  proof (cases "parts = []")
    case True
    then show ?thesis by (simp add: path_of_def)
  next
    case False
    have s: "split_on (CHR ''/'') (join ''/'' parts) = parts" using split_join [OF False no] .
    show ?thesis using False clean_parts_id [OF assms] by (cases r) (simp_all add: path_of_def s)
  qed
qed

lemma Clean_path_of: "normal_parts r parts \<Longrightarrow> Clean (path_of r parts) = path_of r parts"
  by (simp add: Clean_def path_of_split)

lemma Clean_normal: "\<exists>parts. normal_parts (rooted s) parts \<and> Clean s = path_of (rooted s) parts"
proof (intro exI conjI)
  show "normal_parts (rooted s) (clean_parts (rooted s) [] (split_on (CHR ''/'') s))"
    by (rule clean_parts_normal) (simp_all add: split_on_parts)
qed (simp add: Clean_def)

lemma Clean_idem: "Clean (Clean s) = Clean s"
  using Clean_normal [of s] Clean_path_of by auto

section \<open>Files in a directory\<close>

lemma split_on_nonempty: "split_on sep s \<noteq> []"
  by (cases "(sep, s)" rule: split_on.cases) (auto split: list.splits)

lemma split_on_append_sep:
  "split_on sep (a @ sep # b) = split_on sep a @ split_on sep b"
proof (induction a)
  case (Cons c a)
  then show ?case using split_on_nonempty [of sep a] by (auto split: list.splits)
qed simp

lemma clean_parts_append:
  "clean_parts r acc (cs @ ds) = clean_parts r (rev (clean_parts r acc cs)) ds"
  by (induction r acc cs rule: clean_parts.induct) auto

lemma join_snoc: "parts \<noteq> [] \<Longrightarrow> join sep (parts @ [c]) = join sep parts @ sep @ c"
  by (induction parts rule: induct_list012) auto

text \<open>A plain component joined to a cleaned rooted directory is a file of that directory.\<close>

lemma Join2_plain:
  assumes "rooted dir" and "Clean dir = dir" and "plain_part c"
  shows "Join2 dir c = (if dir = ''/'' then '''' else dir) @ ''/'' @ c"
proof -
  obtain parts where parts: "normal_parts True parts" "dir = path_of True parts"
    using Clean_normal [of dir] assms(1,2) by auto
  have ne: "dir \<noteq> []" using assms(1) by (simp add: rooted_def)
  have "split_on (CHR ''/'') c = [c]" using assms(3) by (simp add: plain_part_def split_on_no_sep)
  moreover have "rooted (dir @ ''/'' @ c)" using assms(1) ne by (simp add: rooted_def)
  moreover have "clean_parts True (rev parts) [c] = parts @ [c]" using assms(3) by (auto simp: plain_part_def)
  ultimately have "Join2 dir c = path_of True (parts @ [c])"
    using path_of_split(2) [OF parts(1)] ne
    by (simp add: Join2_def Clean_def split_on_append_sep clean_parts_append flip: parts(2))
  moreover have "dir = ''/'' \<longleftrightarrow> parts = []"
    using parts(2) normal_no_slash [OF parts(1)] join_Nil_iff [of parts "''/''"] by (auto simp: path_of_def)
  ultimately show ?thesis using parts(2) by (simp add: path_of_def join_snoc)
qed

lemma Join2_plain_inject:
  assumes "rooted dir" and "Clean dir = dir" and "plain_part c" and "plain_part c'"
  shows "Join2 dir c = Join2 dir c' \<longleftrightarrow> c = c'"
  by (simp add: Join2_plain [OF assms(1,2)] assms(3,4))

end
