(* ===== verification/Node.thy ===== *)
theory Node
  imports Disks GoPath
begin

text \<open>
  \<^verbatim>\<open>driver/node.go\<close>: the node service. Its handlers run on the machine the node is, the
  \<open>host\<close>. The wording of errors of the standard library is the parameter \<open>libText\<close>.
\<close>

section \<open>Node information\<close>

definition NodeGetInfo :: "driver \<Rightarrow> ('w, status, string) io" where
  "NodeGetInfo d = ret (d_nodeID d)"

datatype nodeRPC = NODE_UNKNOWN

definition NodeGetCapabilities :: "('w, status, nodeRPC list) io" where
  "NodeGetCapabilities = ret [NODE_UNKNOWN]"

definition NodeStageVolume :: "('w, status, unit) io" where
  "NodeStageVolume = ret ()"

definition NodeUnstageVolume :: "('w, status, unit) io" where
  "NodeUnstageVolume = ret ()"

definition NodeGetVolumeStats :: "('w, status, unit) io" where
  "NodeGetVolumeStats = fail (Status Unimplemented ''not implemented'')"

definition NodeExpandVolume :: "('w, status, unit) io" where
  "NodeExpandVolume = fail (Status Unimplemented ''not implemented'')"

section \<open>Publishing\<close>

definition getISCSILibConfigPath :: "driver \<Rightarrow> string \<Rightarrow> string" where
  "getISCSILibConfigPath d volId = Join2 (d_configDir d) (volId @ ''.json'')"

definition info_text :: "(info_error \<Rightarrow> string) \<Rightarrow> info_error \<Rightarrow> string" where
  "info_text libText e = (case e of InfoText s \<Rightarrow> s | _ \<Rightarrow> libText e)"

definition NodePublishVolume :: "'w host \<Rightarrow> (info_error \<Rightarrow> string) \<Rightarrow> driver \<Rightarrow> nodePublishVolumeRequest
    \<Rightarrow> ('w, status, unit) io" where
  "NodePublishVolume host libText d req =
     (if np_VolumeCapability req = None then
        fail (Status InvalidArgument ''volume capability missing in request'')
      else if np_VolumeId req = '''' then fail (Status InvalidArgument ''volumeID missing in request'')
      else if np_TargetPath req = '''' then fail (Status InvalidArgument ''targetPath not provided'')
      else
        (case getISCSIInfo req of
           Inl err \<Rightarrow> fail (Status Internal (info_text libText err))
         | Inr iscsiInfo \<Rightarrow>
             onErr (AttachDisk host (getISCSIDiskMounter iscsiInfo req)
                      (getISCSILibConfigPath d (np_VolumeId req)))
               (\<lambda>err. fail (Status Internal err)) (\<lambda>_. ret ())))"

definition NodeUnpublishVolume :: "'w host \<Rightarrow> driver \<Rightarrow> nodeUnpublishVolumeRequest
    \<Rightarrow> ('w, status, unit) io" where
  "NodeUnpublishVolume host d req =
     (if nu_VolumeId req = '''' then fail (Status InvalidArgument ''Volume ID missing in request'')
      else if nu_TargetPath req = '''' then fail (Status InvalidArgument ''Target path not provided'')
      else
        onErr (DetachDisk host (getISCSIDiskUnmounter req) (nu_TargetPath req)
                 (getISCSILibConfigPath d (nu_VolumeId req)))
          (\<lambda>err. fail (Status Internal err)) (\<lambda>_. ret ()))"

end
