(* ===== verification/ParamProps.thy ===== *)
theory ParamProps
  imports Node
begin

text \<open>
  What the node service accepts as a volume context and what reaches the iSCSI library: which
  requests are read, the shape of every connector, the LUN number, the portals and secrets as
  they are written in a context, and the files the connectors are kept in.
\<close>

section \<open>Secrets\<close>

lemma read_keys_iff:
  "(\<exists>vs. read_keys m ks = Inr vs) \<longleftrightarrow> set ks \<subseteq> fst ` set m"
proof (induction ks)
  case (Cons k ks)
  show ?case
  proof (cases "map_of m k")
    case None
    moreover from None have "k \<notin> fst ` set m" by (simp add: map_of_eq_None_iff)
    ultimately show ?thesis by simp
  next
    case (Some v)
    then have "k \<in> fst ` set m" using map_of_eq_None_iff [of m k] by simp
    then show ?thesis using Cons.IH Some by (auto split: sum.splits)
  qed
qed simp

lemma read_keys_length: "read_keys m ks = Inr vs \<Longrightarrow> length vs = length ks"
  by (induction ks arbitrary: vs) (auto split: option.splits sum.splits)

text \<open>Secrets are complete when there are none, or every CHAP key of both stages is there.\<close>

definition complete_secrets :: "(string \<times> string) list \<Rightarrow> bool" where
  "complete_secrets m \<longleftrightarrow>
     m = [] \<or> set (chap_keys ''node.session.auth.'') \<union> set (chap_keys ''node.sendtargets.auth.'') \<subseteq> fst ` set m"

lemma parseSecrets_ok:
  "(\<exists>a b. parseSessionSecret m = Inr a \<and> parseDiscoverySecret m = Inr b) \<longleftrightarrow> complete_secrets m"
proof (cases "m = []")
  case False
  have "(\<exists>a. parseSessionSecret m = Inr a) = (\<exists>vs. read_keys m (chap_keys ''node.session.auth.'') = Inr vs)"
    "(\<exists>b. parseDiscoverySecret m = Inr b) = (\<exists>vs. read_keys m (chap_keys ''node.sendtargets.auth.'') = Inr vs)"
    using False by (auto simp: parseSessionSecret_def parseDiscoverySecret_def split: sum.splits)
  then have "(\<exists>a b. parseSessionSecret m = Inr a \<and> parseDiscoverySecret m = Inr b) \<longleftrightarrow>
      set (chap_keys ''node.session.auth.'') \<subseteq> fst ` set m \<and> set (chap_keys ''node.sendtargets.auth.'') \<subseteq> fst ` set m"
    unfolding read_keys_iff by blast
  then show ?thesis using False by (simp add: complete_secrets_def)
qed (simp add: complete_secrets_def parseSessionSecret_def parseDiscoverySecret_def)

section \<open>Accepted requests\<close>

lemma diskInfo_ok:
  "(\<exists>info. diskInfo req m a b = Inr info) \<longleftrightarrow>
    Unmarshal_strings (ctx (np_VolumeContext req) ''portals'') \<noteq> None \<and> Atoi (ctx (np_VolumeContext req) ''lun'') \<noteq> None"
  by (auto simp: diskInfo_def Let_def split: option.splits)

lemma getISCSIInfo_cases:
  assumes "getISCSIInfo req = Inr info"
  obtains a b where "parseSessionSecret (parseSecret (ctx (np_VolumeContext req) ''secret'')) = Inr a"
    and "parseDiscoverySecret (parseSecret (ctx (np_VolumeContext req) ''secret'')) = Inr b"
    and "diskInfo req (parseSecret (ctx (np_VolumeContext req) ''secret'')) a b = Inr info"
    and "ctx (np_VolumeContext req) ''targetPortal'' \<noteq> ''''" and "ctx (np_VolumeContext req) ''iqn'' \<noteq> ''''"
  using assms by (auto simp: getISCSIInfo_def Let_def split: sum.splits if_splits)

lemma getISCSIInfo_accepts_ctx:
  "(\<exists>info. getISCSIInfo req = Inr info) \<longleftrightarrow>
     ctx (np_VolumeContext req) ''targetPortal'' \<noteq> ''''
     \<and> ctx (np_VolumeContext req) ''iqn'' \<noteq> ''''
     \<and> Atoi (ctx (np_VolumeContext req) ''lun'') \<noteq> None
     \<and> Unmarshal_strings (ctx (np_VolumeContext req) ''portals'') \<noteq> None
     \<and> complete_secrets (parseSecret (ctx (np_VolumeContext req) ''secret''))"
    (is "?L \<longleftrightarrow> ?R")
proof
  assume ?L
  then obtain info where "getISCSIInfo req = Inr info" ..
  then show ?R
    using diskInfo_ok [of req] parseSecrets_ok by (elim getISCSIInfo_cases) blast
next
  assume r: ?R
  let ?m = "parseSecret (ctx (np_VolumeContext req) ''secret'')"
  obtain a b where ab: "parseSessionSecret ?m = Inr a" "parseDiscoverySecret ?m = Inr b"
    using r parseSecrets_ok by blast
  obtain info where "diskInfo req ?m a b = Inr info" using r diskInfo_ok by blast
  moreover have "ctx (np_VolumeContext req) ''lun'' \<noteq> ''''" using r by auto
  ultimately show ?L using r ab by (simp add: getISCSIInfo_def Let_def)
qed

text \<open>
  C20: the node service reads exactly these volume contexts: a portal and an IQN are given, the
  LUN is a decimal number of 64 bits, the portals are a JSON list of strings (a missing list is
  refused), and the secrets are absent, unreadable, or complete for both CHAP stages (secrets of
  the session stage alone are refused).
\<close>

theorem getISCSIInfo_accepts:
  "(\<exists>info. getISCSIInfo req = Inr info) \<longleftrightarrow>
     ctx (np_VolumeContext req) ''targetPortal'' \<noteq> ''''
     \<and> ctx (np_VolumeContext req) ''iqn'' \<noteq> ''''
     \<and> Atoi (ctx (np_VolumeContext req) ''lun'') \<noteq> None
     \<and> Unmarshal_strings (ctx (np_VolumeContext req) ''portals'') \<noteq> None
     \<and> complete_secrets (parseSecret (ctx (np_VolumeContext req) ''secret''))"
  by (rule getISCSIInfo_accepts_ctx)

section \<open>The connector\<close>

definition chap_or_none :: "secrets \<Rightarrow> bool" where
  "chap_or_none s \<longleftrightarrow> s = no_secrets \<or> SecretsType s = ''chap''"

definition wf_connector :: "connector \<Rightarrow> bool" where
  "wf_connector c \<longleftrightarrow>
     VolumeName c \<noteq> '''' \<and> TargetIqn c \<noteq> '''' \<and> TargetPortals c \<noteq> []
     \<and> list_all (\<lambda>p. CHR '':'' \<in> set p) (TargetPortals c)
     \<and> - (2 ^ 31) \<le> con_Lun c \<and> con_Lun c < 2 ^ 31
     \<and> chap_or_none (SessionSecrets c) \<and> chap_or_none (DiscoverySecrets c)
     \<and> (SessionSecrets c = no_secrets) = (DiscoverySecrets c = no_secrets)"

lemma portalMounter_port: "CHR '':'' \<in> set (portalMounter p)"
  by (simp add: portalMounter_def)

lemma to_int32_range: "- (2 ^ 31) \<le> to_int32 i" "to_int32 i < 2 ^ 31"
  using signed_take_bit_int_greater_eq_minus_exp [of 31 i] signed_take_bit_int_less_exp [of 31 i]
  by (simp_all add: to_int32_def)

lemma chap_secrets_type: "chap_secrets vs \<noteq> no_secrets" "SecretsType (chap_secrets vs) = ''chap''"
  by (simp_all add: chap_secrets_def no_secrets_def)

lemma parsed_secrets:
  "parseSessionSecret m = Inr a \<Longrightarrow> chap_or_none a \<and> (a = no_secrets \<longleftrightarrow> m = [])"
  "parseDiscoverySecret m = Inr b \<Longrightarrow> chap_or_none b \<and> (b = no_secrets \<longleftrightarrow> m = [])"
  by (auto simp: parseSessionSecret_def parseDiscoverySecret_def chap_or_none_def chap_secrets_type
      split: if_splits sum.splits)

lemma connector_of_info:
  assumes "getISCSIInfo req = Inr info" and "np_VolumeId req \<noteq> ''''"
  obtains c ps l where "buildISCSIConnector (Some info) = Some c" and "wf_connector c"
    and "Unmarshal_strings (ctx (np_VolumeContext req) ''portals'') = Some ps"
    and "Atoi (ctx (np_VolumeContext req) ''lun'') = Some l"
    and "VolumeName c = np_VolumeId req" and "TargetIqn c = ctx (np_VolumeContext req) ''iqn''"
    and "TargetPortals c = map portalMounter (ctx (np_VolumeContext req) ''targetPortal'' # ps)"
    and "con_Lun c = to_int32 l"
    and "SessionSecrets c = sessionSecret info" and "DiscoverySecrets c = discoverySecret info"
  using assms(1)
proof (rule getISCSIInfo_cases)
  fix a b
  let ?m = "parseSecret (ctx (np_VolumeContext req) ''secret'')"
  assume ab: "parseSessionSecret ?m = Inr a" "parseDiscoverySecret ?m = Inr b"
    and i: "diskInfo req ?m a b = Inr info" and ne: "ctx (np_VolumeContext req) ''iqn'' \<noteq> ''''"
  obtain ps l where p: "Unmarshal_strings (ctx (np_VolumeContext req) ''portals'') = Some ps"
    "Atoi (ctx (np_VolumeContext req) ''lun'') = Some l"
    using i by (auto simp: diskInfo_def Let_def split: option.splits)
  have f: "sessionSecret info = a" "discoverySecret info = b" "VolName info = np_VolumeId req"
    "disk_Iqn info = ctx (np_VolumeContext req) ''iqn''" "disk_lun info = to_int32 l"
    "Portals info = map portalMounter (ctx (np_VolumeContext req) ''targetPortal'' # ps)"
    using i p by (auto simp: diskInfo_def Let_def)
  let ?c = "\<lparr>VolumeName = np_VolumeId req, TargetIqn = ctx (np_VolumeContext req) ''iqn'',
      TargetPortals = Portals info, con_Lun = to_int32 l, DoDiscovery = True, SessionSecrets = a, DiscoverySecrets = b\<rparr>"
  have s: "chap_or_none a" "chap_or_none b" "(a = no_secrets) = (b = no_secrets)"
    using parsed_secrets(1) [OF ab(1)] parsed_secrets(2) [OF ab(2)] by simp_all
  have "buildISCSIConnector (Some info) = Some ?c"
    using ne assms(2) s(3) by (auto simp: buildISCSIConnector_def f)
  moreover have "wf_connector ?c"
    using ne assms(2) s to_int32_range [of l]
    by (simp add: wf_connector_def f portalMounter_port list_all_iff)
  ultimately show thesis by (rule that) (use p f in simp_all)
qed

text \<open>
  C19: every connector built from a publish request that was read is well formed: it has the
  volume, an IQN and at least one portal, each portal has a port, the LUN fits 32 bits, and its
  secrets are CHAP secrets for both stages or none at all.
\<close>

theorem connector_wf:
  assumes "getISCSIInfo req = Inr info" and "np_VolumeId req \<noteq> ''''"
  shows "\<exists>c. dm_connector (getISCSIDiskMounter info req) = Some c \<and> wf_connector c
    \<and> TargetIqn c = ctx (np_VolumeContext req) ''iqn'' \<and> VolumeName c = np_VolumeId req"
  by (rule connector_of_info [OF assms]) (simp add: getISCSIDiskMounter_def)

section \<open>Contexts as they are written\<close>

definition publish_request :: "string \<Rightarrow> string \<Rightarrow> capability \<Rightarrow> (string \<rightharpoonup> string) \<Rightarrow> nodePublishVolumeRequest" where
  "publish_request volId path cap m =
     \<lparr>np_VolumeId = volId, np_TargetPath = path, np_VolumeCapability = Some cap, np_Readonly = False,
      np_VolumeContext = m\<rparr>"

definition chap_members :: "string \<Rightarrow> secrets \<Rightarrow> (string \<times> string) list" where
  "chap_members prefix s =
     [(prefix @ ''username'', sec_UserName s), (prefix @ ''password'', sec_Password s),
      (prefix @ ''username_in'', sec_UserNameIn s), (prefix @ ''password_in'', sec_PasswordIn s)]"

definition secret_members :: "secrets \<Rightarrow> secrets \<Rightarrow> (string \<times> string) list" where
  "secret_members ss ds = chap_members ''node.session.auth.'' ss @ chap_members ''node.sendtargets.auth.'' ds"

definition plain_chap :: "secrets \<Rightarrow> bool" where
  "plain_chap s \<longleftrightarrow> SecretsType s = ''chap'' \<and> list_all json_plain
     [sec_UserName s, sec_Password s, sec_UserNameIn s, sec_PasswordIn s]"

definition written_context :: "string \<Rightarrow> string \<Rightarrow> int \<Rightarrow> string list \<Rightarrow> (secrets \<times> secrets) option
    \<Rightarrow> (string \<rightharpoonup> string)" where
  "written_context tp iqn l portals chap =
     [''targetPortal'' \<mapsto> tp, ''iqn'' \<mapsto> iqn, ''lun'' \<mapsto> Itoa l, ''portals'' \<mapsto> json_list_text portals,
      ''secret'' \<mapsto> (case chap of None \<Rightarrow> '''' | Some (ss, ds) \<Rightarrow> json_map_text (secret_members ss ds))]"

lemma secret_members_plain:
  assumes "plain_chap ss" and "plain_chap ds"
  shows "\<forall>(k, v)\<in>set (secret_members ss ds). json_plain k \<and> json_plain v"
  using assms by (simp add: secret_members_def chap_members_def plain_chap_def json_plain_def)

lemma parse_secret_members:
  assumes "plain_chap ss" and "plain_chap ds"
  shows "parseSecret (json_map_text (secret_members ss ds)) = rev (secret_members ss ds)"
    and "parseSessionSecret (rev (secret_members ss ds)) = Inr ss"
    and "parseDiscoverySecret (rev (secret_members ss ds)) = Inr ds"
proof -
  show "parseSecret (json_map_text (secret_members ss ds)) = rev (secret_members ss ds)"
    using Unmarshal_map_text [OF secret_members_plain [OF assms]] by (simp add: parseSecret_def)
  show "parseSessionSecret (rev (secret_members ss ds)) = Inr ss"
    using assms(1) by (cases ss) (simp add: parseSessionSecret_def secret_members_def chap_members_def chap_keys_def
        chap_secrets_def plain_chap_def)
  show "parseDiscoverySecret (rev (secret_members ss ds)) = Inr ds"
    using assms(2) by (cases ds) (simp add: parseDiscoverySecret_def secret_members_def chap_members_def chap_keys_def
        chap_secrets_def plain_chap_def)
qed

lemma getISCSIInfo_connector:
  assumes "ctx (np_VolumeContext req) ''targetPortal'' = tp" and "ctx (np_VolumeContext req) ''iqn'' = iqn"
    and "tp \<noteq> ''''" and "iqn \<noteq> ''''" and "np_VolumeId req \<noteq> ''''"
    and "parseSecret (ctx (np_VolumeContext req) ''secret'') = m"
    and "parseSessionSecret m = Inr a" and "parseDiscoverySecret m = Inr b"
    and "Unmarshal_strings (ctx (np_VolumeContext req) ''portals'') = Some ps"
    and "Atoi (ctx (np_VolumeContext req) ''lun'') = Some l"
  shows "\<exists>info. getISCSIInfo req = Inr info \<and> buildISCSIConnector (Some info) = Some
    \<lparr>VolumeName = np_VolumeId req, TargetIqn = iqn, TargetPortals = map portalMounter (tp # ps),
     con_Lun = to_int32 l, DoDiscovery = True, SessionSecrets = a, DiscoverySecrets = b\<rparr>"
proof -
  have "complete_secrets m" using assms(7,8) parseSecrets_ok by blast
  then obtain info where i: "getISCSIInfo req = Inr info"
    using getISCSIInfo_accepts_ctx [of req] assms by auto
  from i assms(6-8) have "sessionSecret info = a" "discoverySecret info = b"
    by (auto elim!: getISCSIInfo_cases simp: diskInfo_def Let_def split: option.splits)
  with connector_of_info [OF i assms(5)] assms(1,2,9,10) obtain c where
    "buildISCSIConnector (Some info) = Some c" "wf_connector c" "VolumeName c = np_VolumeId req"
    "TargetIqn c = iqn" "TargetPortals c = map portalMounter (tp # ps)" "con_Lun c = to_int32 l"
    "SessionSecrets c = a" "DiscoverySecrets c = b"
    by (metis option.inject)
  moreover from this(1) have "DoDiscovery c" by (auto simp: buildISCSIConnector_def split: if_splits)
  ultimately show ?thesis using i by (cases c) auto
qed

lemma parseSecret_Nil [simp]: "parseSecret '''' = []"
  by (simp add: parseSecret_def Unmarshal_map_def)

text \<open>
  C18: what is written in a volume context reaches the iSCSI library. For ordinary texts, the
  connector has the first portal and the further ones in order, each with its port, the IQN, the
  LUN, and the CHAP secrets of both stages exactly as written, or none.
\<close>

theorem context_roundtrip:
  assumes "tp \<noteq> ''''" and "iqn \<noteq> ''''" and "volId \<noteq> ''''"
    and "- (2 ^ 31) \<le> l" and "l < 2 ^ 31" and "list_all json_plain portals"
    and "case chap of None \<Rightarrow> True | Some (ss, ds) \<Rightarrow> plain_chap ss \<and> plain_chap ds"
  shows "\<exists>info. getISCSIInfo (publish_request volId path cap (written_context tp iqn l portals chap)) = Inr info
    \<and> buildISCSIConnector (Some info) = Some
        \<lparr>VolumeName = volId, TargetIqn = iqn, TargetPortals = map portalMounter (tp # portals), con_Lun = l,
         DoDiscovery = True,
         SessionSecrets = (case chap of None \<Rightarrow> no_secrets | Some (ss, ds) \<Rightarrow> ss),
         DiscoverySecrets = (case chap of None \<Rightarrow> no_secrets | Some (ss, ds) \<Rightarrow> ds)\<rparr>"
proof -
  let ?req = "publish_request volId path cap (written_context tp iqn l portals chap)"
  let ?m = "case chap of None \<Rightarrow> [] | Some (ss, ds) \<Rightarrow> rev (secret_members ss ds)"
  have c: "ctx (np_VolumeContext ?req) ''targetPortal'' = tp" "ctx (np_VolumeContext ?req) ''iqn'' = iqn"
    "ctx (np_VolumeContext ?req) ''lun'' = Itoa l" "ctx (np_VolumeContext ?req) ''portals'' = json_list_text portals"
    by (simp_all add: ctx_def written_context_def publish_request_def)
  have l: "Atoi (Itoa l) = Some l" "to_int32 l = l"
    using assms(4,5) by (simp_all add: Atoi_Itoa in_int64_def to_int32_id)
  have "parseSecret (ctx (np_VolumeContext ?req) ''secret'') = ?m"
    using assms(7) by (auto simp: ctx_def written_context_def publish_request_def parse_secret_members split: option.splits)
  moreover have "parseSessionSecret ?m = Inr (case chap of None \<Rightarrow> no_secrets | Some (ss, ds) \<Rightarrow> ss)"
    "parseDiscoverySecret ?m = Inr (case chap of None \<Rightarrow> no_secrets | Some (ss, ds) \<Rightarrow> ds)"
    using assms(7) by (auto simp: parse_secret_members parseSessionSecret_def [of "[]"]
        parseDiscoverySecret_def [of "[]"] split: option.splits)
  ultimately show ?thesis
    using getISCSIInfo_connector [of ?req tp iqn ?m _ _ portals l] c l assms(1-3) json_strings.dec_enc [OF assms(6)]
    by (simp add: publish_request_def)
qed

text \<open>
  C28: the LUN of the connector is the number in the context cut to 32 bits: it is that number
  exactly when the number fits, and any other number attaches a different LUN without an error.
\<close>

theorem lun_number:
  assumes "getISCSIInfo req = Inr info" and "np_VolumeId req \<noteq> ''''"
    and "Atoi (ctx (np_VolumeContext req) ''lun'') = Some l"
  shows "\<exists>c. buildISCSIConnector (Some info) = Some c \<and> con_Lun c mod 2 ^ 32 = l mod 2 ^ 32
    \<and> (con_Lun c = l \<longleftrightarrow> - (2 ^ 31) \<le> l \<and> l < 2 ^ 31)"
proof -
  obtain c where c: "buildISCSIConnector (Some info) = Some c" and "con_Lun c = to_int32 l"
    using connector_of_info [OF assms(1,2)] assms(3) by (metis option.inject)
  moreover have "to_int32 l mod 2 ^ 32 = l mod 2 ^ 32"
    by (simp add: to_int32_def signed_take_bit_eq_take_bit_shift take_bit_eq_mod mod_diff_left_eq)
  moreover have "to_int32 l = l \<longleftrightarrow> - (2 ^ 31) \<le> l \<and> l < 2 ^ 31"
    using to_int32_range [of l] to_int32_id [of l] by auto
  ultimately show ?thesis by metis
qed

section \<open>Concrete requests\<close>

definition demo_cap :: capability where
  "demo_cap = \<lparr>AccessMode = Some SINGLE_NODE_WRITER, AccessType = Some (Mount ''ext4'' [''noatime''])\<rparr>"

definition demo_publish :: "string \<Rightarrow> nodePublishVolumeRequest" where
  "demo_publish lun = publish_request ''pvc1a'' ''/mnt/a'' demo_cap
     [''targetPortal'' \<mapsto> ''nas.local'', ''iqn'' \<mapsto> ''iqn.2004-04.com.qnap:pvc1a'', ''lun'' \<mapsto> lun,
      ''portals'' \<mapsto> ''[]'']"

lemma no_portals [simp]: "Unmarshal_strings ''[]'' = Some []"
  using Unmarshal_strings_text [of "[]"] by (simp add: json_list_text_def)

lemma demo_info:
  assumes "Atoi lun = Some l"
  shows "\<exists>info. getISCSIInfo (demo_publish lun) = Inr info"
  using assms by (auto simp: getISCSIInfo_accepts_ctx demo_publish_def publish_request_def ctx_def complete_secrets_def)

theorem connector_wf_witness:
  "\<exists>info c. getISCSIInfo (demo_publish ''0'') = Inr info
    \<and> dm_connector (getISCSIDiskMounter info (demo_publish ''0'')) = Some c \<and> wf_connector c
    \<and> TargetIqn c = ''iqn.2004-04.com.qnap:pvc1a''"
proof -
  have "Atoi ''0'' = Some 0" by code_simp
  then obtain info where i: "getISCSIInfo (demo_publish ''0'') = Inr info" using demo_info by blast
  from connector_wf [OF i] show ?thesis using i by (auto simp: demo_publish_def publish_request_def ctx_def)
qed

theorem context_roundtrip_witness:
  "\<exists>info. getISCSIInfo (publish_request ''pvc1a'' ''/mnt/a'' demo_cap
        (written_context ''10.0.0.5'' ''iqn.2004-04.com.qnap:pvc1a'' 0 [''10.0.0.6:3261'', ''10.0.0.7'']
          (Some (chap_secrets [''u'', ''p'', ''ui'', ''pi''], chap_secrets [''du'', ''dp'', ''dui'', ''dpi''])))) = Inr info
    \<and> map_option TargetPortals (buildISCSIConnector (Some info)) =
        Some [''10.0.0.5:3260'', ''10.0.0.6:3261'', ''10.0.0.7:3260'']"
proof -
  have "list_all json_plain [''10.0.0.6:3261'', ''10.0.0.7'']" by (simp add: json_plain_def)
  moreover have "plain_chap (chap_secrets [''u'', ''p'', ''ui'', ''pi''])"
    "plain_chap (chap_secrets [''du'', ''dp'', ''dui'', ''dpi''])"
    by (simp_all add: plain_chap_def chap_secrets_def json_plain_def)
  ultimately show ?thesis
    using context_roundtrip [of "''10.0.0.5''" "''iqn.2004-04.com.qnap:pvc1a''" "''pvc1a''" 0
        "[''10.0.0.6:3261'', ''10.0.0.7'']"
        "Some (chap_secrets [''u'', ''p'', ''ui'', ''pi''], chap_secrets [''du'', ''dp'', ''dui'', ''dpi''])"
        "''/mnt/a''" demo_cap]
    by (fastforce simp: portalMounter_def)
qed

theorem lun_number_witness:
  "\<exists>info c. getISCSIInfo (demo_publish ''4294967296'') = Inr info
    \<and> buildISCSIConnector (Some info) = Some c \<and> con_Lun c \<noteq> 4294967296"
proof -
  have a: "Atoi ''4294967296'' = Some 4294967296" by (simp add: Atoi_def parse_digits_def nat_of_dec_def is_digit_def digit_val_def in_int64_def)
  then obtain info where i: "getISCSIInfo (demo_publish ''4294967296'') = Inr info" using demo_info by blast
  have "Atoi (ctx (np_VolumeContext (demo_publish ''4294967296'')) ''lun'') = Some 4294967296"
    using a by (simp add: demo_publish_def publish_request_def ctx_def)
  moreover have "np_VolumeId (demo_publish ''4294967296'') \<noteq> ''''" by (simp add: demo_publish_def publish_request_def)
  ultimately show ?thesis using lun_number [OF i] i by auto
qed


end
