(* ===== verification/HostLaws.thy ===== *)
theory HostLaws
  imports ParamProps "HOL-Library.Sublist"
begin

text \<open>
  What the driver relies on of a node: named laws on the operations of a \<open>host\<close>, stated over a
  view of its hidden state, a \<open>machine\<close> with attached volumes, a mount table, connector files and
  directories. Any operation may fail or block; the laws say what a success does, and what no
  outcome touches. The paths of a view are the ones the mount table lists, so the laws speak of
  paths that do not lead through symbolic links. The last section is a machine that obeys them and
  fails where it is told to.
\<close>

section \<open>Machines\<close>

type_synonym volume_key = "string \<times> int"

record machine =
  attached :: "volume_key set"
  mounts :: "(string \<times> string) list"
  files :: "string \<rightharpoonup> connector"
  dirs :: "string set"

definition key :: "connector \<Rightarrow> volume_key" where
  "key c = (TargetIqn c, con_Lun c)"

definition mounted :: "machine \<Rightarrow> string \<Rightarrow> bool" where
  "mounted m p \<longleftrightarrow> p \<in> fst ` set (mounts m)"

text \<open>
  How often the device mounted at a path is mounted; nothing is mounted zero times. Of several
  mounts at one path the first in the table is looked at.
\<close>

definition device_count :: "machine \<Rightarrow> string \<Rightarrow> nat" where
  "device_count m p =
     (case map_of (mounts m) p of
        None \<Rightarrow> 0
      | Some dv \<Rightarrow> length (filter (\<lambda>e. snd e = dv) (mounts m)))"

lemma device_count_0: "\<not> mounted m p \<Longrightarrow> device_count m p = 0"
proof -
  assume "\<not> mounted m p"
  then have "map_of (mounts m) p = None" by (simp add: mounted_def map_of_eq_None_iff)
  then show ?thesis by (simp add: device_count_def)
qed

text \<open>A mount table without the last mount at a path.\<close>

primrec drop_first :: "('a \<Rightarrow> bool) \<Rightarrow> 'a list \<Rightarrow> 'a list" where
  "drop_first P [] = []"
| "drop_first P (x # xs) = (if P x then xs else x # drop_first P xs)"

definition unstack :: "string \<Rightarrow> (string \<times> 'd) list \<Rightarrow> (string \<times> 'd) list" where
  "unstack p ms = rev (drop_first (\<lambda>e. fst e = p) (rev ms))"

lemma unstack_snoc [simp]: "unstack p (ms @ [(q, dv)]) = (if q = p then ms else unstack p ms @ [(q, dv)])"
  by (simp add: unstack_def)

lemma unstack_Nil [simp]: "unstack p [] = []"
  by (simp add: unstack_def)

lemma filter_drop_first: "filter (\<lambda>e. \<not> P e) (drop_first P xs) = filter (\<lambda>e. \<not> P e) xs"
  by (induction xs) auto

lemma set_drop_first: "set (drop_first P xs) \<subseteq> set xs"
  by (induction xs) auto

lemma filter_unstack [simp]: "filter (\<lambda>e. fst e \<noteq> p) (unstack p ms) = filter (\<lambda>e. fst e \<noteq> p) ms"
  by (simp add: unstack_def rev_filter [symmetric] filter_drop_first)

lemma set_unstack: "set (unstack p ms) \<subseteq> set ms"
  using set_drop_first [of "\<lambda>e. fst e = p" "rev ms"] by (simp add: unstack_def)

text \<open>\<open>below p q\<close>: once cleaned, \<open>q\<close> is \<open>p\<close> or lies in the directory \<open>p\<close>.\<close>

definition below :: "string \<Rightarrow> string \<Rightarrow> bool" where
  "below p q \<longleftrightarrow> Clean q = Clean p \<or> prefix (TrimRight (Clean p) ''/'' @ ''/'') (Clean q)"

lemma below_refl [simp]: "below p p"
  by (simp add: below_def)

section \<open>Laws\<close>

text \<open>
  The iSCSI library changes what is attached, and nothing else. A success of \<open>Connect\<close> may name
  any device, another one at each call.
\<close>

definition connect_ok :: "'w host \<Rightarrow> ('w \<Rightarrow> machine) \<Rightarrow> bool" where
  "connect_ok h view \<longleftrightarrow> (\<forall>c w r w'. Connect h c w = (r, w') \<longrightarrow>
    (\<exists>A. view w' = (view w)\<lparr>attached := A\<rparr> \<and> attached (view w) \<subseteq> A
       \<and> A \<subseteq> insert (key c) (attached (view w)))
    \<and> (\<forall>p c'. r = Answer (p, c') \<longrightarrow> key c' = key c
         \<and> attached (view w') = insert (key c) (attached (view w))))"

definition disconnect_volume_ok :: "'w host \<Rightarrow> ('w \<Rightarrow> machine) \<Rightarrow> bool" where
  "disconnect_volume_ok h view \<longleftrightarrow> (\<forall>c w r w'. DisconnectVolume h c w = (r, w') \<longrightarrow>
    (\<exists>A. view w' = (view w)\<lparr>attached := A\<rparr> \<and> A \<subseteq> attached (view w)
       \<and> attached (view w) - {key c} \<subseteq> A)
    \<and> (\<forall>c'. r = Answer c' \<longrightarrow> key c' = key c \<and> attached (view w') = attached (view w) - {key c}))"

definition disconnect_ok :: "'w host \<Rightarrow> ('w \<Rightarrow> machine) \<Rightarrow> bool" where
  "disconnect_ok h view \<longleftrightarrow> (\<forall>iqn ps w r w'. Disconnect h iqn ps w = (r, w') \<longrightarrow>
    (\<exists>A. view w' = (view w)\<lparr>attached := A\<rparr> \<and> A \<subseteq> attached (view w)
       \<and> (\<forall>k\<in>attached (view w). fst k \<noteq> iqn \<longrightarrow> k \<in> A)))"

text \<open>
  The mount utilities change the mount table only. The heuristic is a heuristic: a bind mount or a
  symbolic link may mislead it, so nothing is assumed of its verdict. \<open>Unmount\<close> removes the mount
  that was made last at the path and uncovers the one below. A mount or an unmount that blocks
  may have taken effect.
\<close>

definition heuristic_ok :: "'w host \<Rightarrow> ('w \<Rightarrow> machine) \<Rightarrow> bool" where
  "heuristic_ok h view \<longleftrightarrow> (\<forall>p w r w'. IsLikelyNotMountPoint h p w = (r, w') \<longrightarrow> view w' = view w)"

definition device_ok :: "'w host \<Rightarrow> ('w \<Rightarrow> machine) \<Rightarrow> bool" where
  "device_ok h view \<longleftrightarrow> (\<forall>p w r w'. GetDeviceNameFromMount h p w = (r, w') \<longrightarrow>
    view w' = view w \<and> (\<forall>dv n. r = Answer (dv, n) \<longrightarrow> n = int (device_count (view w) p)))"

definition mount_ok :: "'w host \<Rightarrow> ('w \<Rightarrow> machine) \<Rightarrow> bool" where
  "mount_ok h view \<longleftrightarrow> (\<forall>dv p fs opts w r w'. FormatAndMount h dv p fs opts w = (r, w') \<longrightarrow>
    view w' \<in> {view w, (view w)\<lparr>mounts := mounts (view w) @ [(p, dv)]\<rparr>}
    \<and> (r = Answer () \<longrightarrow> mounts (view w') = mounts (view w) @ [(p, dv)])
    \<and> (\<forall>e. r = Error e \<longrightarrow> view w' = view w))"

definition unmount_ok :: "'w host \<Rightarrow> ('w \<Rightarrow> machine) \<Rightarrow> bool" where
  "unmount_ok h view \<longleftrightarrow> (\<forall>p w r w'. Unmount h p w = (r, w') \<longrightarrow>
    view w' \<in> {view w, (view w)\<lparr>mounts := unstack p (mounts (view w))\<rparr>}
    \<and> (r = Answer () \<longrightarrow> mounts (view w') = unstack p (mounts (view w)))
    \<and> (\<forall>e. r = Error e \<longrightarrow> view w' = view w))"

text \<open>
  The file operations change files and directories only: \<open>MkdirAll\<close> adds directories on the way to
  its path, \<open>RemoveAll\<close> takes directories and connector files at or below its path, whether it
  succeeds or not.
\<close>

definition persist_ok :: "'w host \<Rightarrow> ('w \<Rightarrow> machine) \<Rightarrow> bool" where
  "persist_ok h view \<longleftrightarrow> (\<forall>c f w r w'. PersistConnector h c f w = (r, w') \<longrightarrow>
    (\<exists>x. view w' = (view w)\<lparr>files := (files (view w))(f := x)\<rparr> \<and> (r = Answer () \<longrightarrow> x = Some c)))"

definition load_ok :: "'w host \<Rightarrow> ('w \<Rightarrow> machine) \<Rightarrow> bool" where
  "load_ok h view \<longleftrightarrow> (\<forall>f w r w'. GetConnectorFromFile h f w = (r, w') \<longrightarrow>
    view w' = view w \<and> (\<forall>c. r = Answer c \<longrightarrow> files (view w) f = Some c)
    \<and> (\<forall>e. r = Error e \<and> os_notExist e \<longrightarrow> files (view w) f = None))"

definition exists_ok :: "'w host \<Rightarrow> ('w \<Rightarrow> machine) \<Rightarrow> bool" where
  "exists_ok h view \<longleftrightarrow> (\<forall>p w r w'. PathExists h p w = (r, w') \<longrightarrow>
    view w' = view w \<and> (\<forall>b. r = Answer b \<longrightarrow> b = (p \<in> dirs (view w))))"

definition mkdir_ok :: "'w host \<Rightarrow> ('w \<Rightarrow> machine) \<Rightarrow> bool" where
  "mkdir_ok h view \<longleftrightarrow> (\<forall>p mode w r w'. MkdirAll h p mode w = (r, w') \<longrightarrow>
    (\<exists>D. view w' = (view w)\<lparr>dirs := D\<rparr> \<and> dirs (view w) \<subseteq> D
    \<and> (\<forall>q\<in>D. q \<in> dirs (view w) \<or> below q p) \<and> (r = Answer () \<longrightarrow> p \<in> D)))"

definition remove_all_ok :: "'w host \<Rightarrow> ('w \<Rightarrow> machine) \<Rightarrow> bool" where
  "remove_all_ok h view \<longleftrightarrow> (\<forall>p w r w'. RemoveAll h p w = (r, w') \<longrightarrow>
    attached (view w') = attached (view w) \<and> mounts (view w') = mounts (view w)
    \<and> dirs (view w') \<subseteq> dirs (view w) \<and> (\<forall>q\<in>dirs (view w). below p q \<or> q \<in> dirs (view w'))
    \<and> (\<forall>g. files (view w') g = files (view w) g \<or> below p g \<and> files (view w') g = None)
    \<and> (r = Answer () \<longrightarrow> (\<forall>q\<in>dirs (view w'). \<not> below p q)))"

definition remove_ok :: "'w host \<Rightarrow> ('w \<Rightarrow> machine) \<Rightarrow> bool" where
  "remove_ok h view \<longleftrightarrow> (\<forall>f w r w'. Remove h f w = (r, w') \<longrightarrow>
    view w' \<in> {view w, (view w)\<lparr>files := (files (view w))(f := None)\<rparr>}
    \<and> (r = Answer () \<longrightarrow> files (view w') f = None) \<and> (\<forall>e. r = Error e \<longrightarrow> view w' = view w))"

definition lawful :: "'w host \<Rightarrow> ('w \<Rightarrow> machine) \<Rightarrow> bool" where
  "lawful h view \<longleftrightarrow> connect_ok h view
     \<and> disconnect_volume_ok h view
     \<and> disconnect_ok h view
     \<and> device_ok h view
     \<and> mount_ok h view
     \<and> unmount_ok h view
     \<and> persist_ok h view
     \<and> load_ok h view
     \<and> exists_ok h view
     \<and> mkdir_ok h view
     \<and> remove_all_ok h view
     \<and> remove_ok h view
     \<and> heuristic_ok h view"

lemma lawfulD:
  assumes "lawful h view"
  shows "connect_ok h view"
    and "disconnect_volume_ok h view"
    and "disconnect_ok h view"
    and "device_ok h view"
    and "mount_ok h view"
    and "unmount_ok h view"
    and "persist_ok h view"
    and "load_ok h view"
    and "exists_ok h view"
    and "mkdir_ok h view"
    and "remove_all_ok h view"
    and "remove_ok h view"
    and "heuristic_ok h view"
  using assms by (simp_all add: lawful_def)

lemma heuristic_law:
  assumes "lawful h view" and "IsLikelyNotMountPoint h p w = (r, w')"
  shows "view w' = view w"
  using lawfulD(13) [OF assms(1)] assms(2) unfolding heuristic_ok_def by blast

text \<open>The laws over a call, as the code sees its result.\<close>

lemma connect_law:
  assumes "lawful h view" and "call (Connect h c) w = (r, w')"
  shows "(\<exists>A. view w' = (view w)\<lparr>attached := A\<rparr> \<and> attached (view w) \<subseteq> A
       \<and> A \<subseteq> insert (key c) (attached (view w)))
    \<and> (\<forall>p c'. r = Ret (p, c') \<longrightarrow> key c' = key c
         \<and> attached (view w') = insert (key c) (attached (view w)))"
proof -
  have law: "(\<exists>A. view w' = (view w)\<lparr>attached := A\<rparr> \<and> attached (view w) \<subseteq> A
       \<and> A \<subseteq> insert (key c) (attached (view w)))
    \<and> (\<forall>p c'. r = Answer (p, c') \<longrightarrow> key c' = key c
         \<and> attached (view w') = insert (key c) (attached (view w)))" if "Connect h c w = (r, w')" for r
    by (rule lawfulD(1) [OF assms(1), unfolded connect_ok_def, THEN spec, THEN spec, THEN spec, THEN spec, THEN mp, OF that])
  show ?thesis using assms(2) by (cases rule: call_cases) (drule law, simp)+
qed

lemma disconnect_volume_law:
  assumes "lawful h view" and "call (DisconnectVolume h c) w = (r, w')"
  shows "(\<exists>A. view w' = (view w)\<lparr>attached := A\<rparr> \<and> A \<subseteq> attached (view w)
       \<and> attached (view w) - {key c} \<subseteq> A)
    \<and> (\<forall>c'. r = Ret c' \<longrightarrow> key c' = key c \<and> attached (view w') = attached (view w) - {key c})"
proof -
  have law: "(\<exists>A. view w' = (view w)\<lparr>attached := A\<rparr> \<and> A \<subseteq> attached (view w)
       \<and> attached (view w) - {key c} \<subseteq> A)
    \<and> (\<forall>c'. r = Answer c' \<longrightarrow> key c' = key c \<and> attached (view w') = attached (view w) - {key c})" if "DisconnectVolume h c w = (r, w')" for r
    by (rule lawfulD(2) [OF assms(1), unfolded disconnect_volume_ok_def, THEN spec, THEN spec, THEN spec, THEN spec, THEN mp, OF that])
  show ?thesis using assms(2) by (cases rule: call_cases) (drule law, simp)+
qed

lemma disconnect_law:
  assumes "lawful h view" and "call (Disconnect h iqn ps) w = (r, w')"
  shows "\<exists>A. view w' = (view w)\<lparr>attached := A\<rparr> \<and> A \<subseteq> attached (view w)
       \<and> (\<forall>k\<in>attached (view w). fst k \<noteq> iqn \<longrightarrow> k \<in> A)"
proof -
  have law: "\<exists>A. view w' = (view w)\<lparr>attached := A\<rparr> \<and> A \<subseteq> attached (view w)
       \<and> (\<forall>k\<in>attached (view w). fst k \<noteq> iqn \<longrightarrow> k \<in> A)" if "Disconnect h iqn ps w = (r, w')" for r
    by (rule lawfulD(3) [OF assms(1), unfolded disconnect_ok_def, THEN spec, THEN spec, THEN spec, THEN spec, THEN spec, THEN mp, OF that])
  show ?thesis using assms(2) by (cases rule: call_cases) (drule law, simp)+
qed

lemma device_law:
  assumes "lawful h view" and "call (GetDeviceNameFromMount h p) w = (r, w')"
  shows "view w' = view w \<and> (\<forall>dv n. r = Ret (dv, n) \<longrightarrow> n = int (device_count (view w) p))"
proof -
  have law: "view w' = view w \<and> (\<forall>dv n. r = Answer (dv, n) \<longrightarrow> n = int (device_count (view w) p))" if "GetDeviceNameFromMount h p w = (r, w')" for r
    by (rule lawfulD(4) [OF assms(1), unfolded device_ok_def, THEN spec, THEN spec, THEN spec, THEN spec, THEN mp, OF that])
  show ?thesis using assms(2) by (cases rule: call_cases) (drule law, simp)+
qed

lemma mount_law:
  assumes "lawful h view" and "call (FormatAndMount h dv p fs opts) w = (r, w')"
  shows "view w' \<in> {view w, (view w)\<lparr>mounts := mounts (view w) @ [(p, dv)]\<rparr>}
    \<and> (r = Ret () \<longrightarrow> mounts (view w') = mounts (view w) @ [(p, dv)])
    \<and> (\<forall>e. r = Fail e \<longrightarrow> view w' = view w)"
proof -
  have law: "view w' \<in> {view w, (view w)\<lparr>mounts := mounts (view w) @ [(p, dv)]\<rparr>}
    \<and> (r = Answer () \<longrightarrow> mounts (view w') = mounts (view w) @ [(p, dv)])
    \<and> (\<forall>e. r = Error e \<longrightarrow> view w' = view w)" if "FormatAndMount h dv p fs opts w = (r, w')" for r
    by (rule lawfulD(5) [OF assms(1), unfolded mount_ok_def, THEN spec, THEN spec, THEN spec, THEN spec, THEN spec, THEN spec, THEN spec, THEN mp, OF that])
  show ?thesis using assms(2) by (cases rule: call_cases) (drule law, simp)+
qed

lemma unmount_law:
  assumes "lawful h view" and "call (Unmount h p) w = (r, w')"
  shows "view w' \<in> {view w, (view w)\<lparr>mounts := unstack p (mounts (view w))\<rparr>}
    \<and> (r = Ret () \<longrightarrow> mounts (view w') = unstack p (mounts (view w)))
    \<and> (\<forall>e. r = Fail e \<longrightarrow> view w' = view w)"
proof -
  have law: "view w' \<in> {view w, (view w)\<lparr>mounts := unstack p (mounts (view w))\<rparr>}
    \<and> (r = Answer () \<longrightarrow> mounts (view w') = unstack p (mounts (view w)))
    \<and> (\<forall>e. r = Error e \<longrightarrow> view w' = view w)" if "Unmount h p w = (r, w')" for r
    by (rule lawfulD(6) [OF assms(1), unfolded unmount_ok_def, THEN spec, THEN spec, THEN spec, THEN spec, THEN mp, OF that])
  show ?thesis using assms(2) by (cases rule: call_cases) (drule law, simp)+
qed

lemma persist_law:
  assumes "lawful h view" and "call (PersistConnector h c f) w = (r, w')"
  shows "\<exists>x. view w' = (view w)\<lparr>files := (files (view w))(f := x)\<rparr> \<and> (r = Ret () \<longrightarrow> x = Some c)"
proof -
  have law: "\<exists>x. view w' = (view w)\<lparr>files := (files (view w))(f := x)\<rparr> \<and> (r = Answer () \<longrightarrow> x = Some c)" if "PersistConnector h c f w = (r, w')" for r
    by (rule lawfulD(7) [OF assms(1), unfolded persist_ok_def, THEN spec, THEN spec, THEN spec, THEN spec, THEN spec, THEN mp, OF that])
  show ?thesis using assms(2) by (cases rule: call_cases) (drule law, simp)+
qed

lemma load_law:
  assumes "lawful h view" and "call (GetConnectorFromFile h f) w = (r, w')"
  shows "view w' = view w \<and> (\<forall>c. r = Ret c \<longrightarrow> files (view w) f = Some c)
    \<and> (\<forall>e. r = Fail e \<and> os_notExist e \<longrightarrow> files (view w) f = None)"
proof -
  have law: "view w' = view w \<and> (\<forall>c. r = Answer c \<longrightarrow> files (view w) f = Some c)
    \<and> (\<forall>e. r = Error e \<and> os_notExist e \<longrightarrow> files (view w) f = None)" if "GetConnectorFromFile h f w = (r, w')" for r
    by (rule lawfulD(8) [OF assms(1), unfolded load_ok_def, THEN spec, THEN spec, THEN spec, THEN spec, THEN mp, OF that])
  show ?thesis using assms(2) by (cases rule: call_cases) (drule law, simp)+
qed

lemma exists_law:
  assumes "lawful h view" and "call (PathExists h p) w = (r, w')"
  shows "view w' = view w \<and> (\<forall>b. r = Ret b \<longrightarrow> b = (p \<in> dirs (view w)))"
proof -
  have law: "view w' = view w \<and> (\<forall>b. r = Answer b \<longrightarrow> b = (p \<in> dirs (view w)))" if "PathExists h p w = (r, w')" for r
    by (rule lawfulD(9) [OF assms(1), unfolded exists_ok_def, THEN spec, THEN spec, THEN spec, THEN spec, THEN mp, OF that])
  show ?thesis using assms(2) by (cases rule: call_cases) (drule law, simp)+
qed

lemma mkdir_law:
  assumes "lawful h view" and "call (MkdirAll h p mode) w = (r, w')"
  shows "\<exists>D. view w' = (view w)\<lparr>dirs := D\<rparr> \<and> dirs (view w) \<subseteq> D
    \<and> (\<forall>q\<in>D. q \<in> dirs (view w) \<or> below q p) \<and> (r = Ret () \<longrightarrow> p \<in> D)"
proof -
  have law: "\<exists>D. view w' = (view w)\<lparr>dirs := D\<rparr> \<and> dirs (view w) \<subseteq> D
    \<and> (\<forall>q\<in>D. q \<in> dirs (view w) \<or> below q p) \<and> (r = Answer () \<longrightarrow> p \<in> D)" if "MkdirAll h p mode w = (r, w')" for r
    by (rule lawfulD(10) [OF assms(1), unfolded mkdir_ok_def, THEN spec, THEN spec, THEN spec, THEN spec, THEN spec, THEN mp, OF that])
  show ?thesis using assms(2) by (cases rule: call_cases) (drule law, simp)+
qed

lemma remove_all_law:
  assumes "lawful h view" and "call (RemoveAll h p) w = (r, w')"
  shows "attached (view w') = attached (view w) \<and> mounts (view w') = mounts (view w)
    \<and> dirs (view w') \<subseteq> dirs (view w) \<and> (\<forall>q\<in>dirs (view w). below p q \<or> q \<in> dirs (view w'))
    \<and> (\<forall>g. files (view w') g = files (view w) g \<or> below p g \<and> files (view w') g = None)
    \<and> (r = Ret () \<longrightarrow> (\<forall>q\<in>dirs (view w'). \<not> below p q))"
proof -
  have law: "attached (view w') = attached (view w) \<and> mounts (view w') = mounts (view w)
    \<and> dirs (view w') \<subseteq> dirs (view w) \<and> (\<forall>q\<in>dirs (view w). below p q \<or> q \<in> dirs (view w'))
    \<and> (\<forall>g. files (view w') g = files (view w) g \<or> below p g \<and> files (view w') g = None)
    \<and> (r = Answer () \<longrightarrow> (\<forall>q\<in>dirs (view w'). \<not> below p q))" if "RemoveAll h p w = (r, w')" for r
    by (rule lawfulD(11) [OF assms(1), unfolded remove_all_ok_def, THEN spec, THEN spec, THEN spec, THEN spec, THEN mp, OF that])
  show ?thesis using assms(2) by (cases rule: call_cases) (drule law, simp)+
qed

lemma remove_law:
  assumes "lawful h view" and "call (Remove h f) w = (r, w')"
  shows "view w' \<in> {view w, (view w)\<lparr>files := (files (view w))(f := None)\<rparr>}
    \<and> (r = Ret () \<longrightarrow> files (view w') f = None) \<and> (\<forall>e. r = Fail e \<longrightarrow> view w' = view w)"
proof -
  have law: "view w' \<in> {view w, (view w)\<lparr>files := (files (view w))(f := None)\<rparr>}
    \<and> (r = Answer () \<longrightarrow> files (view w') f = None) \<and> (\<forall>e. r = Error e \<longrightarrow> view w' = view w)" if "Remove h f w = (r, w')" for r
    by (rule lawfulD(12) [OF assms(1), unfolded remove_ok_def, THEN spec, THEN spec, THEN spec, THEN spec, THEN mp, OF that])
  show ?thesis using assms(2) by (cases rule: call_cases) (drule law, simp)+
qed

section \<open>A machine that obeys the laws\<close>

text \<open>The operations named in \<open>bad\<close> fail, and a failed attempt changes nothing.\<close>

definition io_error :: os_error where
  "io_error = \<lparr>os_notExist = False, os_text = ''input/output error''\<rparr>"

definition no_file :: os_error where
  "no_file = \<lparr>os_notExist = True, os_text = ''no such file or directory''\<rparr>"

definition attempt :: "string set \<Rightarrow> string \<Rightarrow> 'a \<Rightarrow> (machine \<Rightarrow> machine) \<Rightarrow> (machine, 'a) op" where
  "attempt bad name x f m = (if name \<in> bad then (Error io_error, m) else (Answer x, f m))"

definition sim_dev :: "volume_key \<Rightarrow> string" where
  "sim_dev k = ''/dev/disk/'' @ fst k @ ''-'' @ Itoa (snd k)"

definition sim_host :: "string set \<Rightarrow> machine host" where
  "sim_host bad =
     \<lparr>Connect = (\<lambda>c. attempt bad ''Connect'' (sim_dev (key c), c)
         (\<lambda>m. m\<lparr>attached := insert (key c) (attached m)\<rparr>)),
      DisconnectVolume = (\<lambda>c. attempt bad ''DisconnectVolume'' c
         (\<lambda>m. m\<lparr>attached := attached m - {key c}\<rparr>)),
      Disconnect = (\<lambda>iqn ps. attempt bad ''Disconnect'' ()
         (\<lambda>m. m\<lparr>attached := {k \<in> attached m. fst k \<noteq> iqn}\<rparr>)),
      PersistConnector = (\<lambda>c f. attempt bad ''PersistConnector'' () (\<lambda>m. m\<lparr>files := (files m)(f \<mapsto> c)\<rparr>)),
      GetConnectorFromFile = (\<lambda>f m. case files m f of None \<Rightarrow> (Error no_file, m) | Some c \<Rightarrow> (Answer c, m)),
      IsLikelyNotMountPoint = (\<lambda>p m. (Some (\<not> mounted m p, if p \<in> dirs m then None else Some no_file), m)),
      FormatAndMount = (\<lambda>dv p fs opts. attempt bad ''FormatAndMount'' ()
         (\<lambda>m. m\<lparr>mounts := mounts m @ [(p, dv)]\<rparr>)),
      Unmount = (\<lambda>p m. attempt (if mounted m p then bad else {''Unmount''}) ''Unmount'' ()
         (\<lambda>m. m\<lparr>mounts := unstack p (mounts m)\<rparr>) m),
      GetDeviceNameFromMount = (\<lambda>p m.
         (Answer (case map_of (mounts m) p of None \<Rightarrow> '''' | Some dv \<Rightarrow> dv, int (device_count m p)), m)),
      PathExists = (\<lambda>p m. (Answer (p \<in> dirs m), m)),
      MkdirAll = (\<lambda>p mode. attempt bad ''MkdirAll'' () (\<lambda>m. m\<lparr>dirs := insert p (dirs m)\<rparr>)),
      RemoveAll = (\<lambda>p. attempt bad ''RemoveAll'' () 
         (\<lambda>m. m\<lparr>dirs := Set.filter (\<lambda>q. \<not> below p q) (dirs m),
                files := (\<lambda>g. if below p g then None else files m g)\<rparr>)),
      Remove = (\<lambda>f. attempt bad ''Remove'' () (\<lambda>m. m\<lparr>files := (files m)(f := None)\<rparr>))\<rparr>"

lemma attempt_eq:
  "attempt bad name x f m = (r, m') \<longleftrightarrow>
    (name \<in> bad \<and> r = Error io_error \<and> m' = m) \<or> (name \<notin> bad \<and> r = Answer x \<and> m' = f m)"
  by (auto simp: attempt_def)

lemma unchanged:
  fixes m :: machine
  shows "P (attached m) \<Longrightarrow> \<exists>A. m = m\<lparr>attached := A\<rparr> \<and> P A"
    and "P' (dirs m) \<Longrightarrow> \<exists>D. m = m\<lparr>dirs := D\<rparr> \<and> P' D"
    and "\<exists>A. m = m\<lparr>attached := A\<rparr>"
    and "\<exists>D. m = m\<lparr>dirs := D\<rparr>"
    and "\<exists>x. m = m\<lparr>files := (files m)(f := x)\<rparr>"
proof -
  show "P (attached m) \<Longrightarrow> \<exists>A. m = m\<lparr>attached := A\<rparr> \<and> P A" by (rule exI [of _ "attached m"]) simp
  show "P' (dirs m) \<Longrightarrow> \<exists>D. m = m\<lparr>dirs := D\<rparr> \<and> P' D" by (rule exI [of _ "dirs m"]) simp
  show "\<exists>A. m = m\<lparr>attached := A\<rparr>" by (rule exI [of _ "attached m"]) simp
  show "\<exists>D. m = m\<lparr>dirs := D\<rparr>" by (rule exI [of _ "dirs m"]) simp
  show "\<exists>x. m = m\<lparr>files := (files m)(f := x)\<rparr>" by (rule exI [of _ "files m f"]) simp
qed

lemma sim_heuristic: "heuristic_ok (sim_host bad) (\<lambda>m. m)"
  by (auto simp: heuristic_ok_def sim_host_def)

lemma sim_connect: "connect_ok (sim_host bad) (\<lambda>m. m)"
  by (auto simp: connect_ok_def sim_host_def attempt_eq intro: unchanged split: option.splits)

lemma sim_disconnect_volume: "disconnect_volume_ok (sim_host bad) (\<lambda>m. m)"
  by (auto simp: disconnect_volume_ok_def sim_host_def attempt_eq intro: unchanged split: option.splits)

lemma sim_disconnect: "disconnect_ok (sim_host bad) (\<lambda>m. m)"
  by (auto simp: disconnect_ok_def sim_host_def attempt_eq intro: unchanged split: option.splits)

lemma sim_device: "device_ok (sim_host bad) (\<lambda>m. m)"
  by (auto simp: device_ok_def sim_host_def attempt_eq intro: unchanged split: option.splits)

lemma sim_mount: "mount_ok (sim_host bad) (\<lambda>m. m)"
  by (auto simp: mount_ok_def sim_host_def attempt_eq intro: unchanged split: option.splits)

lemma sim_unmount: "unmount_ok (sim_host bad) (\<lambda>m. m)"
  by (auto simp: unmount_ok_def sim_host_def attempt_eq intro: unchanged split: option.splits)

lemma sim_persist: "persist_ok (sim_host bad) (\<lambda>m. m)"
  by (auto simp: persist_ok_def sim_host_def attempt_eq intro: unchanged split: option.splits)

lemma sim_load: "load_ok (sim_host bad) (\<lambda>m. m)"
  by (auto simp: load_ok_def sim_host_def attempt_eq intro: unchanged split: option.splits)

lemma sim_exists: "exists_ok (sim_host bad) (\<lambda>m. m)"
  by (auto simp: exists_ok_def sim_host_def attempt_eq intro: unchanged split: option.splits)

lemma sim_mkdir: "mkdir_ok (sim_host bad) (\<lambda>m. m)"
  by (auto simp: mkdir_ok_def sim_host_def attempt_eq intro: unchanged split: option.splits)

lemma sim_remove_all: "remove_all_ok (sim_host bad) (\<lambda>m. m)"
  by (auto simp: remove_all_ok_def sim_host_def attempt_eq intro: unchanged split: option.splits)

lemma sim_remove: "remove_ok (sim_host bad) (\<lambda>m. m)"
  by (auto simp: remove_ok_def sim_host_def attempt_eq intro: unchanged split: option.splits)

lemma sim_lawful: "lawful (sim_host bad) (\<lambda>m. m)"
  by (simp add: lawful_def sim_heuristic sim_connect sim_disconnect_volume sim_disconnect sim_device sim_mount sim_unmount sim_persist sim_load sim_exists sim_mkdir sim_remove_all sim_remove)

definition bare :: machine where
  "bare = \<lparr>attached = {}, mounts = [], files = Map.empty, dirs = {}\<rparr>"

text \<open>A node's driver before it runs, and while it runs.\<close>

definition fresh_driver :: driver where
  "fresh_driver =
     \<lparr>d_name = DefaultDriverName, d_storagePoolID = 1, d_endpoint = ''unix:///csi/csi.sock'', d_URL = '''',
      d_nodeID = ''node1'', d_username = '''', d_password = '''', d_isController = False, d_prefix = '''',
      d_portal = '''', d_configDir = '''', d_ready = False\<rparr>"

definition sim_driver :: driver where
  "sim_driver = fresh_driver\<lparr>d_configDir := ''/csi/config'', d_ready := True\<rparr>"

end
