(* ===== verification/NodeProps.thy ===== *)
theory NodeProps
  imports HostLaws
begin

text \<open>
  What publishing and unpublishing do to a node. The effects of attaching and detaching on a
  lawful host come first, for every outcome; the properties of the two handlers follow from
  them, with runs on a simulated machine.
\<close>

section \<open>Attaching\<close>

lemma os_fail_run [io_simps]: "os_fail e w = (Fail (os_text e), w)"
  by (simp add: os_fail_def fail_def)

lemma mountDevice_effect:
  assumes "lawful h view" and "mountDevice h b f c p w = (r, w')"
  shows "attached (view w') = attached (view w)"
    and "r = Ret x \<Longrightarrow> mounts (view w') = mounts (view w) @ [(dm_targetPath b, p)]
      \<and> files (view w') = (files (view w))(f \<mapsto> c) \<and> dm_targetPath b \<in> dirs (view w')"
    and "r = Fail e \<Longrightarrow> mounts (view w') = mounts (view w)"
proof -
  have *: "attached (view w') = attached (view w)
    \<and> (case r of
         Ret _ \<Rightarrow> mounts (view w') = mounts (view w) @ [(dm_targetPath b, p)]
           \<and> files (view w') = (files (view w))(f \<mapsto> c) \<and> dm_targetPath b \<in> dirs (view w')
       | Fail _ \<Rightarrow> mounts (view w') = mounts (view w)
       | _ \<Rightarrow> True)"
    using assms(2) unfolding mountDevice_def Let_def
    by (auto elim!: onErr_call_cases simp: effect_defs os_fail_run
        dest!: mkdir_law [OF assms(1)] persist_law [OF assms(1)] mount_law [OF assms(1)])
  from * show "attached (view w') = attached (view w)" by blast
  from * show "r = Ret x \<Longrightarrow> mounts (view w') = mounts (view w) @ [(dm_targetPath b, p)]
      \<and> files (view w') = (files (view w))(f \<mapsto> c) \<and> dm_targetPath b \<in> dirs (view w')" by simp
  from * show "r = Fail e \<Longrightarrow> mounts (view w') = mounts (view w)" by simp
qed

text \<open>The verdict of the heuristic can be used: it came without an error, or for a missing path.\<close>

definition usable :: "os_error option \<Rightarrow> bool" where
  "usable err \<longleftrightarrow> (case err of None \<Rightarrow> True | Some e \<Rightarrow> os_notExist e)"

lemma attachDevice_cases:
  assumes "attachDevice h b f c p w = (r, w')"
  obtains "IsLikelyNotMountPoint h (dm_targetPath b) w = (None, w')" and "r = Hang"
  | n err e where "IsLikelyNotMountPoint h (dm_targetPath b) w = (Some (n, err), w')" and "\<not> usable err"
      and "r = Fail e"
  | err where "IsLikelyNotMountPoint h (dm_targetPath b) w = (Some (False, err), w')" and "usable err"
      and "r = Ret ''''"
  | err u where "IsLikelyNotMountPoint h (dm_targetPath b) w = (Some (True, err), u)" and "usable err"
      and "mountDevice h b f c p u = (r, w')"
proof -
  obtain v u where i: "IsLikelyNotMountPoint h (dm_targetPath b) w = (v, u)" by (metis prod.exhaust)
  show ?thesis
  proof (cases v)
    case None
    then show ?thesis using assms i that(1) by (simp add: attachDevice_def)
  next
    case (Some ne)
    then obtain n err where v: "v = Some (n, err)" by (cases ne) simp
    show ?thesis
    proof (cases "usable err")
      case False
      then show ?thesis using assms i v that(2) by (auto simp: attachDevice_def usable_def split: option.splits)
    next
      case True
      then show ?thesis
        using assms i v that(3,4)
        by (cases n) (auto simp: attachDevice_def usable_def split: option.splits)
    qed
  qed
qed

lemma attachDevice_effect:
  assumes "lawful h view" and "attachDevice h b f c p w = (r, w')"
  shows "attached (view w') = attached (view w)"
    and "r = Fail e \<Longrightarrow> mounts (view w') = mounts (view w)"
    and "r = Ret x \<Longrightarrow> \<exists>n err u. IsLikelyNotMountPoint h (dm_targetPath b) w = (Some (n, err), u) \<and> usable err
      \<and> (if n then mounts (view w') = mounts (view w) @ [(dm_targetPath b, p)]
           \<and> files (view w') = (files (view w))(f \<mapsto> c) \<and> dm_targetPath b \<in> dirs (view w')
         else view w' = view w)"
proof -
  note same = heuristic_law [OF assms(1)]
  have *: "attached (view w') = attached (view w) \<and> (\<forall>e. r = Fail e \<longrightarrow> mounts (view w') = mounts (view w))
    \<and> (\<forall>x. r = Ret x \<longrightarrow> (\<exists>n err u. IsLikelyNotMountPoint h (dm_targetPath b) w = (Some (n, err), u) \<and> usable err
      \<and> (if n then mounts (view w') = mounts (view w) @ [(dm_targetPath b, p)]
           \<and> files (view w') = (files (view w))(f \<mapsto> c) \<and> dm_targetPath b \<in> dirs (view w')
         else view w' = view w)))"
    using assms(2)
  proof (cases rule: attachDevice_cases)
    case (4 err u)
    have "view u = view w" using same [OF 4(1)] .
    with mountDevice_effect [OF assms(1) 4(3)] 4(1,2) show ?thesis by auto
  qed (use same in auto)
  then show "attached (view w') = attached (view w)" "r = Fail e \<Longrightarrow> mounts (view w') = mounts (view w)"
    by blast+
  from * show "r = Ret x \<Longrightarrow> \<exists>n err u. IsLikelyNotMountPoint h (dm_targetPath b) w = (Some (n, err), u) \<and> usable err
      \<and> (if n then mounts (view w') = mounts (view w) @ [(dm_targetPath b, p)]
           \<and> files (view w') = (files (view w))(f \<mapsto> c) \<and> dm_targetPath b \<in> dirs (view w')
         else view w' = view w)" by blast
qed

lemma AttachDisk_cases:
  assumes "AttachDisk h b f w = (r, w')" and "dm_connector b = Some c"
  obtains x e where "call (Connect h c) w = (x, w')" and "r = Fail e"
      and "(\<exists>e. x = Fail e) \<or> (\<exists>c'. x = Ret ('''', c'))"
  | "call (Connect h c) w = (Hang, w')" and "r = Hang"
  | p c' u where "call (Connect h c) w = (Ret (p, c'), u)" and "p \<noteq> ''''"
      and "attachDevice h b f c' p u = (r, w')"
  using assms(1) unfolding AttachDisk_def assms(2) option.case
proof (cases rule: onErr_call_cases)
  case (Ret a u)
  obtain p c' where a: "a = (p, c')" by (cases a)
  show ?thesis
  proof (cases "p = ''''")
    case True
    then show ?thesis using Ret a that(1) by (auto simp: io_simps)
  next
    case False
    then show ?thesis using Ret a that(3) by auto
  qed
next
  case (Fail e u)
  then show ?thesis using that(1) by (auto simp: io_simps)
next
  case Hang
  then show ?thesis using that(2) by blast
qed

lemma AttachDisk_effect:
  assumes "lawful h view" and "AttachDisk h b f w = (r, w')" and "dm_connector b = Some c"
  shows "attached (view w) \<subseteq> attached (view w')"
    and "r = Fail e \<Longrightarrow> mounts (view w') = mounts (view w)"
    and "call (Connect h c) w = (Ret y, w0) \<Longrightarrow> key c \<in> attached (view w')"
proof -
  have *: "attached (view w) \<subseteq> attached (view w') \<and> (\<forall>e. r = Fail e \<longrightarrow> mounts (view w') = mounts (view w))
    \<and> (\<forall>y w0. call (Connect h c) w = (Ret y, w0) \<longrightarrow> key c \<in> attached (view w'))"
    using assms(2,3)
  proof (cases rule: AttachDisk_cases)
    case (1 x e)
    then show ?thesis using connect_law [OF assms(1) 1(1)] by auto
  next
    case 2
    then show ?thesis using connect_law [OF assms(1) 2(1)] by auto
  next
    case (3 p c' u)
    then show ?thesis
      using connect_law [OF assms(1) 3(1)] attachDevice_effect(1,2) [OF assms(1) 3(3)] by auto
  qed
  then show "attached (view w) \<subseteq> attached (view w')" "r = Fail e \<Longrightarrow> mounts (view w') = mounts (view w)"
    "call (Connect h c) w = (Ret y, w0) \<Longrightarrow> key c \<in> attached (view w')" by blast+
qed

text \<open>A successful attachment, by the verdict of the heuristic after connecting.\<close>

lemma AttachDisk_Ret:
  assumes "lawful h view" and "AttachDisk h b f w = (Ret x, w')" and "dm_connector b = Some c"
  obtains p c' u n err v where "Connect h c w = (Answer (p, c'), u)" and "p \<noteq> ''''" and "key c' = key c"
    and "IsLikelyNotMountPoint h (dm_targetPath b) u = (Some (n, err), v)" and "usable err"
    and "attached (view w') = insert (key c) (attached (view w))"
    and "if n then mounts (view w') = mounts (view w) @ [(dm_targetPath b, p)]
           \<and> files (view w') = (files (view w))(f \<mapsto> c') \<and> dm_targetPath b \<in> dirs (view w')
         else mounts (view w') = mounts (view w) \<and> files (view w') = files (view w)
           \<and> dirs (view w') = dirs (view w)"
  using assms(2,3)
proof (cases rule: AttachDisk_cases)
  case (3 p c' u)
  have conn: "Connect h c w = (Answer (p, c'), u)" using 3(1) by (cases rule: call_cases) auto
  obtain A where u: "view u = (view w)\<lparr>attached := A\<rparr>" "A = insert (key c) (attached (view w))" "key c' = key c"
    using connect_law [OF assms(1) 3(1)] by auto
  obtain n err v where i: "IsLikelyNotMountPoint h (dm_targetPath b) u = (Some (n, err), v)" "usable err"
    and eff: "if n then mounts (view w') = mounts (view u) @ [(dm_targetPath b, p)]
           \<and> files (view w') = (files (view u))(f \<mapsto> c') \<and> dm_targetPath b \<in> dirs (view w')
         else view w' = view u"
    using attachDevice_effect(3) [OF assms(1) 3(3) refl] by blast
  have "attached (view w') = insert (key c) (attached (view w))"
    using attachDevice_effect(1) [OF assms(1) 3(3)] u by simp
  then show ?thesis
    by (rule that [OF conn 3(2) u(3) i]) (use eff u(1) in \<open>simp split: if_splits\<close>)
qed auto

section \<open>Detaching\<close>

text \<open>What the removal of the target path may leave of the connector files and directories.\<close>

definition removed :: "string \<Rightarrow> string \<Rightarrow> machine \<Rightarrow> machine \<Rightarrow> bool" where
  "removed p f m m' \<longleftrightarrow>
     dirs m' \<subseteq> dirs m \<and> (\<forall>q\<in>dirs m. below p q \<or> q \<in> dirs m')
     \<and> (\<forall>g. files m' g = files m g \<or> (g = f \<or> below p g) \<and> files m' g = None)"

lemma detachDevice_effect:
  assumes "lawful h view" and "detachDevice h p f c w = (r, w')"
  shows "mounts (view w') = mounts (view w)"
    and "r = Ret () \<Longrightarrow> attached (view w') \<subseteq> attached (view w) - {key c}
      \<and> (\<forall>k\<in>attached (view w). fst k \<noteq> TargetIqn c \<longrightarrow> k \<in> attached (view w'))
      \<and> files (view w') f = None \<and> removed p f (view w) (view w')"
proof -
  obtain r1 w1 where d: "call (DisconnectVolume h c) w = (r1, w1)" by (cases "call (DisconnectVolume h c) w")
  note law1 = disconnect_volume_law [OF assms(1) d]
  have "mounts (view w') = mounts (view w) \<and> (r = Ret () \<longrightarrow>
      attached (view w') \<subseteq> attached (view w) - {key c}
      \<and> (\<forall>k\<in>attached (view w). fst k \<noteq> TargetIqn c \<longrightarrow> k \<in> attached (view w'))
      \<and> files (view w') f = None \<and> removed p f (view w) (view w'))"
    using assms(2) unfolding detachDevice_def
  proof (cases rule: onErr_call_cases)
    case (Fail e u)
    then show ?thesis using law1 d by (auto simp: io_simps)
  next
    case Hang
    then show ?thesis using law1 d by auto
  next
    case (Ret c' u)
    then have c': "u = w1" "r1 = Ret c'" using d by simp_all
    then have u: "key c' = key c" "attached (view w1) = attached (view w) - {key c}"
      using law1 by simp_all
    obtain A where "view w1 = (view w)\<lparr>attached := A\<rparr>" using law1 by blast
    then have same: "mounts (view w1) = mounts (view w)" "files (view w1) = files (view w)"
      "dirs (view w1) = dirs (view w)" by simp_all
    have t: "TargetIqn c' = TargetIqn c" using u(1) by (simp add: key_def)
    from Ret(2) show ?thesis unfolding c'(1)
    proof (cases rule: ignoring_call_cases)
      case Hang
      then show ?thesis using disconnect_law [OF assms(1) Hang(1)] same by auto
    next
      case (run r2 w2)
      obtain A where A: "view w2 = (view w1)\<lparr>attached := A\<rparr>" "A \<subseteq> attached (view w1)"
        "\<forall>k\<in>attached (view w1). fst k \<noteq> TargetIqn c' \<longrightarrow> k \<in> A"
        using disconnect_law [OF assms(1) run(1)] by blast
      from run(2) show ?thesis
      proof (cases rule: ignoring_call_cases)
        case Hang
        then show ?thesis using remove_all_law [OF assms(1) Hang(1)] A same by auto
      next
        case (run r3 w3)
        note rm = remove_all_law [OF assms(1) run(1)]
        have w3: "mounts (view w3) = mounts (view w)" "attached (view w3) = A" "removed p f (view w) (view w3)"
          using rm A(1) same unfolding removed_def by simp_all blast
        from run(2) have "mounts (view w') = mounts (view w3) \<and> (r = Ret () \<longrightarrow>
            attached (view w') = attached (view w3) \<and> dirs (view w') = dirs (view w3)
            \<and> (\<forall>g. files (view w') g = (if g = f then None else files (view w3) g)))"
        proof (cases rule: onErr_call_cases)
          case (Ret x y)
          then show ?thesis using remove_law [OF assms(1) Ret(1)] by (auto simp: io_simps)
        next
          case (Fail e y)
          then show ?thesis using remove_law [OF assms(1) Fail(1)] by (auto simp: io_simps)
        next
          case Hang
          then show ?thesis using remove_law [OF assms(1) Hang(1)] by auto
        qed
        then show ?thesis using u A w3 t by (auto simp: removed_def key_def)
      qed
    qed
  qed
  then show "mounts (view w') = mounts (view w)"
    "r = Ret () \<Longrightarrow> attached (view w') \<subseteq> attached (view w) - {key c}
      \<and> (\<forall>k\<in>attached (view w). fst k \<noteq> TargetIqn c \<longrightarrow> k \<in> attached (view w'))
      \<and> files (view w') f = None \<and> removed p f (view w) (view w')"
    by blast+
qed

text \<open>The mounts that are not at a path.\<close>

abbreviation unmounted :: "machine \<Rightarrow> string \<Rightarrow> (string \<times> string) list" where
  "unmounted m p \<equiv> filter (\<lambda>e. fst e \<noteq> p) (mounts m)"

abbreviation uncovered :: "machine \<Rightarrow> string \<Rightarrow> machine" where
  "uncovered m p \<equiv> m\<lparr>mounts := unstack p (mounts m)\<rparr>"

lemma DetachDisk_cases:
  assumes "lawful h view" and "DetachDisk h du p f w = (r, w')"
  obtains e where "r = Fail e" and "view w' = view w"
  | "r = Hang" and "view w' = view w \<or> view w' = uncovered (view w) p"
  | "r = Ret ()" and "view w' = view w" and "p \<notin> dirs (view w) \<or> files (view w) f = None"
  | "r = Ret ()" and "view w' = uncovered (view w) p" and "device_count (view w) p \<noteq> 1"
  | c u where "files (view w) f = Some c" and "view u = uncovered (view w) p"
      and "device_count (view w) p = 1" and "detachDevice h p f c u = (r, w')"
  using assms(2) unfolding DetachDisk_def
proof (cases rule: onErr_call_cases)
  case (Fail e u)
  then show ?thesis using device_law [OF assms(1) Fail(1)] that(1) by (auto simp: io_simps)
next
  case Hang
  then show ?thesis using device_law [OF assms(1) Hang(1)] that(2) by auto
next
  case (Ret a u)
  obtain dv cnt where a: "a = (dv, cnt)" by (cases a)
  then have u: "view u = view w" "cnt = int (device_count (view w) p)" using device_law [OF assms(1) Ret(1)] by auto
  from Ret(2) show ?thesis unfolding a case_prod_conv
  proof (cases rule: onErr_call_cases)
    case (Fail e v)
    then show ?thesis using exists_law [OF assms(1) Fail(1)] that(1) u(1) by (auto simp: io_simps)
  next
    case Hang
    then show ?thesis using exists_law [OF assms(1) Hang(1)] that(2) u(1) by auto
  next
    case (Ret b v)
    then have v: "view v = view w" "b = (p \<in> dirs (view w))" using exists_law [OF assms(1) Ret(1)] u(1) by auto
    show ?thesis
    proof (cases b)
      case False
      then show ?thesis using Ret(2) v that(3) by (auto simp: io_simps)
    next
      case True
      with Ret(2) have "onErr (call (GetConnectorFromFile h f))
        (\<lambda>err. if os_notExist err then ret () else fail (''rpc error: code = Internal desc = '' @ os_text err))
        (\<lambda>connector. onErr (call (Unmount h p)) os_fail (\<lambda>_.
           if cnt - 1 \<noteq> 0 then ret () else detachDevice h p f connector)) v = (r, w')" by simp
      then show ?thesis
      proof (cases rule: onErr_call_cases)
        case (Fail e x)
        then show ?thesis
          using load_law [OF assms(1) Fail(1)] v that(1,3) by (auto simp: io_simps split: if_splits)
      next
        case Hang
        then show ?thesis using load_law [OF assms(1) Hang(1)] v that(2) by auto
      next
        case (Ret c x)
        then have x: "view x = view w" "files (view w) f = Some c" using load_law [OF assms(1) Ret(1)] v by auto
        from Ret(2) show ?thesis
        proof (cases rule: onErr_call_cases)
          case (Fail e y)
          then show ?thesis using unmount_law [OF assms(1) Fail(1)] x that(1) by (auto simp: io_simps)
        next
          case Hang
          then show ?thesis using unmount_law [OF assms(1) Hang(1)] x that(2) by auto
        next
          case (Ret d y)
          then have "view y = uncovered (view w) p"
            using unmount_law [OF assms(1) Ret(1)] x by auto
          then show ?thesis using Ret(2) x u(2) that(4,5) by (auto simp: io_simps split: if_splits)
        qed
      qed
    qed
  qed
qed

text \<open>Unless the last mount of the device goes, nothing is detached and no file is removed.\<close>

lemma DetachDisk_keeps:
  assumes "lawful h view" and "DetachDisk h du p f w = (r, w')" and "device_count (view w) p \<noteq> 1"
  shows "attached (view w') = attached (view w)" and "files (view w') = files (view w)"
    and "mounts (view w') = mounts (view w) \<or> mounts (view w') = unstack p (mounts (view w))"
proof -
  have "attached (view w') = attached (view w) \<and> files (view w') = files (view w)
    \<and> (mounts (view w') = mounts (view w) \<or> mounts (view w') = unstack p (mounts (view w)))"
    by (rule DetachDisk_cases [OF assms(1,2)]) (use assms(3) in auto)
  then show "attached (view w') = attached (view w)" and "files (view w') = files (view w)"
    and "mounts (view w') = mounts (view w) \<or> mounts (view w') = unstack p (mounts (view w))" by blast+
qed

section \<open>The handlers\<close>

definition volume_of :: "nodePublishVolumeRequest \<Rightarrow> volume_key" where
  "volume_of req =
     (ctx (np_VolumeContext req) ''iqn'',
      case Atoi (ctx (np_VolumeContext req) ''lun'') of None \<Rightarrow> 0 | Some l \<Rightarrow> to_int32 l)"

lemma NodePublish_cases:
  assumes "NodePublishVolume h lt d req w = (r, w')"
  obtains st where "r = Fail st" and "w' = w" and "np_VolumeCapability req = None \<or> np_VolumeId req = ''''
      \<or> np_TargetPath req = '''' \<or> (\<exists>e. getISCSIInfo req = Inl e)"
  | b c r1 where "AttachDisk h b (getISCSILibConfigPath d (np_VolumeId req)) w = (r1, w')"
      and "dm_connector b = Some c" and "dm_targetPath b = np_TargetPath req" and "key c = volume_of req"
      and "\<exists>info. getISCSIInfo req = Inr info \<and> buildISCSIConnector (Some info) = Some c"
      and "r = (case r1 of Ret _ \<Rightarrow> Ret () | Fail e \<Rightarrow> Fail (Status Internal e) | Panic \<Rightarrow> Panic | Hang \<Rightarrow> Hang)"
proof (cases "np_VolumeCapability req = None \<or> np_VolumeId req = '''' \<or> np_TargetPath req = ''''
    \<or> (\<exists>e. getISCSIInfo req = Inl e)")
  case True
  then show ?thesis using assms that(1) by (auto simp: NodePublishVolume_def io_simps split: if_splits)
next
  case False
  then obtain info where i: "getISCSIInfo req = Inr info" by (cases "getISCSIInfo req") auto
  let ?b = "getISCSIDiskMounter info req"
  obtain c l where c: "buildISCSIConnector (Some info) = Some c" "TargetIqn c = ctx (np_VolumeContext req) ''iqn''"
    "con_Lun c = to_int32 l" "Atoi (ctx (np_VolumeContext req) ''lun'') = Some l"
    using connector_of_info [OF i] False by metis
  obtain r1 w1 where a: "AttachDisk h ?b (getISCSILibConfigPath d (np_VolumeId req)) w = (r1, w1)" by (metis prod.exhaust)
  have "w1 = w' \<and> r = (case r1 of Ret _ \<Rightarrow> Ret () | Fail e \<Rightarrow> Fail (Status Internal e) | Panic \<Rightarrow> Panic | Hang \<Rightarrow> Hang)"
    using assms False a by (cases r1) (auto simp: NodePublishVolume_def i io_simps)
  then show ?thesis
    using a c i by (intro that(2) [of ?b r1 c]) (simp_all add: getISCSIDiskMounter_def key_def volume_of_def)
qed

lemma NodeUnpublish_run:
  assumes "nu_VolumeId req \<noteq> ''''" and "nu_TargetPath req \<noteq> ''''"
  shows "NodeUnpublishVolume h d req w =
    (case DetachDisk h (getISCSIDiskUnmounter req) (nu_TargetPath req) (getISCSILibConfigPath d (nu_VolumeId req)) w of
       (Ret u, w') \<Rightarrow> (Ret (), w')
     | (Fail e, w') \<Rightarrow> (Fail (Status Internal e), w')
     | (Panic, w') \<Rightarrow> (Panic, w')
     | (Hang, w') \<Rightarrow> (Hang, w'))"
  using assms by (auto simp: NodeUnpublishVolume_def onErr_def io_simps split: outcome.splits prod.splits)

text \<open>A host none of whose operations blocks.\<close>

definition answers :: "'w host \<Rightarrow> bool" where
  "answers h \<longleftrightarrow>
     (\<forall>c w. fst (Connect h c w) \<noteq> Blocked) \<and> (\<forall>c w. fst (DisconnectVolume h c w) \<noteq> Blocked)
     \<and> (\<forall>i ps w. fst (Disconnect h i ps w) \<noteq> Blocked) \<and> (\<forall>c f w. fst (PersistConnector h c f w) \<noteq> Blocked)
     \<and> (\<forall>f w. fst (GetConnectorFromFile h f w) \<noteq> Blocked) \<and> (\<forall>p w. fst (IsLikelyNotMountPoint h p w) \<noteq> None)
     \<and> (\<forall>dv p fs opts w. fst (FormatAndMount h dv p fs opts w) \<noteq> Blocked) \<and> (\<forall>p w. fst (Unmount h p w) \<noteq> Blocked)
     \<and> (\<forall>p w. fst (GetDeviceNameFromMount h p w) \<noteq> Blocked) \<and> (\<forall>p w. fst (PathExists h p w) \<noteq> Blocked)
     \<and> (\<forall>p mode w. fst (MkdirAll h p mode w) \<noteq> Blocked) \<and> (\<forall>p w. fst (RemoveAll h p w) \<noteq> Blocked)
     \<and> (\<forall>f w. fst (Remove h f w) \<noteq> Blocked)"

lemma call_answers: "fst (m w) \<noteq> Blocked \<Longrightarrow> call m w \<noteq> (Hang, w')"
  by (auto simp: call_def split: prod.splits answer.splits)

lemma answersD:
  assumes "answers h"
  shows "call (Connect h c) w \<noteq> (Hang, w')" "call (DisconnectVolume h c) w \<noteq> (Hang, w')"
    "call (Disconnect h i ps) w \<noteq> (Hang, w')" "call (PersistConnector h c f) w \<noteq> (Hang, w')"
    "call (GetConnectorFromFile h f) w \<noteq> (Hang, w')" "IsLikelyNotMountPoint h p w \<noteq> (None, w')"
    "call (FormatAndMount h dv p fs opts) w \<noteq> (Hang, w')" "call (Unmount h p) w \<noteq> (Hang, w')"
    "call (GetDeviceNameFromMount h p) w \<noteq> (Hang, w')" "call (PathExists h p) w \<noteq> (Hang, w')"
    "call (MkdirAll h p mode) w \<noteq> (Hang, w')" "call (RemoveAll h p) w \<noteq> (Hang, w')"
    "call (Remove h f) w \<noteq> (Hang, w')"
proof -
  show "IsLikelyNotMountPoint h p w \<noteq> (None, w')" using assms unfolding answers_def by (metis fst_conv)
qed (rule call_answers, use assms in \<open>simp add: answers_def\<close>)+

lemma AttachDisk_ends:
  assumes "dm_connector b \<noteq> None"
  shows "AttachDisk h b f w \<noteq> (Panic, w')" and "answers h \<Longrightarrow> AttachDisk h b f w \<noteq> (Hang, w')"
proof -
  obtain c where c: "dm_connector b = Some c" using assms by blast
  have "mountDevice h b f c p u \<noteq> (Panic, w')" "answers h \<Longrightarrow> mountDevice h b f c p u \<noteq> (Hang, w')" for c p u
    unfolding mountDevice_def Let_def
    by (auto elim!: onErr_call_cases simp: effect_defs os_fail_run answersD)
  then have "attachDevice h b f c p u \<noteq> (Panic, w')" "answers h \<Longrightarrow> attachDevice h b f c p u \<noteq> (Hang, w')" for c p u
    by (auto elim!: attachDevice_cases simp: answersD)
  then show "AttachDisk h b f w \<noteq> (Panic, w')" "answers h \<Longrightarrow> AttachDisk h b f w \<noteq> (Hang, w')"
    by (auto elim!: AttachDisk_cases [OF _ c] simp: answersD)
qed

lemma DetachDisk_ends:
  shows "DetachDisk h du p f w \<noteq> (Panic, w')" and "answers h \<Longrightarrow> DetachDisk h du p f w \<noteq> (Hang, w')"
proof -
  have "detachDevice h p f c u \<noteq> (Panic, w')" "answers h \<Longrightarrow> detachDevice h p f c u \<noteq> (Hang, w')" for c u
    unfolding detachDevice_def
    by (auto elim!: onErr_call_cases ignoring_call_cases simp: effect_defs os_fail_run answersD)
  then show "DetachDisk h du p f w \<noteq> (Panic, w')" "answers h \<Longrightarrow> DetachDisk h du p f w \<noteq> (Hang, w')"
    unfolding DetachDisk_def
    by (auto elim!: onErr_call_cases simp: effect_defs os_fail_run answersD split: if_splits prod.splits)
qed

text \<open>
  C23: publishing and unpublishing never panic, whatever the request holds and whatever the node
  does: the connector that is dereferenced is never nil. They return if no operation of the node
  blocks; but they set no deadline of their own, so a publish whose connection blocks does not
  return.
\<close>

theorem node_never_panics:
  "fst (NodePublishVolume h lt d req w) \<noteq> Panic \<and> fst (NodeUnpublishVolume h d ureq w) \<noteq> Panic
    \<and> (answers h \<longrightarrow> fst (NodePublishVolume h lt d req w) \<noteq> Hang \<and> fst (NodeUnpublishVolume h d ureq w) \<noteq> Hang)
    \<and> (\<forall>info c. np_VolumeCapability req \<noteq> None \<and> np_VolumeId req \<noteq> '''' \<and> np_TargetPath req \<noteq> ''''
         \<and> getISCSIInfo req = Inr info \<and> buildISCSIConnector (Some info) = Some c
         \<and> fst (Connect h c w) = Blocked \<longrightarrow> fst (NodePublishVolume h lt d req w) = Hang)"
proof (intro conjI impI allI)
  obtain r w' where p: "NodePublishVolume h lt d req w = (r, w')" by (metis prod.exhaust)
  have pub: "r \<noteq> Panic \<and> (answers h \<longrightarrow> r \<noteq> Hang)"
  proof (rule NodePublish_cases [OF p])
    fix b c r1
    assume a: "AttachDisk h b (getISCSILibConfigPath d (np_VolumeId req)) w = (r1, w')" "dm_connector b = Some c"
      and r: "r = (case r1 of Ret _ \<Rightarrow> Ret () | Fail e \<Rightarrow> Fail (Status Internal e) | Panic \<Rightarrow> Panic | Hang \<Rightarrow> Hang)"
    have "r1 \<noteq> Panic" "answers h \<longrightarrow> r1 \<noteq> Hang"
      using AttachDisk_ends [of b h "getISCSILibConfigPath d (np_VolumeId req)" w w'] a by auto
    with r show ?thesis by (cases r1) simp_all
  qed simp
  then show "fst (NodePublishVolume h lt d req w) \<noteq> Panic" by (simp add: p)
  from pub show "fst (NodePublishVolume h lt d req w) \<noteq> Hang" if "answers h" using that by (simp add: p)
  have un: "NodeUnpublishVolume h d ureq w \<noteq> (Panic, w')" "answers h \<Longrightarrow> NodeUnpublishVolume h d ureq w \<noteq> (Hang, w')" for w'
    using DetachDisk_ends [of h "getISCSIDiskUnmounter ureq" "nu_TargetPath ureq"
        "getISCSILibConfigPath d (nu_VolumeId ureq)" w]
    by (auto simp: NodeUnpublishVolume_def io_simps split: if_splits elim!: onErr_cases)
  then show "fst (NodeUnpublishVolume h d ureq w) \<noteq> Panic" by (metis prod.collapse)
  show "fst (NodeUnpublishVolume h d ureq w) \<noteq> Hang" if "answers h" using un(2) [OF that] by (metis prod.collapse)
  fix info c
  assume a: "np_VolumeCapability req \<noteq> None \<and> np_VolumeId req \<noteq> '''' \<and> np_TargetPath req \<noteq> ''''
         \<and> getISCSIInfo req = Inr info \<and> buildISCSIConnector (Some info) = Some c
         \<and> fst (Connect h c w) = Blocked"
  then obtain u where "Connect h c w = (Blocked, u)" by (metis prod.collapse)
  then have "call (Connect h c) w = (Hang, u)" by (simp add: call_def)
  with a show "fst (NodePublishVolume h lt d req w) = Hang"
    by (simp add: NodePublishVolume_def AttachDisk_def getISCSIDiskMounter_def io_simps)
qed

lemma publish_Ret:
  assumes "lawful h view" and "NodePublishVolume h lt d req w = (Ret (), w')"
  obtains info c p c' u n err v where "getISCSIInfo req = Inr info" and "buildISCSIConnector (Some info) = Some c"
    and "key c = volume_of req" and "Connect h c w = (Answer (p, c'), u)" and "p \<noteq> ''''" and "key c' = volume_of req"
    and "IsLikelyNotMountPoint h (np_TargetPath req) u = (Some (n, err), v)" and "usable err"
    and "attached (view w') = insert (volume_of req) (attached (view w))"
    and "if n then mounts (view w') = mounts (view w) @ [(np_TargetPath req, p)]
           \<and> files (view w') = (files (view w))(getISCSILibConfigPath d (np_VolumeId req) \<mapsto> c')
           \<and> np_TargetPath req \<in> dirs (view w')
         else mounts (view w') = mounts (view w) \<and> files (view w') = files (view w)
           \<and> dirs (view w') = dirs (view w)"
  using assms(2)
proof (rule NodePublish_cases)
  fix b c r1
  assume a: "AttachDisk h b (getISCSILibConfigPath d (np_VolumeId req)) w = (r1, w')" "dm_connector b = Some c"
    and b: "dm_targetPath b = np_TargetPath req" "key c = volume_of req"
    and i: "\<exists>info. getISCSIInfo req = Inr info \<and> buildISCSIConnector (Some info) = Some c"
    and "Ret () = (case r1 of Ret _ \<Rightarrow> Ret () | Fail e \<Rightarrow> Fail (Status Internal e) | Panic \<Rightarrow> Panic | Hang \<Rightarrow> Hang)"
  then obtain x where "r1 = Ret x" by (cases r1) simp_all
  from i obtain info where "getISCSIInfo req = Inr info" "buildISCSIConnector (Some info) = Some c" by blast
  note info = this
  show ?thesis
  proof (rule AttachDisk_Ret [OF assms(1) a(1) [unfolded \<open>r1 = Ret x\<close>] a(2)])
    fix p c' u n err v
    assume "Connect h c w = (Answer (p, c'), u)" "p \<noteq> ''''" "key c' = key c"
      "IsLikelyNotMountPoint h (dm_targetPath b) u = (Some (n, err), v)" "usable err"
      "attached (view w') = insert (key c) (attached (view w))"
      "if n then mounts (view w') = mounts (view w) @ [(dm_targetPath b, p)]
           \<and> files (view w') = (files (view w))(getISCSILibConfigPath d (np_VolumeId req) \<mapsto> c')
           \<and> dm_targetPath b \<in> dirs (view w')
         else mounts (view w') = mounts (view w) \<and> files (view w') = files (view w)
           \<and> dirs (view w') = dirs (view w)"
    then show ?thesis unfolding b by (rule that [OF info b(2)])
  qed
qed simp

text \<open>
  C13: what a successful publish leaves on a lawful node. The volume of the request is attached, by a
  call of \<open>Connect\<close> that named a device. Then the heuristic was asked, and its verdict decides: if
  it took the path for no mount point, the device is mounted there, last in the table, the path
  exists, and the connector the library returned, one of that volume, is kept in the volume's
  file; if it took it for one, mounts, files and directories are as before. The verdict need not
  be true: a mount it does not see is mounted over.
\<close>

theorem publish_effect:
  assumes "lawful h view" and "NodePublishVolume h lt d req w = (Ret (), w')"
  shows "attached (view w') = insert (volume_of req) (attached (view w))
    \<and> (\<exists>info c p c' u notMnt err v. getISCSIInfo req = Inr info \<and> buildISCSIConnector (Some info) = Some c
        \<and> Connect h c w = (Answer (p, c'), u) \<and> p \<noteq> '''' \<and> key c' = volume_of req
        \<and> IsLikelyNotMountPoint h (np_TargetPath req) u = (Some (notMnt, err), v) \<and> usable err
        \<and> (if notMnt
           then mounts (view w') = mounts (view w) @ [(np_TargetPath req, p)]
             \<and> files (view w') = (files (view w))(getISCSILibConfigPath d (np_VolumeId req) \<mapsto> c')
             \<and> np_TargetPath req \<in> dirs (view w')
           else mounts (view w') = mounts (view w) \<and> files (view w') = files (view w)
             \<and> dirs (view w') = dirs (view w)))"
  by (rule publish_Ret [OF assms]) blast

section \<open>Isolation\<close>

text \<open>
  What one volume's handlers may change, as frame conditions: a publish adds at most its volume,
  mounts at its path, directories on the way to its path, and its file; an unpublish drops at most
  LUNs of its target, mounts at its path, its file, and what lies at or below its path.
\<close>

definition adds :: "('w \<Rightarrow> machine) \<Rightarrow> volume_key \<Rightarrow> string \<Rightarrow> string \<Rightarrow> 'w \<Rightarrow> 'w \<Rightarrow> bool" where
  "adds view k p f s t \<longleftrightarrow>
     attached (view s) \<subseteq> attached (view t) \<and> attached (view t) \<subseteq> insert k (attached (view s))
     \<and> (\<exists>xs. mounts (view t) = mounts (view s) @ xs \<and> fst ` set xs \<subseteq> {p})
     \<and> (\<forall>g. g \<noteq> f \<longrightarrow> files (view t) g = files (view s) g)
     \<and> dirs (view s) \<subseteq> dirs (view t) \<and> (\<forall>q\<in>dirs (view t). q \<in> dirs (view s) \<or> below q p)"

definition drops :: "('w \<Rightarrow> machine) \<Rightarrow> string \<Rightarrow> string \<Rightarrow> string \<Rightarrow> 'w \<Rightarrow> 'w \<Rightarrow> bool" where
  "drops view iqn p f s t \<longleftrightarrow>
     attached (view t) \<subseteq> attached (view s) \<and> (\<forall>k\<in>attached (view s). fst k \<noteq> iqn \<longrightarrow> k \<in> attached (view t))
     \<and> unmounted (view t) p = unmounted (view s) p \<and> removed p f (view s) (view t)"

interpretation publishing: frame "adds view k p f" for view k p f
proof
  fix s t u
  assume st: "adds view k p f s t" and tu: "adds view k p f t u"
  then obtain xs ys where "mounts (view t) = mounts (view s) @ xs" "fst ` set xs \<subseteq> {p}"
    "mounts (view u) = mounts (view t) @ ys" "fst ` set ys \<subseteq> {p}" by (auto simp: adds_def)
  then have "\<exists>zs. mounts (view u) = mounts (view s) @ zs \<and> fst ` set zs \<subseteq> {p}"
    by (intro exI [of _ "xs @ ys"]) auto
  moreover have "dirs (view s) \<subseteq> dirs (view u)" "\<forall>q\<in>dirs (view u). q \<in> dirs (view s) \<or> below q p"
    using st tu unfolding adds_def by blast+
  ultimately show "adds view k p f s u" using st tu by (auto simp: adds_def)
qed (auto simp: adds_def)

interpretation unpublishing: frame "drops view iqn p f" for view iqn p f
proof
  fix s t u
  assume st: "drops view iqn p f s t" and tu: "drops view iqn p f t u"
  have "dirs (view u) \<subseteq> dirs (view s)" "\<forall>q\<in>dirs (view s). below p q \<or> q \<in> dirs (view u)"
    using st tu unfolding drops_def removed_def by blast+
  moreover have "\<forall>g. files (view u) g = files (view s) g \<or> (g = f \<or> below p g) \<and> files (view u) g = None"
    using st tu unfolding drops_def removed_def by metis
  ultimately show "drops view iqn p f s u" using st tu by (auto simp: drops_def removed_def)
qed (auto simp: drops_def removed_def)

lemma stays_call: "(\<And>s r t. call m s = (r, t) \<Longrightarrow> R s t) \<Longrightarrow> stays R (call m)"
  by (rule staysI) (metis prod.collapse)

lemma same_view: "view t = view s \<Longrightarrow> adds view k p f s t" "view t = view s \<Longrightarrow> drops view iqn p f s t"
  by (auto simp: adds_def drops_def removed_def)

lemma adds_calls:
  assumes "lawful h view"
  shows "stays (adds view (key c) p f) (call (Connect h c))"
    and "stays (adds view k p f) (call (MkdirAll h p mode))"
    and "stays (adds view k p f) (call (PersistConnector h c f))"
    and "stays (adds view k p f) (call (FormatAndMount h dv p fs opts))"
proof -
  show "stays (adds view (key c) p f) (call (Connect h c))"
    by (rule stays_call, drule connect_law [OF assms]) (auto simp: adds_def)
  show "stays (adds view k p f) (call (MkdirAll h p mode))"
    by (rule stays_call, drule mkdir_law [OF assms]) (auto simp: adds_def)
  show "stays (adds view k p f) (call (PersistConnector h c f))"
    by (rule stays_call, drule persist_law [OF assms]) (auto simp: adds_def)
  show "stays (adds view k p f) (call (FormatAndMount h dv p fs opts))"
    by (rule stays_call, drule mount_law [OF assms]) (auto simp: adds_def)
qed


lemma stays_os_fail: "stays (adds view k p f) (os_fail e)" "stays (drops view iqn p f) (os_fail e)"
  unfolding os_fail_def by (rule publishing.stays_fail unpublishing.stays_fail)+

lemma stays_mountDevice:
  assumes "lawful h view"
  shows "stays (adds view k (dm_targetPath b) f) (mountDevice h b f c q)"
  unfolding mountDevice_def Let_def
  by (intro publishing.stays_intros adds_calls [OF assms] stays_os_fail)

lemma stays_attachDevice:
  assumes "lawful h view"
  shows "stays (adds view k (dm_targetPath b) f) (attachDevice h b f c q)"
proof (rule staysI)
  fix w
  obtain r w' where a: "attachDevice h b f c q w = (r, w')" by (metis prod.exhaust)
  then have "adds view k (dm_targetPath b) f w w'"
  proof (cases rule: attachDevice_cases)
    case (4 err u)
    have "adds view k (dm_targetPath b) f w u" by (rule same_view(1), rule heuristic_law [OF assms 4(1)])
    moreover have "adds view k (dm_targetPath b) f u w'" by (rule staysD [OF stays_mountDevice [OF assms] 4(3)])
    ultimately show ?thesis by (rule publishing.frame_trans)
  qed (rule same_view(1), rule heuristic_law [OF assms], assumption)+
  then show "adds view k (dm_targetPath b) f w (snd (attachDevice h b f c q w))" by (simp add: a)
qed

lemma stays_AttachDisk:
  assumes "lawful h view" and "dm_connector b = Some c"
  shows "stays (adds view (key c) (dm_targetPath b) f) (AttachDisk h b f)"
  unfolding AttachDisk_def assms(2) option.case case_prod_beta
  by (intro publishing.stays_intros adds_calls [OF assms(1)] stays_attachDevice [OF assms(1)] stays_os_fail)




lemma publish_adds:
  assumes "lawful h view" and "NodePublishVolume h lt d req w = (r, w1)"
  shows "adds view (volume_of req) (np_TargetPath req) (getISCSILibConfigPath d (np_VolumeId req)) w w1"
  using assms(2)
proof (rule NodePublish_cases)
  fix b c r1
  assume "AttachDisk h b (getISCSILibConfigPath d (np_VolumeId req)) w = (r1, w1)" "dm_connector b = Some c"
    "dm_targetPath b = np_TargetPath req" "key c = volume_of req"
  then show ?thesis
    using staysD [OF stays_AttachDisk [OF assms(1), of b c]] by metis
qed (simp add: publishing.frame_refl)


lemma mounted_count: "device_count m p \<noteq> 0 \<Longrightarrow> mounted m p"
  by (metis device_count_0)

text \<open>
  C4: publishing and then unpublishing restores the node. Take a lawful node where nothing is mounted
  at the path and no LUN of the volume's target is attached, and a publish followed by an
  unpublish of the same volume and path, both successful. If after the publish the device mounted
  at the path is mounted there and nowhere else (so the heuristic did let it be mounted), then
  the attached volumes and the mounts are as they were, the volume has no connector file, other
  connector files are as they were unless they lay at or below the target path, and so are the
  directories, but for missing ones on the way to the path, which stay created.
\<close>

theorem publish_unpublish:
  assumes "lawful h view"
    and "NodePublishVolume h lt d req w = (Ret (), w1)"
    and "NodeUnpublishVolume h d \<lparr>nu_VolumeId = np_VolumeId req, nu_TargetPath = np_TargetPath req\<rparr> w1 = (Ret (), w2)"
    and "\<not> mounted (view w) (np_TargetPath req)"
    and "device_count (view w1) (np_TargetPath req) = 1"
    and "fst (volume_of req) \<notin> fst ` attached (view w)"
  shows "attached (view w2) = attached (view w) \<and> mounts (view w2) = mounts (view w)
    \<and> files (view w2) (getISCSILibConfigPath d (np_VolumeId req)) = None
    \<and> (\<forall>g. g \<noteq> getISCSILibConfigPath d (np_VolumeId req) \<and> \<not> below (np_TargetPath req) g
         \<longrightarrow> files (view w2) g = files (view w) g)
    \<and> (\<forall>q\<in>dirs (view w). \<not> below (np_TargetPath req) q \<longrightarrow> q \<in> dirs (view w2))
    \<and> (\<forall>q\<in>dirs (view w2). q \<in> dirs (view w) \<or> below q (np_TargetPath req))"
proof -
  let ?p = "np_TargetPath req" and ?f = "getISCSILibConfigPath d (np_VolumeId req)"
  have add: "adds view (volume_of req) ?p ?f w w1" by (rule publish_adds [OF assms(1,2)])
  obtain dv c where w1: "attached (view w1) = insert (volume_of req) (attached (view w))"
    "mounts (view w1) = mounts (view w) @ [(?p, dv)]" "?p \<in> dirs (view w1)"
    "key c = volume_of req" "files (view w1) = (files (view w))(?f \<mapsto> c)"
  proof (rule publish_Ret [OF assms(1,2)])
    fix q c' n
    assume c': "key c' = volume_of req" "attached (view w1) = insert (volume_of req) (attached (view w))"
      and n: "if n then mounts (view w1) = mounts (view w) @ [(?p, q)]
           \<and> files (view w1) = (files (view w))(?f \<mapsto> c') \<and> ?p \<in> dirs (view w1)
         else mounts (view w1) = mounts (view w) \<and> files (view w1) = files (view w)
           \<and> dirs (view w1) = dirs (view w)"
    have "mounted (view w1) ?p" using mounted_count [of "view w1" ?p] assms(5) by simp
    then have n using n assms(4) by (auto simp: mounted_def split: if_splits)
    with n c' show thesis by (intro that) auto
  qed
  have un: "unstack ?p (mounts (view w1)) = mounts (view w)" by (simp add: w1(2))
  have ids: "np_VolumeId req \<noteq> ''''" "?p \<noteq> ''''"
    using assms(2) by (auto simp: NodePublishVolume_def io_simps split: if_splits)
  with assms(3) obtain x where det: "DetachDisk h (getISCSIDiskUnmounter
      \<lparr>nu_VolumeId = np_VolumeId req, nu_TargetPath = ?p\<rparr>) ?p ?f w1 = (Ret x, w2)"
    by (auto simp: NodeUnpublish_run split: outcome.splits prod.splits)
  then show ?thesis
  proof (rule DetachDisk_cases [OF assms(1)])
    fix c' u
    assume c': "files (view w1) ?f = Some c'" and u: "view u = uncovered (view w1) ?p"
      and d: "detachDevice h ?p ?f c' u = (Ret x, w2)"
    have k: "key c' = volume_of req" using c' w1(4,5) by simp
    have "mounts (view w2) = mounts (view w)"
      using detachDevice_effect(1) [OF assms(1) d] u un by simp
    moreover have eff: "attached (view w2) \<subseteq> attached (view w1) - {volume_of req}"
      "\<forall>k\<in>attached (view w1). fst k \<noteq> fst (volume_of req) \<longrightarrow> k \<in> attached (view w2)"
      "files (view w2) ?f = None" "removed ?p ?f (view w1) (view w2)"
      using detachDevice_effect(2) [OF assms(1) d] u k key_def [of c'] by (simp_all add: prod_eq_iff removed_def)
    moreover have "attached (view w2) = attached (view w)"
      using eff(1,2) w1(1) assms(6) by (auto simp: image_iff)
    moreover have "\<forall>g. g \<noteq> ?f \<and> \<not> below ?p g \<longrightarrow> files (view w2) g = files (view w) g"
      using eff(4) w1(5) unfolding removed_def by (metis fun_upd_other)
    moreover have "\<forall>q\<in>dirs (view w). \<not> below ?p q \<longrightarrow> q \<in> dirs (view w2)"
      "\<forall>q\<in>dirs (view w2). q \<in> dirs (view w) \<or> below q ?p"
      using eff(4) add unfolding removed_def adds_def by blast+
    ultimately show ?thesis by blast
  qed (use w1 assms(5) in auto)
qed

lemma unpublish_run_keeps:
  assumes "lawful h view" and "device_count (view w) (nu_TargetPath req) \<noteq> 1"
    and "w' = snd (NodeUnpublishVolume h d req w)"
  shows "attached (view w') = attached (view w)" and "files (view w') = files (view w)"
    and "mounts (view w') = mounts (view w) \<or> mounts (view w') = unstack (nu_TargetPath req) (mounts (view w))"
proof -
  obtain r1 w1 where d: "DetachDisk h (getISCSIDiskUnmounter req) (nu_TargetPath req)
      (getISCSILibConfigPath d (nu_VolumeId req)) w = (r1, w1)" by (metis prod.exhaust)
  have "w' = w \<or> w' = w1"
    using d by (cases r1) (auto simp: assms(3) NodeUnpublishVolume_def io_simps)
  then show "attached (view w') = attached (view w)" and "files (view w') = files (view w)"
    and "mounts (view w') = mounts (view w) \<or> mounts (view w') = unstack (nu_TargetPath req) (mounts (view w))"
    using DetachDisk_keeps [OF assms(1) d assms(2)] by auto
qed

text \<open>
  C15: an unpublish detaches a volume only with the last mount of its device: on a lawful node, if
  the device mounted at the path is mounted elsewhere too, or nothing is mounted at the path,
  then whatever the outcome the attached volumes and the connector files are as before.
\<close>

theorem unpublish_keeps:
  assumes "lawful h view" and "NodeUnpublishVolume h d req w = (r, w')"
    and "device_count (view w) (nu_TargetPath req) \<noteq> 1"
  shows "attached (view w') = attached (view w) \<and> files (view w') = files (view w)"
  using unpublish_run_keeps(1,2) [OF assms(1,3), of w' d] assms(2) by simp

text \<open>
  Nothing mounted at a path stays so: repeating the unpublish any number of times never detaches.
\<close>

definition unpublished :: "'w host \<Rightarrow> driver \<Rightarrow> nodeUnpublishVolumeRequest \<Rightarrow> nat \<Rightarrow> 'w \<Rightarrow> 'w" where
  "unpublished h d req n = (\<lambda>w. snd (NodeUnpublishVolume h d req w)) ^^ n"

lemma unpublished_keeps:
  assumes "lawful h view" and "\<not> mounted (view w) (nu_TargetPath req)"
  shows "attached (view (unpublished h d req n w)) = attached (view w)
    \<and> \<not> mounted (view (unpublished h d req n w)) (nu_TargetPath req)"
proof (induction n)
  case (Suc n)
  let ?v = "unpublished h d req n w"
  have "device_count (view ?v) (nu_TargetPath req) \<noteq> 1"
    using Suc device_count_0 [of "view ?v"] by simp
  from unpublish_run_keeps [OF assms(1) this refl, of d] Suc show ?case
    using set_unstack [of "nu_TargetPath req" "mounts (view ?v)"]
    by (auto simp: unpublished_def mounted_def)
qed (simp add: unpublished_def assms(2))

text \<open>
  C8: a publish that fails after the iSCSI session is established leaks it. On a lawful node with
  nothing mounted at the path, if the library has connected and the publish still fails (no
  directory, no connector file, no mount), the volume stays attached, and no number of
  unpublish requests for that path, for any volume, ever detaches it. The log line of the code
  says that the volume is being disconnected.
\<close>

theorem failed_publish_leaks:
  assumes "lawful h view" and "\<not> mounted (view w) (np_TargetPath req)"
    and "NodePublishVolume h lt d req w = (Fail st, w1)"
    and "np_VolumeCapability req \<noteq> None" and "np_TargetPath req \<noteq> ''''"
    and "getISCSIInfo req = Inr info" and "buildISCSIConnector (Some info) = Some c"
    and "Connect h c w = (Answer (devicePath, c'), w0)"
  shows "volume_of req
    \<in> attached (view (unpublished h d' \<lparr>nu_VolumeId = anyId, nu_TargetPath = np_TargetPath req\<rparr> n w1))"
  using assms(3)
proof (rule NodePublish_cases)
  fix b c1 r1
  assume a: "AttachDisk h b (getISCSILibConfigPath d (np_VolumeId req)) w = (r1, w1)" "dm_connector b = Some c1"
    and k: "key c1 = volume_of req"
    and "\<exists>info. getISCSIInfo req = Inr info \<and> buildISCSIConnector (Some info) = Some c1"
    and r: "Fail st = (case r1 of Ret _ \<Rightarrow> Ret () | Fail e \<Rightarrow> Fail (Status Internal e) | Panic \<Rightarrow> Panic | Hang \<Rightarrow> Hang)"
  then have "c1 = c" using assms(6,7) by simp
  then have "call (Connect h c1) w = (Ret (devicePath, c'), w0)" using assms(8) by (simp add: call_def)
  from AttachDisk_effect(3) [OF assms(1) a this] have att: "volume_of req \<in> attached (view w1)" by (simp add: k)
  obtain e where "r1 = Fail e" using r by (cases r1) simp_all
  from AttachDisk_effect(2) [OF assms(1) a this] have "\<not> mounted (view w1) (np_TargetPath req)"
    using assms(2) by (simp add: mounted_def)
  then show ?thesis
    using unpublished_keeps [OF assms(1), of w1 "\<lparr>nu_VolumeId = anyId, nu_TargetPath = np_TargetPath req\<rparr>" d' n] att
    by simp
next
  assume "np_VolumeCapability req = None \<or> np_VolumeId req = '''' \<or> np_TargetPath req = ''''
    \<or> (\<exists>e. getISCSIInfo req = Inl e)"
  moreover have "VolName info = np_VolumeId req"
    using assms(6) by (elim getISCSIInfo_cases) (auto simp: diskInfo_def Let_def split: option.splits)
  ultimately show ?thesis using assms(4-7) by (auto simp: buildISCSIConnector_def split: if_splits)
qed

section \<open>Runs on a simulated machine\<close>

definition demo_unpublish :: nodeUnpublishVolumeRequest where
  "demo_unpublish = \<lparr>nu_VolumeId = ''pvc1a'', nu_TargetPath = ''/mnt/a''\<rparr>"

abbreviation demo_key :: volume_key where
  "demo_key \<equiv> (''iqn.2004-04.com.qnap:pvc1a'', 0)"

lemma Atoi_0: "Atoi ''0'' = Some 0"
  by code_simp

lemma to_int32_0 [simp]: "to_int32 0 = 0"
  by (simp add: to_int32_def)

lemma demo_volume [simp]: "volume_of (demo_publish ''0'') = demo_key"
  by (simp add: volume_of_def demo_publish_def publish_request_def ctx_def Atoi_0)

lemma demo_request_fields [simp]:
  "np_VolumeId (demo_publish l) = ''pvc1a''" "np_TargetPath (demo_publish l) = ''/mnt/a''"
  "np_VolumeCapability (demo_publish l) = Some demo_cap"
  by (simp_all add: demo_publish_def publish_request_def)

lemma demo_connector:
  obtains info c where "getISCSIInfo (demo_publish ''0'') = Inr info"
    and "buildISCSIConnector (Some info) = Some c" and "key c = demo_key"
proof -
  obtain info where i: "getISCSIInfo (demo_publish ''0'') = Inr info" using demo_info [OF Atoi_0] ..
  have "Atoi (ctx (np_VolumeContext (demo_publish ''0'')) ''lun'') = Some 0"
    by (simp add: demo_publish_def publish_request_def ctx_def Atoi_0)
  then obtain c where "buildISCSIConnector (Some info) = Some c" "con_Lun c = 0"
    "TargetIqn c = ctx (np_VolumeContext (demo_publish ''0'')) ''iqn''"
    using connector_of_info [OF i] by (auto simp: to_int32_id)
  then show thesis
    using i that by (simp add: key_def demo_publish_def publish_request_def ctx_def)
qed

lemmas sim_run_simps = NodePublishVolume_def AttachDisk_def attachDevice_def mountDevice_def getISCSIDiskMounter_def
  onErr_def call_def sim_host_def attempt_def io_simps mounted_def Let_def bare_def sim_dev_def no_file_def

lemma sim_publish:
  "\<exists>w1. NodePublishVolume (sim_host {}) lt d (demo_publish ''0'') bare = (Ret (), w1)
    \<and> mounts w1 = [(''/mnt/a'', sim_dev demo_key)] \<and> ''/mnt/a'' \<in> dirs w1
    \<and> files w1 (getISCSILibConfigPath d ''pvc1a'') \<noteq> None"
  by (rule demo_connector) (simp add: sim_run_simps)

lemma sim_publish_fails:
  assumes "bad = {''PersistConnector''}"
  shows "\<exists>st w1. NodePublishVolume (sim_host bad) lt d (demo_publish ''0'') bare = (Fail st, w1)"
  by (rule demo_connector) (simp add: sim_run_simps assms)

lemma sim_unpublish:
  assumes "mounts w1 = [(''/mnt/a'', sim_dev demo_key)]" and "''/mnt/a'' \<in> dirs w1"
    and "files w1 (getISCSILibConfigPath d ''pvc1a'') \<noteq> None"
  shows "\<exists>w2. NodeUnpublishVolume (sim_host {}) d demo_unpublish w1 = (Ret (), w2)"
  using assms
  by (auto simp: NodeUnpublishVolume_def demo_unpublish_def DetachDisk_def detachDevice_def ignoring_run onErr_def
      call_def sim_host_def attempt_def io_simps mounted_def device_count_def)

lemma sim_answers: "answers (sim_host bad)"
  by (simp add: answers_def sim_host_def attempt_def split: option.split)

text \<open>A host that connects for ever.\<close>

definition hung_host :: "machine host" where
  "hung_host = (sim_host {})\<lparr>Connect := (\<lambda>c m. (Blocked, m))\<rparr>"

theorem node_never_panics_witness:
  "fst (NodePublishVolume (sim_host {}) (\<lambda>_. '''') sim_driver (demo_publish ''0'') bare) \<notin> {Panic, Hang}
    \<and> fst (NodePublishVolume hung_host (\<lambda>_. '''') sim_driver (demo_publish ''0'') bare) = Hang"
proof
  show "fst (NodePublishVolume (sim_host {}) (\<lambda>_. '''') sim_driver (demo_publish ''0'') bare) \<notin> {Panic, Hang}"
    using node_never_panics [of "sim_host {}" "\<lambda>_. ''''" sim_driver "demo_publish ''0''" bare demo_unpublish] sim_answers
    by simp
  obtain info c where i: "getISCSIInfo (demo_publish ''0'') = Inr info" "buildISCSIConnector (Some info) = Some c"
    by (rule demo_connector)
  have "fst (Connect hung_host c bare) = Blocked" by (simp add: hung_host_def)
  then show "fst (NodePublishVolume hung_host (\<lambda>_. '''') sim_driver (demo_publish ''0'') bare) = Hang"
    using node_never_panics [of hung_host "\<lambda>_. ''''" sim_driver "demo_publish ''0''" bare demo_unpublish] i by simp
qed

theorem publish_effect_witness:
  "\<exists>w1. NodePublishVolume (sim_host {}) (\<lambda>_. '''') sim_driver (demo_publish ''0'') bare = (Ret (), w1)
    \<and> attached w1 = {demo_key} \<and> mounts w1 = [(''/mnt/a'', sim_dev demo_key)]"
proof -
  obtain w1 where run: "NodePublishVolume (sim_host {}) (\<lambda>_. '''') sim_driver (demo_publish ''0'') bare = (Ret (), w1)"
    using sim_publish by blast
  from publish_effect [OF sim_lawful run] run show ?thesis
    by (auto simp: bare_def mounted_def sim_host_def attempt_def split: if_splits)
qed

theorem publish_unpublish_witness:
  "\<exists>w1 w2. NodePublishVolume (sim_host {}) (\<lambda>_. '''') sim_driver (demo_publish ''0'') bare = (Ret (), w1)
    \<and> NodeUnpublishVolume (sim_host {}) sim_driver demo_unpublish w1 = (Ret (), w2)
    \<and> attached w2 = {} \<and> mounts w2 = []"
proof -
  obtain w1 where run: "NodePublishVolume (sim_host {}) (\<lambda>_. '''') sim_driver (demo_publish ''0'') bare = (Ret (), w1)"
    and w1: "mounts w1 = [(''/mnt/a'', sim_dev demo_key)]" "''/mnt/a'' \<in> dirs w1"
      "files w1 (getISCSILibConfigPath sim_driver ''pvc1a'') \<noteq> None"
    using sim_publish by blast
  from sim_unpublish [OF w1] obtain w2 where
    un: "NodeUnpublishVolume (sim_host {}) sim_driver demo_unpublish w1 = (Ret (), w2)" by blast
  have "device_count w1 ''/mnt/a'' = 1" by (simp add: device_count_def w1(1))
  moreover have "NodeUnpublishVolume (sim_host {}) sim_driver
    \<lparr>nu_VolumeId = np_VolumeId (demo_publish ''0''), nu_TargetPath = np_TargetPath (demo_publish ''0'')\<rparr> w1 = (Ret (), w2)"
    using un by (simp add: demo_unpublish_def)
  ultimately show ?thesis
    using publish_unpublish [OF sim_lawful run] run un by (auto simp: bare_def mounted_def)
qed

text \<open>Two mounts of one device: unpublishing one keeps the volume.\<close>

theorem unpublish_keeps_witness:
  "attached (snd (NodeUnpublishVolume (sim_host {}) sim_driver demo_unpublish
     (bare\<lparr>attached := {demo_key}, mounts := [(''/mnt/a'', ''/dev/sdb''), (''/mnt/b'', ''/dev/sdb'')]\<rparr>))) = {demo_key}"
proof -
  let ?w = "bare\<lparr>attached := {demo_key}, mounts := [(''/mnt/a'', ''/dev/sdb''), (''/mnt/b'', ''/dev/sdb'')]\<rparr>"
  have "device_count ?w (nu_TargetPath demo_unpublish) \<noteq> 1"
    by (simp add: device_count_def demo_unpublish_def)
  moreover obtain r w' where "NodeUnpublishVolume (sim_host {}) sim_driver demo_unpublish ?w = (r, w')"
    by (metis prod.exhaust)
  ultimately show ?thesis using unpublish_keeps [OF sim_lawful] by fastforce
qed

theorem failed_publish_leaks_witness:
  "\<exists>st w1. NodePublishVolume (sim_host {''PersistConnector''}) (\<lambda>_. '''') sim_driver (demo_publish ''0'') bare = (Fail st, w1)
    \<and> demo_key \<in> attached (unpublished (sim_host {''PersistConnector''}) sim_driver demo_unpublish 10 w1)"
proof -
  let ?bad = "{''PersistConnector''}"
  obtain st w1 where run: "NodePublishVolume (sim_host ?bad) (\<lambda>_. '''') sim_driver (demo_publish ''0'') bare = (Fail st, w1)"
    using sim_publish_fails by blast
  obtain info c where i: "getISCSIInfo (demo_publish ''0'') = Inr info" "buildISCSIConnector (Some info) = Some c"
    by (rule demo_connector)
  have "Connect (sim_host ?bad) c bare = (Answer (sim_dev (key c), c), bare\<lparr>attached := {key c}\<rparr>)"
    by (simp add: sim_host_def attempt_def bare_def)
  from failed_publish_leaks [OF sim_lawful _ run _ _ i this, where anyId = "''pvc1a''" and n = 10 and d' = sim_driver]
  show ?thesis using run by (auto simp: bare_def mounted_def demo_unpublish_def)
qed






end
