(* ===== verification/Lifecycle.thy ===== *)
theory Lifecycle
  imports CreateProps NodeProps
begin

text \<open>
  From the controller to the node: what a created volume means to the node that publishes it, and
  the names for which the life of a volume breaks off.
\<close>

section \<open>Values of a handler\<close>

definition yields :: "('a \<Rightarrow> bool) \<Rightarrow> ('s, 'e, 'a) io \<Rightarrow> bool" where
  "yields P m \<longleftrightarrow> (\<forall>s a t. m s = (Ret a, t) \<longrightarrow> P a)"

lemma yieldsD: "yields P m \<Longrightarrow> m s = (Ret a, t) \<Longrightarrow> P a"
  by (auto simp: yields_def)

lemma yields_ret: "P a \<Longrightarrow> yields P (ret a)"
  by (simp add: yields_def ret_def)

lemma yields_fail: "yields P (fail e)"
  by (simp add: yields_def fail_def)

lemma yields_onErr: "(\<And>e. yields P (h e)) \<Longrightarrow> (\<And>a. yields P (k a)) \<Longrightarrow> yields P (onErr m h k)"
  unfolding yields_def by (blast elim: onErr_cases)

lemma yields_ignoring: "yields P k \<Longrightarrow> yields P (ignoring m k)"
  by (simp add: ignoring_def yields_onErr)

lemma yields_if: "(b \<Longrightarrow> yields P m) \<Longrightarrow> (\<not> b \<Longrightarrow> yields P k) \<Longrightarrow> yields P (if b then m else k)"
  by simp

lemma yields_internal: "yields P (internal msg e)"
  by (simp add: internal_def yields_fail)

lemmas yields_intros = yields_ret yields_fail yields_internal yields_onErr yields_ignoring yields_if

definition made_volume :: "driver \<Rightarrow> string \<Rightarrow> volume \<Rightarrow> bool" where
  "made_volume d name v \<longleftrightarrow> (\<exists>sz iqn. iqn \<noteq> '''' \<and> v = volume_response d name sz iqn)"

lemma provision_yields: "yields (made_volume d name) (provision nas d name sz)"
  unfolding provision_def createTarget_def createLUN_def attachVolume_def finishVolume_def Let_def
  by (intro yields_intros) (auto simp: made_volume_def)

lemma CreateVolume_made:
  assumes "CreateVolume nas ms d req s = (Ret v, t)"
  shows "made_volume d (cleanISCSIName (cv_Name req)) v"
proof -
  have "yields (made_volume d (cleanISCSIName (cv_Name req))) (CreateVolume nas ms d req)"
    unfolding CreateVolume_def by (auto intro: yields_intros provision_yields split: sum.split)
  then show ?thesis using assms by (rule yieldsD)
qed

section \<open>Publishing a created volume\<close>

lemma volume_info:
  assumes "made_volume d name v" and "name \<noteq> ''''" and "d_portal d \<noteq> ''''"
  shows "\<exists>iqn info. VolumeContext v ''iqn'' = Some iqn \<and> iqn \<noteq> ''''
    \<and> getISCSIInfo (publish_request (VolumeId v) path cap (VolumeContext v)) = Inr info
    \<and> buildISCSIConnector (Some info) = Some
        \<lparr>VolumeName = VolumeId v, TargetIqn = iqn, TargetPortals = [portalMounter (d_portal d)], con_Lun = 0,
         DoDiscovery = True, SessionSecrets = no_secrets, DiscoverySecrets = no_secrets\<rparr>"
proof -
  obtain sz iqn where iqn: "iqn \<noteq> ''''" and v: "v = volume_response d name sz iqn"
    using assms(1) by (auto simp: made_volume_def)
  let ?req = "publish_request (VolumeId v) path cap (VolumeContext v)"
  have "ctx (np_VolumeContext ?req) ''targetPortal'' = d_portal d" "ctx (np_VolumeContext ?req) ''iqn'' = iqn"
    "Atoi (ctx (np_VolumeContext ?req) ''lun'') = Some 0"
    "Unmarshal_strings (ctx (np_VolumeContext ?req) ''portals'') = Some []"
    "parseSecret (ctx (np_VolumeContext ?req) ''secret'') = []" "np_VolumeId ?req \<noteq> ''''" "VolumeId v = name"
    using assms(2) by (simp_all add: ctx_def publish_request_def v volume_response_def Atoi_0)
  moreover from this have "VolumeContext v ''iqn'' = Some iqn" by (simp add: v volume_response_def)
  ultimately show ?thesis
    using getISCSIInfo_connector [of ?req "d_portal d" iqn "[]" no_secrets no_secrets "[]" 0] assms(3) iqn
    by (auto simp: parseSessionSecret_def parseDiscoverySecret_def publish_request_def)
qed

text \<open>
  A host that does as it is asked: the library connects and names a device, the heuristic gives a
  verdict, either one, and directories, connector files and mounts can be made.
\<close>

definition obliging :: "'w host \<Rightarrow> bool" where
  "obliging h \<longleftrightarrow>
     (\<forall>c w. \<exists>p c' u. Connect h c w = (Answer (p, c'), u) \<and> p \<noteq> '''')
     \<and> (\<forall>p w. \<exists>n err u. IsLikelyNotMountPoint h p w = (Some (n, err), u) \<and> usable err)
     \<and> (\<forall>p mode w. \<exists>u. MkdirAll h p mode w = (Answer (), u))
     \<and> (\<forall>c f w. \<exists>u. PersistConnector h c f w = (Answer (), u))
     \<and> (\<forall>dv p fs opts w. \<exists>u. FormatAndMount h dv p fs opts w = (Answer (), u))"

lemma obligingD:
  assumes "obliging h"
  shows "\<exists>p c' u. Connect h c w = (Answer (p, c'), u) \<and> p \<noteq> ''''"
    and "\<exists>n err u. IsLikelyNotMountPoint h p w = (Some (n, err), u) \<and> usable err"
    and "\<exists>u. MkdirAll h p mode w = (Answer (), u)" and "\<exists>u. PersistConnector h c f w = (Answer (), u)"
    and "\<exists>u. FormatAndMount h dv p fs opts w = (Answer (), u)"
  using assms unfolding obliging_def by simp_all

lemma obliging_mounts:
  assumes "obliging h"
  shows "\<exists>x u. mountDevice h b f c p w = (Ret x, u)"
proof -
  obtain u1 where 1: "MkdirAll h (dm_targetPath b) 488 w = (Answer (), u1)" using obligingD(3) [OF assms] by blast
  obtain u2 where 2: "PersistConnector h c f u1 = (Answer (), u2)" using obligingD(4) [OF assms] by blast
  let ?opts = "(if dm_readOnly b then ''ro'' else ''rw'') # dm_mountOptions b"
  obtain u3 where 3: "FormatAndMount h p (dm_targetPath b) (dm_fsType b) ?opts u2 = (Answer (), u3)"
    using obligingD(5) [OF assms] by blast
  from 1 2 3 show ?thesis by (simp add: mountDevice_def Let_def onErr_def call_def io_simps)
qed

lemma obliging_attaches:
  assumes "obliging h" and "dm_connector b = Some c"
  shows "\<exists>x u. AttachDisk h b f w = (Ret x, u)"
proof -
  obtain p c' u where c: "Connect h c w = (Answer (p, c'), u)" "p \<noteq> ''''" using obligingD(1) [OF assms(1)] by blast
  obtain n err v where i: "IsLikelyNotMountPoint h (dm_targetPath b) u = (Some (n, err), v)" "usable err"
    using obligingD(2) [OF assms(1)] by blast
  obtain x v' where "mountDevice h b f c' p v = (Ret x, v')" using obliging_mounts [OF assms(1)] by blast
  with i have "\<exists>x v'. attachDevice h b f c' p u = (Ret x, v')"
    by (auto simp: attachDevice_def usable_def split: option.splits)
  with c show ?thesis by (auto simp: AttachDisk_def assms(2) onErr_def call_def)
qed

lemma obliging_publishes:
  assumes "obliging h" and "np_VolumeCapability req \<noteq> None" and "np_VolumeId req \<noteq> ''''" and "np_TargetPath req \<noteq> ''''"
    and "getISCSIInfo req = Inr info" and "buildISCSIConnector (Some info) = Some c"
  shows "\<exists>w'. NodePublishVolume h lt d req w = (Ret (), w')"
proof -
  have "dm_connector (getISCSIDiskMounter info req) = Some c" by (simp add: getISCSIDiskMounter_def assms(6))
  then obtain x u where "AttachDisk h (getISCSIDiskMounter info req) (getISCSILibConfigPath d (np_VolumeId req)) w = (Ret x, u)"
    using obliging_attaches [OF assms(1)] by blast
  then show ?thesis using assms(2-5) by (simp add: NodePublishVolume_def io_simps)
qed

text \<open>
  C7: a created volume is what its node needs. If the controller created a volume whose identifier is
  not empty, and has a portal, then a publish request with that identifier and context, and any
  capability and non-empty path, is read by the node; its connector names the volume, the IQN the
  NAS listed, the portal of the controller with a port and LUN 0, without secrets; and on every
  lawful node whose host does as it is asked the publish succeeds and attaches exactly that
  volume.
\<close>

theorem created_volume_publishes:
  assumes "CreateVolume nas ms d req s = (Ret v, t)" and "VolumeId v \<noteq> ''''" and "d_portal d \<noteq> ''''"
    and "path \<noteq> ''''" and "lawful h view" and "obliging h"
  shows "\<exists>iqn info w'. VolumeContext v ''iqn'' = Some iqn
    \<and> getISCSIInfo (publish_request (VolumeId v) path cap (VolumeContext v)) = Inr info
    \<and> buildISCSIConnector (Some info) = Some
        \<lparr>VolumeName = VolumeId v, TargetIqn = iqn, TargetPortals = [portalMounter (d_portal d)], con_Lun = 0,
         DoDiscovery = True, SessionSecrets = no_secrets, DiscoverySecrets = no_secrets\<rparr>
    \<and> NodePublishVolume h lt d' (publish_request (VolumeId v) path cap (VolumeContext v)) w = (Ret (), w')
    \<and> attached (view w') = insert (iqn, 0) (attached (view w))"
proof -
  let ?req = "publish_request (VolumeId v) path cap (VolumeContext v)"
  have made: "made_volume d (cleanISCSIName (cv_Name req)) v" by (rule CreateVolume_made [OF assms(1)])
  then have "cleanISCSIName (cv_Name req) \<noteq> ''''"
    using assms(2) by (auto simp: made_volume_def volume_response_def)
  from volume_info [OF made this assms(3), of path cap] obtain iqn info where i:
    "VolumeContext v ''iqn'' = Some iqn" "getISCSIInfo ?req = Inr info"
    "buildISCSIConnector (Some info) = Some
        \<lparr>VolumeName = VolumeId v, TargetIqn = iqn, TargetPortals = [portalMounter (d_portal d)], con_Lun = 0,
         DoDiscovery = True, SessionSecrets = no_secrets, DiscoverySecrets = no_secrets\<rparr>" by blast
  have "volume_of ?req = (iqn, 0)"
    using made i(1) by (auto simp: volume_of_def publish_request_def ctx_def made_volume_def volume_response_def Atoi_0)
  moreover obtain w' where run: "NodePublishVolume h lt d' ?req w = (Ret (), w')"
  proof -
    have "np_VolumeCapability ?req \<noteq> None" "np_VolumeId ?req \<noteq> ''''" "np_TargetPath ?req \<noteq> ''''"
      using assms(2,4) by (simp_all add: publish_request_def)
    then show thesis using obliging_publishes [OF assms(6) _ _ _ i(2,3)] that by metis
  qed
  moreover have "attached (view w') = insert (volume_of ?req) (attached (view w))"
    by (rule publish_Ret [OF assms(5) run])
  ultimately show ?thesis using i by auto
qed

lemma sim_obliging: "obliging (sim_host {})"
  by (simp add: obliging_def sim_host_def attempt_def sim_dev_def usable_def no_file_def)

theorem created_volume_publishes_witness:
  "\<exists>v t w'. CreateVolume (logged (replayed refused)) (\<lambda>_. '''') demo_driver demo_request (replay good_run) = (Ret v, t)
    \<and> NodePublishVolume (sim_host {}) (\<lambda>_. '''') sim_driver
        (publish_request (VolumeId v) ''/mnt/a'' demo_cap (VolumeContext v)) bare = (Ret (), w')
    \<and> attached w' = {demo_key}"
proof -
  let ?v = "volume_response demo_driver ''pvc1a'' (2 * giB) ''iqn.2004-04.com.qnap:pvc1a''"
  obtain t where run: "CreateVolume (logged (replayed refused)) (\<lambda>_. '''') demo_driver demo_request (replay good_run) =
    (Ret ?v, t)" using good_run_result by blast
  have "d_portal demo_driver \<noteq> ''''" "VolumeId ?v \<noteq> ''''" "VolumeContext ?v ''iqn'' = Some ''iqn.2004-04.com.qnap:pvc1a''"
    by (simp_all add: demo_driver_def volume_response_def)
  from created_volume_publishes [OF run this(2,1) _ sim_lawful sim_obliging, of "''/mnt/a''" demo_cap "\<lambda>_. ''''" sim_driver bare]
    run this(3) show ?thesis by (auto simp: bare_def)
qed

section \<open>Volumes without a name\<close>

text \<open>
  C27: a name without ASCII letters and digits makes a volume nobody can use or remove. If such a
  request succeeds, the targets and LUNs exist on the NAS, but the identifier of the volume is
  empty, and with it deletion, validation, publishing and unpublishing are all refused as invalid
  before anything is done.
\<close>

theorem unnamed_volume:
  assumes "CreateVolume nas ms d req s = (Ret v, t)" and "cleanISCSIName (cv_Name req) = ''''"
  shows "VolumeId v = ''''
    \<and> DeleteVolume nas (VolumeId v) t = (Fail (Status InvalidArgument ''DeleteVolume Volume ID must be provided''), t)
    \<and> (\<exists>msg. ValidateVolumeCapabilities nas (VolumeId v) caps t = (Fail (Status InvalidArgument msg), t))
    \<and> (\<exists>msg. NodePublishVolume h lt d' (publish_request (VolumeId v) path cap m) w = (Fail (Status InvalidArgument msg), w))
    \<and> (\<exists>msg. NodeUnpublishVolume h d' \<lparr>nu_VolumeId = VolumeId v, nu_TargetPath = path\<rparr> w
          = (Fail (Status InvalidArgument msg), w))"
proof -
  have "VolumeId v = ''''"
    using CreateVolume_made [OF assms(1)] assms(2) by (auto simp: made_volume_def volume_response_def)
  then show ?thesis
    by (simp add: DeleteVolume_def ValidateVolumeCapabilities_def NodePublishVolume_def NodeUnpublishVolume_def
        publish_request_def io_simps)
qed

definition dashes_request :: createVolumeRequest where
  "dashes_request = demo_request\<lparr>cv_Name := ''---''\<rparr>"

lemma dashes_clean: "cleanISCSIName (cv_Name dashes_request) = ''''"
proof -
  have "cleanISCSIName ''---'' = ''''" by code_simp
  then show ?thesis by (simp add: dashes_request_def)
qed

lemma dashes_provision: "CreateVolume nas ms d dashes_request = provision nas d '''' (2 * giB)"
proof -
  have acc: "acceptable dashes_request"
    using demo_acceptable by (simp add: acceptable_def dashes_request_def demo_request_def)
  show ?thesis
    by (rule CreateVolume_accepted [OF acc, of nas ms d])
       (use demo_size in \<open>simp add: dashes_clean\<close>, simp add: dashes_request_def)
qed

definition dashes_run :: "http_reply list" where
  "dashes_run = granted @ [ok (lun_doc ''1''), ok (result_doc 0),
     ok (list_doc [(3, '''', ''iqn.2004-04.com.qnap:x'', [7])])]"

lemma dashes_result:
  "\<exists>t. CreateVolume (logged (replayed refused)) ms demo_driver dashes_request (replay dashes_run) =
    (Ret (volume_response demo_driver '''' (2 * giB) ''iqn.2004-04.com.qnap:x''), t)"
  by (simp add: dashes_provision dashes_run_def granted_def create_run_simps)

theorem unnamed_volume_witness:
  "\<exists>v t. CreateVolume (logged (replayed refused)) (\<lambda>_. '''') demo_driver dashes_request (replay dashes_run) = (Ret v, t)
    \<and> DeleteVolume (logged (replayed refused)) (VolumeId v) t
        = (Fail (Status InvalidArgument ''DeleteVolume Volume ID must be provided''), t)"
proof -
  obtain t where run: "CreateVolume (logged (replayed refused)) (\<lambda>_. '''') demo_driver dashes_request (replay dashes_run) =
    (Ret (volume_response demo_driver '''' (2 * giB) ''iqn.2004-04.com.qnap:x''), t)" using dashes_result by blast
  show ?thesis
    using run unnamed_volume [OF run dashes_clean, of None "sim_host {}" "\<lambda>_. ''''" sim_driver "''/mnt/a''" demo_cap
        Map.empty bare] by blast
qed


end
