(* ===== verification/DeleteProps.thy ===== *)
theory DeleteProps
  imports Replay
begin

text \<open>
  \<^verbatim>\<open>DeleteVolume\<close>: its traffic follows a script read off the listing, and stops at the first
  removal the NAS does not confirm. A volume that is not listed is deleted without a removal.
\<close>

section \<open>The script of a deletion\<close>

text \<open>The removals of a volume with the result each must be confirmed with, in order.\<close>

definition delete_script :: "client \<Rightarrow> string \<Rightarrow> targetInfo list \<Rightarrow> (http_request \<times> int) list" where
  "delete_script c volumeId targets =
     (case find (\<lambda>target. target_Name target = volumeId) targets of
        None \<Rightarrow> []
      | Some target \<Rightarrow>
          (del_target_request c (TargetIndex target), TargetIndex target)
          # map (\<lambda>l. (del_lun_request c l, 0)) (TargetLUNs target))"

fun confirms :: "(http_request \<times> int) list \<Rightarrow> (http_request \<times> http_reply) list \<Rightarrow> bool" where
  "confirms [] [] = True"
| "confirms ((q, k) # script) ((q', x) # es) = (q = q' \<and> echo_reply k x = Ret () \<and> confirms script es)"
| "confirms _ _ = False"

text \<open>The traffic breaks off at a reply that confirms nothing.\<close>

fun breaks_off :: "(http_request \<times> int) list \<Rightarrow> (http_request \<times> http_reply) list \<Rightarrow> bool" where
  "breaks_off ((q, k) # script) ((q', x) # es) =
     (q = q' \<and> (if echo_reply k x = Ret () then breaks_off script es else es = []))"
| "breaks_off _ _ = False"

text \<open>A run that breaks off fails, or does not return if the reply is missing.\<close>

definition broken :: "(http_request \<times> http_reply) list \<Rightarrow> (status, unit) outcome \<Rightarrow> bool" where
  "broken es r \<longleftrightarrow> (if snd (last es) = NoReply then r = Hang else \<exists>m. r = Fail (Status Internal m))"

definition follows :: "(http_request \<times> int) list \<Rightarrow> 'w observed st \<Rightarrow> (status, unit) outcome
    \<Rightarrow> 'w observed st \<Rightarrow> bool" where
  "follows script s r t \<longleftrightarrow> cl t = cl s \<and>
     (\<exists>es. traffic t = traffic s @ es \<and>
        (r = Ret () \<and> confirms script es \<or> breaks_off script es \<and> broken es r))"

lemma breaks_off_nonempty: "breaks_off script es \<Longrightarrow> es \<noteq> []"
  by (cases script; cases es) auto

lemma follows_end: "follows [] s (Ret ()) s"
  by (simp add: follows_def)

lemma follows_step:
  assumes "sends s u (cl s) q x" and "echo_reply k x = Ret ()" and "follows script u r t"
  shows "follows ((q, k) # script) s r t"
proof -
  obtain es where es: "traffic t = traffic u @ es" "cl t = cl u"
    and or: "r = Ret () \<and> confirms script es \<or> breaks_off script es \<and> broken es r"
    using assms(3) by (auto simp: follows_def)
  have "traffic t = traffic s @ ((q, x) # es)" "cl t = cl s" using es assms(1) by (simp_all add: sends_def)
  moreover have "breaks_off script es \<Longrightarrow> broken es r \<Longrightarrow> broken ((q, x) # es) r"
    by (simp add: broken_def breaks_off_nonempty)
  ultimately show ?thesis using or assms(2) unfolding follows_def by (intro conjI exI [of _ "(q, x) # es"]) auto
qed

lemma follows_break:
  assumes "sends s t (cl s) q x" and "echo_reply k x = Fail e"
  shows "follows ((q, k) # script) s (Fail (Status Internal m)) t"
  using assms by (auto simp: follows_def sends_def broken_def)

lemma follows_silent: "sends s t (cl s) q NoReply \<Longrightarrow> follows ((q, k) # script) s Hang t"
  by (auto simp: follows_def sends_def broken_def)

lemma deleteLuns_follows:
  assumes "deleteLuns (logged nas) luns s = (r, t)" and "good_client (cl s)"
  shows "follows (map (\<lambda>l. (del_lun_request (cl s) l, 0)) luns) s r t"
  using assms
proof (induction luns arbitrary: s)
  case Nil
  then show ?case by (auto simp: ret_def follows_end)
next
  case (Cons l luns)
  from Cons.prems(1) have "onErr (DeleteStorageISCSIBlockLUN (logged nas) l False)
      (internal ''Failed to delete ISCSI Block based LUN'') (\<lambda>_. deleteLuns (logged nas) luns) s = (r, t)"
    by simp
  then show ?case
  proof (cases rule: onErr_cases)
    case (Ret a u)
    obtain x where x: "echo_reply 0 x = Ret a" "sends s u (cl s) (del_lun_request (cl s) l) x" "good_client (cl u)"
      using del_lun_sends [OF Ret(1) Cons.prems(2)] by metis
    have "cl u = cl s" using x(2) by (simp add: sends_def)
    then show ?thesis
      using follows_step [OF x(2), of 0] x(1) Cons.IH [OF Ret(2) x(3)] by simp
  next
    case (Fail e u)
    obtain x where x: "echo_reply 0 x = Fail e" "sends s u (cl s) (del_lun_request (cl s) l) x"
      using del_lun_sends [OF Fail(1) Cons.prems(2)] by metis
    from Fail(2) have "r = Fail (Status Internal ''Failed to delete ISCSI Block based LUN'')" "u = t"
      by (simp_all add: internal_def fail_def)
    then show ?thesis using follows_break [OF x(2) [unfolded \<open>u = t\<close>] x(1)] by simp
  next
    case Hang
    then show ?thesis using follows_silent [OF unanswered(9) [OF Cons.prems(2) Hang(1)]] by simp
  qed (use del_lun_sends [OF _ Cons.prems(2)] reply_proper in metis)
qed

lemma deleteTargets_find:
  "deleteTargets nas volumeId targets =
    (case find (\<lambda>target. target_Name target = volumeId) targets of
       None \<Rightarrow> ret ()
     | Some target \<Rightarrow>
         onErr (DeleteStorageISCSITarget nas (TargetIndex target)) (internal ''Failed to delete ISCSI target'')
           (\<lambda>_. deleteLuns nas (TargetLUNs target)))"
  by (induction targets) auto

lemma deleteTargets_follows:
  assumes "deleteTargets (logged nas) volumeId targets s = (r, t)" and "good_client (cl s)"
  shows "follows (delete_script (cl s) volumeId targets) s r t"
proof (cases "find (\<lambda>target. target_Name target = volumeId) targets")
  case None
  then show ?thesis using assms(1) by (auto simp: deleteTargets_find delete_script_def ret_def follows_end)
next
  case (Some g)
  from assms(1) have "onErr (DeleteStorageISCSITarget (logged nas) (TargetIndex g))
      (internal ''Failed to delete ISCSI target'') (\<lambda>_. deleteLuns (logged nas) (TargetLUNs g)) s = (r, t)"
    by (simp add: deleteTargets_find Some)
  then show ?thesis
  proof (cases rule: onErr_cases)
    case (Ret a u)
    obtain x where x: "echo_reply (TargetIndex g) x = Ret a" "good_client (cl u)"
        "sends s u (cl s) (del_target_request (cl s) (TargetIndex g)) x"
      using del_target_sends [OF Ret(1) assms(2)] by metis
    have "cl u = cl s" using x(3) by (simp add: sends_def)
    then show ?thesis
      using follows_step [OF x(3), of "TargetIndex g"] x(1) deleteLuns_follows [OF Ret(2) x(2)]
      by (simp add: delete_script_def Some)
  next
    case (Fail e u)
    obtain x where x: "echo_reply (TargetIndex g) x = Fail e"
        "sends s u (cl s) (del_target_request (cl s) (TargetIndex g)) x"
      using del_target_sends [OF Fail(1) assms(2)] by metis
    from Fail(2) have "r = Fail (Status Internal ''Failed to delete ISCSI target'')" "u = t"
      by (simp_all add: internal_def fail_def)
    then show ?thesis
      using follows_break [OF x(2) [unfolded \<open>u = t\<close>] x(1)] by (simp add: delete_script_def Some)
  next
    case Hang
    then show ?thesis
      using follows_silent [OF unanswered(8) [OF assms(2) Hang(1)]] by (simp add: delete_script_def Some)
  qed (use del_target_sends [OF _ assms(2)] reply_proper in metis)
qed

text \<open>
  The removal of the LUNs breaks off at \<open>lun\<close>: the removals of those before it were confirmed, its
  own was not, and no more was sent.
\<close>

definition breaks_at :: "client \<Rightarrow> int list \<Rightarrow> int \<Rightarrow> (http_request \<times> http_reply) list \<Rightarrow> bool" where
  "breaks_at c luns lun es \<longleftrightarrow> (\<exists>before rest xs z. luns = before @ lun # rest
     \<and> es = zip (map (del_lun_request c) before) xs @ [(del_lun_request c lun, z)]
     \<and> length xs = length before \<and> (\<forall>x\<in>set xs. echo_reply 0 x = Ret ()) \<and> echo_reply 0 z \<noteq> Ret ())"

lemma breaks_at_first: "echo_reply 0 z \<noteq> Ret () \<Longrightarrow> breaks_at c (l # luns) l [(del_lun_request c l, z)]"
  unfolding breaks_at_def by (rule exI [of _ "[]"]) simp

lemma breaks_at_later:
  assumes "echo_reply 0 x = Ret ()" and "breaks_at c luns lun es"
  shows "breaks_at c (l # luns) lun ((del_lun_request c l, x) # es)"
proof -
  obtain before rest xs z where "luns = before @ lun # rest"
    "es = zip (map (del_lun_request c) before) xs @ [(del_lun_request c lun, z)]"
    "length xs = length before" "\<forall>x\<in>set xs. echo_reply 0 x = Ret ()" "echo_reply 0 z \<noteq> Ret ()"
    using assms(2) unfolding breaks_at_def by blast
  then show ?thesis
    unfolding breaks_at_def using assms(1)
    by (intro exI [of _ "l # before"] exI [of _ rest] exI [of _ "x # xs"] exI [of _ z]) simp
qed

lemma deleteLuns_breaks_at:
  assumes "deleteLuns (logged nas) luns s = (Fail st, t)" and "good_client (cl s)"
  shows "\<exists>lun es. traffic t = traffic s @ es \<and> cl t = cl s \<and> breaks_at (cl s) luns lun es"
  using assms
proof (induction luns arbitrary: s)
  case Nil
  then show ?case by (simp add: ret_def)
next
  case (Cons l luns)
  from Cons.prems(1) have "onErr (DeleteStorageISCSIBlockLUN (logged nas) l False)
      (internal ''Failed to delete ISCSI Block based LUN'') (\<lambda>_. deleteLuns (logged nas) luns) s = (Fail st, t)"
    by simp
  then show ?case
  proof (cases rule: onErr_cases)
    case (Ret a u)
    obtain x where x: "echo_reply 0 x = Ret a" "sends s u (cl s) (del_lun_request (cl s) l) x" "good_client (cl u)"
      using del_lun_sends [OF Ret(1) Cons.prems(2)] by metis
    then have u: "cl u = cl s" "traffic u = traffic s @ [(del_lun_request (cl s) l, x)]" by (simp_all add: sends_def)
    obtain lun es where "traffic t = traffic u @ es" "cl t = cl u" "breaks_at (cl s) luns lun es"
      using Cons.IH [OF Ret(2) x(3)] u(1) by auto
    then show ?thesis
      using breaks_at_later x(1) u
      by (intro exI [of _ lun] exI [of _ "(del_lun_request (cl s) l, x) # es"]) simp
  next
    case (Fail e u)
    obtain x where x: "echo_reply 0 x = Fail e" "sends s u (cl s) (del_lun_request (cl s) l) x"
      using del_lun_sends [OF Fail(1) Cons.prems(2)] by metis
    from Fail(2) have "u = t" by (simp add: internal_def fail_def)
    with x show ?thesis
      using breaks_at_first [of x "cl s" l luns]
      by (intro exI [of _ l] exI [of _ "[(del_lun_request (cl s) l, x)]"]) (simp add: sends_def)
  qed simp_all
qed

section \<open>Properties\<close>

text \<open>
  C5: a deletion follows its script. After a login and a listing the run sends the removal of the
  first target named as the volume and then of each of its LUNs, in order; it succeeds exactly
  when every one is confirmed, and otherwise ends at the first that is not, with nothing sent
  after it: it fails, or does not return if that request got no reply. Without a login or a
  listing nothing is removed.
\<close>

theorem DeleteVolume_script:
  assumes "DeleteVolume (logged nas) volumeId s = (r, t)" and "volumeId \<noteq> ''''"
    and "good_client (cl s)" and "traffic s = []"
  shows "(\<exists>x. traffic t = [(login_request (cl s), x)]
        \<and> r = (if x = NoReply then Hang else Fail (Status Internal ''Failed to login to NAS'')))
    \<or> (\<exists>x y. traffic t = [(login_request (cl s), x), (list_request (cl t), y)]
        \<and> r = (if y = NoReply then Hang else Fail (Status Internal ''Failed to get list of ISCSI targets'')))
    \<or> (\<exists>x y l es. traffic t = [(login_request (cl s), x), (list_request (cl t), y)] @ es
        \<and> list_reply y = Ret l
        \<and> (r = Ret () \<and> confirms (delete_script (cl t) volumeId (Targets l)) es
           \<or> breaks_off (delete_script (cl t) volumeId (Targets l)) es \<and> broken es r))"
proof -
  from assms(1,2) have "onErr (Login (logged nas)) (internal ''Failed to login to NAS'')
      (\<lambda>_. onErr (GetStorageISCSITargetList (logged nas)) (internal ''Failed to get list of ISCSI targets'')
        (\<lambda>targetList. deleteTargets (logged nas) volumeId (Targets targetList))) s = (r, t)"
    by (simp add: DeleteVolume_def)
  then show ?thesis using assms(3)
  proof (cases rule: listing_cases)
    case (listed x v y l u)
    from deleteTargets_follows [OF listed(6,5)]
    have "follows (delete_script (cl u) volumeId (Targets l)) u r t" .
    then show ?thesis using listed(2-4) assms(4) by (force simp: follows_def)
  qed (use assms(4) in auto)
qed

text \<open>A replay of a deletion: the removal of the target is confirmed, the one of its LUN refused.\<close>

definition lun_removal_fails :: "http_reply list" where
  "lun_removal_fails = [ok (login_doc ''abc''), ok (list_doc [(3, ''pvc1a'', ''iqn'', [7])]),
     ok (result_doc 3), ok (result_doc (-1))]"

definition retry :: "http_reply list" where
  "retry = [ok (login_doc ''abd''), ok (list_doc [])]"

lemmas delete_run_simps = demo_client_good replay_def DeleteVolume_def onErr_def io_simps op_eqs
  list_reply_doc internal_def in_int64_def target_info_def

lemma partial_delete_result:
  "\<exists>t. DeleteVolume (logged (replayed refused)) ''pvc1a'' (replay (lun_removal_fails @ retry)) =
      (Fail (Status Internal ''Failed to delete ISCSI Block based LUN''), t)
    \<and> good_client (cl t) \<and> snd (net t) = retry"
  by (simp add: delete_run_simps lun_removal_fails_def)

theorem DeleteVolume_script_witness:
  "\<exists>(t :: http_reply list observed st) x y l es.
     traffic t = [(login_request demo_client, x), (list_request (cl t), y)] @ es \<and> list_reply y = Ret l
     \<and> breaks_off (delete_script (cl t) ''pvc1a'' (Targets l)) es"
proof -
  let ?s = "replay (lun_removal_fails @ retry)"
  obtain t where run: "DeleteVolume (logged (replayed refused)) ''pvc1a'' ?s =
      (Fail (Status Internal ''Failed to delete ISCSI Block based LUN''), t)"
    using partial_delete_result by blast
  have "good_client (cl ?s)" "traffic ?s = []" "cl ?s = demo_client"
    by (simp_all add: replay_def demo_client_good)
  with DeleteVolume_script [OF run _ this(1,2)]
  obtain x y l es where "traffic t = [(login_request demo_client, x), (list_request (cl t), y)] @ es"
    "list_reply y = Ret l" "breaks_off (delete_script (cl t) ''pvc1a'' (Targets l)) es"
    by (auto split: if_splits)
  then show ?thesis by blast
qed

lemma DeleteVolume_none:
  assumes "volumeId \<noteq> ''''" and "good_client (cl s)" and "listing nas s l t"
    and "volumeId \<notin> target_Name ` set (Targets l)"
  shows "DeleteVolume nas volumeId s = (Ret (), t)"
proof -
  have none: "find (\<lambda>target. target_Name target = volumeId) (Targets l) = None"
    using assms(4) by (force simp: find_None_iff)
  show ?thesis
    using assms(1) by (simp add: DeleteVolume_def listing_run [OF assms(3,2)] deleteTargets_find none io_simps)
qed

text \<open>
  C31: a volume that is not listed counts as deleted. The run succeeds after the login and the
  listing, in the state these two calls lead to, so nothing was removed.
\<close>

theorem DeleteVolume_unlisted:
  assumes "volumeId \<noteq> ''''" and "good_client (cl s)" and "listing nas s l t"
    and "volumeId \<notin> target_Name ` set (Targets l)"
  shows "DeleteVolume nas volumeId s = (Ret (), t)"
  by (rule DeleteVolume_none [OF assms])

theorem DeleteVolume_unlisted_witness:
  "\<exists>t. DeleteVolume (replayed refused) ''pvc1a'' \<lparr>cl = demo_client, net = retry\<rparr> = (Ret (), t)"
proof -
  let ?s = "\<lparr>cl = demo_client, net = retry\<rparr>"
  have "listing (replayed refused) ?s \<lparr>tl_AuthPassed = '''', tl_Result = ''0'', Targets = []\<rparr>
      (?s\<lparr>cl := demo_client\<lparr>sid := ''abd''\<rparr>, net := []\<rparr>)"
    by (simp add: listing_def retry_def list_reply_doc)
  with DeleteVolume_unlisted [of "''pvc1a''" ?s "replayed refused"] show ?thesis
    by (auto simp: demo_client_good)
qed

text \<open>
  C32: a LUN is lost when its removal fails once. When a deletion fails at a LUN, the removal of the
  target was confirmed before, the removals of the LUNs up to one were, and that one's was not.
  Once the NAS no longer lists a target of the name, the retry the status asks for succeeds, with
  a login and a listing for all its traffic. So the removal at which the first attempt broke off
  is confirmed in neither run, those after it in the list are sent in neither, and the caller is
  told that the volume is gone.
\<close>

theorem DeleteVolume_retry_loses_lun:
  assumes "DeleteVolume (logged nas) volumeId s
      = (Fail (Status Internal ''Failed to delete ISCSI Block based LUN''), t)"
    and "good_client (cl s)" and "traffic s = []"
    and "listing (logged nas) t l' u" and "volumeId \<notin> target_Name ` set (Targets l')"
  shows "DeleteVolume (logged nas) volumeId t = (Ret (), u)
    \<and> (\<exists>x y l target z lun es x' y'.
        traffic t = [(login_request (cl s), x), (list_request (cl t), y),
            (del_target_request (cl t) (TargetIndex target), z)] @ es
        \<and> list_reply y = Ret l \<and> target \<in> set (Targets l) \<and> target_Name target = volumeId
        \<and> echo_reply (TargetIndex target) z = Ret () \<and> breaks_at (cl t) (TargetLUNs target) lun es
        \<and> traffic u = traffic t @ [(login_request (cl t), x'), (list_request (cl u), y')])"
proof -
  have id: "volumeId \<noteq> ''''" using assms(1) by (auto simp: DeleteVolume_def fail_def)
  with assms(1) have "onErr (Login (logged nas)) (internal ''Failed to login to NAS'')
      (\<lambda>_. onErr (GetStorageISCSITargetList (logged nas)) (internal ''Failed to get list of ISCSI targets'')
        (\<lambda>targetList. deleteTargets (logged nas) volumeId (Targets targetList))) s
    = (Fail (Status Internal ''Failed to delete ISCSI Block based LUN''), t)"
    by (simp add: DeleteVolume_def)
  then obtain x v y l w where listed: "list_reply y = Ret l" "cl w = (cl s)\<lparr>sid := v\<rparr>" "good_client (cl w)"
    "traffic w = [(login_request (cl s), x), (list_request (cl w), y)]"
    and del: "deleteTargets (logged nas) volumeId (Targets l) w
      = (Fail (Status Internal ''Failed to delete ISCSI Block based LUN''), t)"
    using assms(2,3) by (cases rule: listing_cases) (auto split: if_splits)
  from del obtain target where target: "find (\<lambda>target. target_Name target = volumeId) (Targets l) = Some target"
    and "onErr (DeleteStorageISCSITarget (logged nas) (TargetIndex target)) (internal ''Failed to delete ISCSI target'')
      (\<lambda>_. deleteLuns (logged nas) (TargetLUNs target)) w
      = (Fail (Status Internal ''Failed to delete ISCSI Block based LUN''), t)"
    by (auto simp: deleteTargets_find ret_def split: option.splits)
  from this(2) obtain a w' where r: "DeleteStorageISCSITarget (logged nas) (TargetIndex target) w = (Ret a, w')"
    "deleteLuns (logged nas) (TargetLUNs target) w'
      = (Fail (Status Internal ''Failed to delete ISCSI Block based LUN''), t)"
    by (cases rule: onErr_cases) (auto simp: internal_def fail_def)
  obtain z where z: "echo_reply (TargetIndex target) z = Ret a" "good_client (cl w')"
    "sends w w' (cl w) (del_target_request (cl w) (TargetIndex target)) z"
    using del_target_sends [OF r(1) listed(3)] by metis
  have w': "cl w' = cl w" "traffic w' = traffic w @ [(del_target_request (cl w) (TargetIndex target), z)]"
    using z(3) by (simp_all add: sends_def)
  obtain lun es where es: "traffic t = traffic w' @ es" "cl t = cl w" "breaks_at (cl w) (TargetLUNs target) lun es"
    using deleteLuns_breaks_at [OF r(2) z(2)] w'(1) by auto
  have good: "good_client (cl t)" using es(2) listed(3) by simp
  have "target \<in> set (Targets l)" "target_Name target = volumeId"
    using target by (auto simp: find_Some_iff)
  moreover have "\<exists>x' y'. traffic u = traffic t @ [(login_request (cl t), x'), (list_request (cl u), y')]"
    using assms(4) by (auto simp: listing_def dest!: logged_step)
  moreover have "DeleteVolume (logged nas) volumeId t = (Ret (), u)"
    by (rule DeleteVolume_none [OF id good assms(4,5)])
  ultimately show ?thesis using listed(1,4) es w'(2) z(1) by auto
qed

text \<open>The run of the second replay: the target is gone, its LUN is not.\<close>

lemma partial_delete_listing:
  assumes "snd (net t) = retry" and "good_client (cl t)"
  shows "\<exists>u. listing (logged (replayed refused)) t \<lparr>tl_AuthPassed = '''', tl_Result = ''0'', Targets = []\<rparr> u"
proof -
  obtain es where "net t = (es, retry)" using assms(1) by (cases "net t") simp
  then show ?thesis by (simp add: listing_def retry_def list_reply_doc)
qed

theorem DeleteVolume_retry_loses_lun_witness:
  "\<exists>t u. DeleteVolume (logged (replayed refused)) ''pvc1a'' (replay (lun_removal_fails @ retry)) =
        (Fail (Status Internal ''Failed to delete ISCSI Block based LUN''), t)
    \<and> DeleteVolume (logged (replayed refused)) ''pvc1a'' t = (Ret (), u)
    \<and> (\<exists>x' y'. traffic u = traffic t @ [(login_request (cl t), x'), (list_request (cl u), y')])"
proof -
  let ?s = "replay (lun_removal_fails @ retry)"
  obtain t where run: "DeleteVolume (logged (replayed refused)) ''pvc1a'' ?s =
      (Fail (Status Internal ''Failed to delete ISCSI Block based LUN''), t)"
    and t: "good_client (cl t)" "snd (net t) = retry"
    using partial_delete_result by blast
  obtain u where "listing (logged (replayed refused)) t \<lparr>tl_AuthPassed = '''', tl_Result = ''0'', Targets = []\<rparr> u"
    using partial_delete_listing [OF t(2,1)] by blast
  from DeleteVolume_retry_loses_lun [OF run _ _ this] run show ?thesis
    by (auto simp: replay_def demo_client_good)
qed

end
