(* ===== verification/ListProps.thy ===== *)
theory ListProps
  imports Replay
begin

text \<open>
  The handlers that only read: \<^verbatim>\<open>ListVolumes\<close> with its pages, \<^verbatim>\<open>GetCapacity\<close> and
  \<^verbatim>\<open>ValidateVolumeCapabilities\<close>.
\<close>

section \<open>A page\<close>

text \<open>The targets that are still to be listed: each index once, those seen before left out.\<close>

fun fresh :: "int set \<Rightarrow> targetInfo list \<Rightarrow> targetInfo list" where
  "fresh seen [] = []"
| "fresh seen (g # gs) =
     (if TargetIndex g \<in> seen then fresh seen gs else g # fresh (insert (TargetIndex g) seen) gs)"

definition token_after :: "nat \<Rightarrow> int set \<Rightarrow> targetInfo list \<Rightarrow> string" where
  "token_after k seen gs =
     (if length (fresh seen gs) \<le> k then ''''
      else seenIndexesToBase64String (sorted_list_of_set (seen \<union> TargetIndex ` set (take k (fresh seen gs)))))"

lemma full_page: "int n \<le> m \<Longrightarrow> m < 2 ^ 31 \<Longrightarrow> to_int32 (int n) = int n"
  by (intro to_int32_id) auto

lemma listLoop_page:
  assumes "length entries \<le> nat m" and "m < 2 ^ 31"
  shows "listLoop m gs entries (Some seen) =
    Some (entries @ map target_Name (take (nat m - length entries) (fresh seen gs)),
          token_after (nat m - length entries) seen gs)"
  using assms(1)
proof (induction gs arbitrary: entries seen)
  case Nil
  then show ?case by (simp add: token_after_def)
next
  case (Cons g gs)
  have len: "to_int32 (int (length entries)) = int (length entries)"
    using Cons.prems assms(2) by (intro to_int32_id) auto
  consider "TargetIndex g \<in> seen" | "TargetIndex g \<notin> seen" "nat m \<le> length entries"
    | "TargetIndex g \<notin> seen" "length entries < nat m" by linarith
  then show ?case
  proof cases
    case 1
    then show ?thesis using Cons.IH [OF Cons.prems] by (simp add: token_after_def)
  next
    case 2
    then have "m \<le> int (length entries)" by simp
    with 2 show ?thesis using Cons.prems by (simp add: len token_after_def)
  next
    case 3
    then have "\<not> m \<le> int (length entries)" "length (entries @ [target_Name g]) \<le> nat m"
      and k: "nat m - length entries = Suc (nat m - length (entries @ [target_Name g]))" by simp_all
    with 3 show ?thesis using Cons.IH [of "entries @ [target_Name g]" "insert (TargetIndex g) seen"]
      by (simp add: len token_after_def k del: length_append)
  qed
qed

lemma fresh_drop:
  "fresh (seen \<union> TargetIndex ` set (take k (fresh seen gs))) gs = drop k (fresh seen gs)"
proof (induction gs arbitrary: seen k)
  case (Cons g gs)
  show ?case
  proof (cases "TargetIndex g \<in> seen")
    case True
    with Cons.IH [of seen k] show ?thesis by simp
  next
    case False
    with Cons.IH [of "insert (TargetIndex g) seen" "k - 1"] show ?thesis by (cases k) simp_all
  qed
qed simp

lemma fresh_subset: "set (fresh seen gs) \<subseteq> set gs"
proof (induction gs arbitrary: seen)
  case (Cons g gs)
  from Cons.IH [of seen] Cons.IH [of "insert (TargetIndex g) seen"] show ?case by auto
qed simp

lemma fresh_length: "length (fresh seen gs) \<le> length gs"
  by (induction gs arbitrary: seen) (auto intro: le_SucI)

lemma insert_parsed_int64:
  "insert_parsed ws acc = Some S \<Longrightarrow> finite acc \<Longrightarrow> \<forall>i\<in>acc. in_int64 i \<Longrightarrow> finite S \<and> (\<forall>i\<in>S. in_int64 i)"
proof (induction ws arbitrary: acc)
  case (Cons w ws)
  from Cons.prems(1) obtain i where i: "Atoi w = Some i" "insert_parsed ws (insert i acc) = Some S"
    by (cases "Atoi w") simp_all
  from Cons.IH [OF i(2)] Cons.prems(2,3) Atoi_int64 [OF i(1)] show ?case by simp
qed simp

lemma token_seen_int64:
  assumes "base64SeenIndexesToMap token = Some S"
  shows "finite S \<and> (\<forall>i\<in>S. in_int64 i)"
proof (cases "DecodeString token")
  case None
  with assms show ?thesis by (simp add: base64SeenIndexesToMap_def)
next
  case (Some ws)
  with assms have "insert_parsed (split_on (CHR '','') ws) {} = Some S"
    by (simp only: base64SeenIndexesToMap_def option.case)
  from insert_parsed_int64 [OF this] show ?thesis by simp
qed

lemma starting_seen_int64:
  "starting_seen token = Some S \<Longrightarrow> finite S \<and> (\<forall>i\<in>S. in_int64 i)"
  by (cases "base64SeenIndexesToMap token")
    (auto simp: starting_seen_def dest: token_seen_int64 split: if_splits)

lemma ListVolumes_run:
  assumes "listing nas s l t" and "good_client (cl s)"
  shows "ListVolumes nas token m s =
    (let m = (if m = 0 then to_int32 (int (length (Targets l))) else m)
     in case listLoop m (Targets l) [] (starting_seen token) of
          None \<Rightarrow> (Panic, t)
        | Some (entries, nextToken) \<Rightarrow> (Ret \<lparr>Entries = entries, NextToken = nextToken\<rparr>, t))"
  by (simp add: ListVolumes_def listing_run [OF assms] Let_def io_simps split: option.split prod.split)

lemma token_after_rest:
  assumes "finite seen" and "\<forall>i\<in>seen. in_int64 i" and "\<forall>g\<in>set gs. in_int64 (TargetIndex g)"
    and "0 < k" and "k < length (fresh seen gs)"
  shows "token_after k seen gs \<noteq> ''''
    \<and> starting_seen (token_after k seen gs) = Some (seen \<union> TargetIndex ` set (take k (fresh seen gs)))"
proof -
  let ?S = "seen \<union> TargetIndex ` set (take k (fresh seen gs))"
  have fin: "finite ?S" using assms(1) by simp
  have "take k (fresh seen gs) \<noteq> []" using assms(4,5) by auto
  then have ne: "sorted_list_of_set ?S \<noteq> []" using fin by simp
  have "set (take k (fresh seen gs)) \<subseteq> set gs" using fresh_subset set_take_subset by fast
  then have "\<forall>i\<in>?S. in_int64 i" using assms(2,3) by auto
  then have "base64SeenIndexesToMap (seenIndexesToBase64String (sorted_list_of_set ?S)) = Some ?S"
    using token_roundtrip [OF ne] fin by simp
  then show ?thesis
    using assms(5) seenIndexes_nonempty [OF ne] by (simp add: token_after_def starting_seen_def)
qed

section \<open>All pages\<close>

text \<open>The loop of a caller that follows the tokens, with a bound on the number of pages.\<close>

primrec drain :: "'w nas \<Rightarrow> int \<Rightarrow> nat \<Rightarrow> string \<Rightarrow> ('w, string list) handler" where
  "drain nas m 0 token s = (Hang, s)"
| "drain nas m (Suc n) token s =
     onErr (ListVolumes nas token m) fail (\<lambda>page.
       if NextToken page = '''' then ret (Entries page)
       else onErr (drain nas m n (NextToken page)) fail (\<lambda>rest. ret (Entries page @ rest))) s"

definition stable :: "'w nas \<Rightarrow> targetListResp \<Rightarrow> bool" where
  "stable nas l \<longleftrightarrow> (\<forall>s. good_client (cl s) \<longrightarrow> (\<exists>t. listing nas s l t))"

lemma drain_complete:
  assumes "stable nas l" and "0 < m" and "m < 2 ^ 31"
  shows "good_client (cl s) \<Longrightarrow> starting_seen token = Some seen \<Longrightarrow> length (fresh seen (Targets l)) < n
    \<Longrightarrow> \<exists>t. drain nas m n token s = (Ret (map target_Name (fresh seen (Targets l))), t)"
proof (induction n arbitrary: s token seen)
  case (Suc n)
  let ?f = "fresh seen (Targets l)"
  obtain t where t: "listing nas s l t" using assms(1) Suc.prems(1) by (auto simp: stable_def)
  have page: "ListVolumes nas token m s =
      (Ret \<lparr>Entries = map target_Name (take (nat m) ?f), NextToken = token_after (nat m) seen (Targets l)\<rparr>, t)"
    using assms(2,3) Suc.prems(2)
    by (simp add: ListVolumes_run [OF t Suc.prems(1)] listLoop_page)
  show ?case
  proof (cases "length ?f \<le> nat m")
    case True
    then show ?thesis by (simp add: onErr_def page token_after_def io_simps)
  next
    case False
    have int64: "\<forall>g\<in>set (Targets l). in_int64 (TargetIndex g)" using listing_int64 [OF t] by blast
    note seen = conjunct1 [OF starting_seen_int64 [OF Suc.prems(2)]] conjunct2 [OF starting_seen_int64 [OF Suc.prems(2)]]
    have tok: "token_after (nat m) seen (Targets l) \<noteq> ''''"
      "starting_seen (token_after (nat m) seen (Targets l)) = Some (seen \<union> TargetIndex ` set (take (nat m) ?f))"
      using token_after_rest [OF seen int64, of "nat m"] False assms(2) by auto
    have rest: "fresh (seen \<union> TargetIndex ` set (take (nat m) ?f)) (Targets l) = drop (nat m) ?f"
      by (rule fresh_drop)
    have "length (drop (nat m) ?f) < n" using Suc.prems(3) False assms(2) by simp
    with Suc.IH [OF listing_run(2) [OF t Suc.prems(1)] tok(2)] obtain u where
      "drain nas m n (token_after (nat m) seen (Targets l)) t = (Ret (map target_Name (drop (nat m) ?f)), u)"
      unfolding rest by blast
    then show ?thesis
      using tok(1) by (simp add: onErr_def page io_simps flip: map_append)
  qed
qed simp

section \<open>Unsigned to signed\<close>

lemma sint64: "sint (c :: 64 word) = (if uint c < 2 ^ 63 then uint c else uint c - 2 ^ 64)"
proof -
  have range: "0 \<le> uint c" "uint c < 2 ^ 64" using uint_lt2p [of c] by simp_all
  have "sint c = (uint c + 2 ^ 63) mod 2 ^ 64 - 2 ^ 63"
    by (simp add: sint_uint signed_take_bit_eq_take_bit_shift take_bit_eq_mod)
  also have "\<dots> = (if uint c < 2 ^ 63 then uint c else uint c - 2 ^ 64)"
  proof (cases "uint c < 2 ^ 63")
    case True
    then show ?thesis using range by (simp add: mod_pos_pos_trivial)
  next
    case False
    have "(uint c + 2 ^ 63) mod 2 ^ 64 = (uint c + 2 ^ 63 - 2 ^ 64) mod 2 ^ 64"
      by (simp only: minus_mod_self2)
    also have "\<dots> = uint c + 2 ^ 63 - 2 ^ 64" using False range by (intro mod_pos_pos_trivial) simp_all
    finally show ?thesis using False by simp
  qed
  finally show ?thesis .
qed

section \<open>Properties\<close>

text \<open>
  C9: one page of the listing. From a non-empty starting token the page holds the names of the
  first targets whose indexes the token does not contain, up to the limit of the request, or all
  of them when there is no limit; the next token is empty exactly when nothing remains, and is
  otherwise the token of everything seen so far. A token that cannot be read counts as an
  empty one.
\<close>

theorem ListVolumes_page:
  assumes "listing nas s l t" and "good_client (cl s)" and "token \<noteq> ''''"
    and "m < 2 ^ 31" and "length (Targets l) < 2 ^ 31"
  shows "ListVolumes nas token m s =
    (let seen = (case base64SeenIndexesToMap token of None \<Rightarrow> {} | Some seen \<Rightarrow> seen);
         k = (if m = 0 then length (Targets l) else nat m);
         rest = fresh seen (Targets l)
     in (Ret \<lparr>Entries = map target_Name (take k rest),
              NextToken = (if length rest \<le> k then ''''
                else seenIndexesToBase64String (sorted_list_of_set (seen \<union> TargetIndex ` set (take k rest))))\<rparr>, t))"
proof -
  define seen where "seen = (case base64SeenIndexesToMap token of None \<Rightarrow> {} | Some seen \<Rightarrow> seen)"
  have start: "starting_seen token = Some seen"
    using assms(3) by (simp add: starting_seen_def seen_def split: option.split)
  have all: "to_int32 (int (length (Targets l))) = int (length (Targets l))"
    using assms(5) by (intro to_int32_id) auto
  show ?thesis
    unfolding ListVolumes_run [OF assms(1,2)] seen_def [symmetric] start
    using assms(4,5) by (simp add: all listLoop_page token_after_def Let_def)
qed

definition two_targets :: "http_reply list" where
  "two_targets = [ok (login_doc ''abc''), ok (list_doc [(0, ''vol0'', ''iqn0'', [1]), (1, ''vol1'', ''iqn1'', [2])])]"

definition two_listed :: targetListResp where
  "two_listed = \<lparr>tl_AuthPassed = '''', tl_Result = ''0'',
     Targets = [target_info (0, ''vol0'', ''iqn0'', [1]), target_info (1, ''vol1'', ''iqn1'', [2])]\<rparr>"

lemma two_listing:
  "listing (replayed refused) \<lparr>cl = demo_client, net = two_targets\<rparr> two_listed
     \<lparr>cl = demo_client\<lparr>sid := ''abc''\<rparr>, net = []\<rparr>"
  by (simp add: listing_def two_targets_def two_listed_def list_reply_doc in_int64_def)

theorem ListVolumes_page_witness:
  "ListVolumes (replayed refused) (seenIndexesToBase64String [0]) 5 \<lparr>cl = demo_client, net = two_targets\<rparr> =
    (Ret \<lparr>Entries = [''vol1''], NextToken = ''''\<rparr>, \<lparr>cl = demo_client\<lparr>sid := ''abc''\<rparr>, net = []\<rparr>)"
proof -
  have tok: "seenIndexesToBase64String [0] \<noteq> ''''" by (rule seenIndexes_nonempty) simp
  have dec: "base64SeenIndexesToMap (seenIndexesToBase64String [0]) = Some {0}"
    using token_roundtrip [of "[0]"] by (simp add: in_int64_def)
  show ?thesis
    using ListVolumes_page [OF two_listing _ tok, of 5]
    by (simp add: demo_client_good dec two_listed_def target_info_def)
qed

text \<open>
  C30: the first page cannot be asked for. With an empty starting token the set of seen indexes is a
  nil pointer, and the handler panics as soon as the NAS has a target; it answers only when there
  is none.
\<close>

theorem ListVolumes_first_page:
  assumes "listing nas s l t" and "good_client (cl s)"
  shows "ListVolumes nas '''' m s =
    (if Targets l = [] then (Ret \<lparr>Entries = [], NextToken = ''''\<rparr>, t) else (Panic, t))"
  by (cases "Targets l") (simp_all add: ListVolumes_run [OF assms] starting_seen_def Let_def)

theorem ListVolumes_first_page_witness:
  "\<exists>t. ListVolumes (replayed refused) '''' 0 \<lparr>cl = demo_client, net = two_targets\<rparr> = (Panic, t)"
  using ListVolumes_first_page [OF two_listing] by (simp add: demo_client_good two_listed_def)

text \<open>
  C6: following the tokens lists everything once. On a NAS whose targets do not change, a caller
  that starts from a readable non-empty token and asks for pages of a positive size until the
  next token is empty gets, within one page more than there are targets, the name of every target
  the token does not contain, each index once and in the order of the NAS.
\<close>

theorem ListVolumes_complete:
  assumes "stable nas l" and "good_client (cl s)" and "token \<noteq> ''''"
    and "base64SeenIndexesToMap token = Some seen" and "0 < m" and "m < 2 ^ 31"
  shows "\<exists>t. drain nas m (Suc (length (Targets l))) token s =
    (Ret (map target_Name (fresh seen (Targets l))), t)"
  using drain_complete [OF assms(1,5,6,2), of token seen] assms(3,4) fresh_length [of seen "Targets l"]
  by (simp add: starting_seen_def le_imp_less_Suc del: drain.simps)

text \<open>A NAS with two targets, whatever it is asked.\<close>

definition steady :: "unit nas" where
  "steady q w = (if request_func q = None then ok (login_doc ''abc'')
     else ok (list_doc [(0, ''vol0'', ''iqn0'', [1]), (1, ''vol1'', ''iqn1'', [2])]), w)"

lemma steady_stable: "stable steady two_listed"
  by (auto simp: stable_def listing_def steady_def login_func request_funcs two_listed_def list_reply_doc in_int64_def)

theorem ListVolumes_complete_witness:
  "\<exists>t. drain steady 1 3 (seenIndexesToBase64String [9]) \<lparr>cl = demo_client, net = ()\<rparr> =
    (Ret [''vol0'', ''vol1''], t)"
proof -
  have tok: "seenIndexesToBase64String [9] \<noteq> ''''" by (rule seenIndexes_nonempty) simp
  have dec: "base64SeenIndexesToMap (seenIndexesToBase64String [9]) = Some {9}"
    using token_roundtrip [of "[9]"] by (simp add: in_int64_def)
  have "\<exists>t. drain steady 1 (Suc (length (Targets two_listed))) (seenIndexesToBase64String [9])
      \<lparr>cl = demo_client, net = ()\<rparr> = (Ret (map target_Name (fresh {9} (Targets two_listed))), t)"
    by (rule ListVolumes_complete [OF steady_stable _ tok dec]) (simp_all add: demo_client_good)
  then show ?thesis by (simp add: two_listed_def target_info_def eval_nat_numeral del: drain.simps)
qed

text \<open>
  C33: the capacity reported is the size of the pool. The available capacity is the total size the
  NAS gives for the pool, read as a signed number, so it is negative from \<open>2 ^ 63\<close> bytes on; the
  free size in the same reply has no part in it. The bounds are the smallest and the largest
  volume that can be created.
\<close>

theorem GetCapacity_total:
  assumes "good_client (cl s)" and "nas (login_request (cl s)) (net s) = (x, w)" and "login_reply x = Ret v"
    and "nas (pool_request ((cl s)\<lparr>sid := v\<rparr>) (d_storagePoolID d)) w = (y, w')" and "pool_reply y = Ret r"
  shows "GetCapacity nas d s =
    (Ret \<lparr>AvailableCapacity =
            (if uint (CapacityBytes (PoolSubscription r)) < 2 ^ 63 then uint (CapacityBytes (PoolSubscription r))
             else uint (CapacityBytes (PoolSubscription r)) - 2 ^ 64),
          MaximumVolumeSize = 128 * 2 ^ 30, MinimumVolumeSize = 2 ^ 30\<rparr>,
     s\<lparr>cl := (cl s)\<lparr>sid := v\<rparr>, net := w'\<rparr>)"
  using assms by (simp add: GetCapacity_def onErr_def login_eq pool_eq io_simps sint64 size_defs)

theorem GetCapacity_total_witness:
  "\<exists>t. GetCapacity (replayed refused) demo_driver
      \<lparr>cl = demo_client, net = [ok (login_doc ''abc''), ok (pool_doc 1000 10)]\<rparr> =
    (Ret \<lparr>AvailableCapacity = 1000, MaximumVolumeSize = 128 * 2 ^ 30, MinimumVolumeSize = 2 ^ 30\<rparr>, t)"
proof -
  let ?s = "\<lparr>cl = demo_client, net = [ok (login_doc ''abc''), ok (pool_doc 1000 10)]\<rparr>"
  obtain r where r: "pool_reply (ok (pool_doc 1000 10)) = Ret r" "CapacityBytes (PoolSubscription r) = 1000"
    using pool_reply_doc [of 1000 10] by auto
  show ?thesis
    using GetCapacity_total [of ?s "replayed refused" "ok (login_doc ''abc'')" _ "''abc''" demo_driver
        "ok (pool_doc 1000 10)" "[]" r]
    by (simp add: demo_client_good r)
qed

text \<open>
  C34: validation looks a volume up and nothing more. With an identifier and some capabilities, the
  answer is always the single supported capability when a target of that name is listed, and
  \<open>NotFound\<close> when none is; the capabilities asked about do not change it.
\<close>

theorem ValidateVolumeCapabilities_lookup:
  assumes "listing nas s l t" and "good_client (cl s)" and "volumeId \<noteq> ''''"
  shows "ValidateVolumeCapabilities nas volumeId (Some caps) s =
    (if volumeId \<in> target_Name ` set (Targets l)
     then Ret [\<lparr>AccessMode = Some SINGLE_NODE_WRITER, AccessType = None\<rparr>]
     else Fail (Status NotFound (''ValidateVolumeCapabilities Volume ID '' @ volumeId @ '' not found'')), t)"
  using assms(3)
  by (auto simp: ValidateVolumeCapabilities_def listing_run [OF assms(1,2)] io_simps list_ex_iff
      supportedAccessMode_def)

theorem ValidateVolumeCapabilities_lookup_witness:
  "\<exists>t. ValidateVolumeCapabilities (replayed refused) ''vol1'' (Some [\<lparr>AccessMode = Some (OtherMode 5), AccessType = Some Block\<rparr>])
      \<lparr>cl = demo_client, net = two_targets\<rparr> =
    (Ret [\<lparr>AccessMode = Some SINGLE_NODE_WRITER, AccessType = None\<rparr>], t)"
  using ValidateVolumeCapabilities_lookup [OF two_listing, of "''vol1''"]
  by (simp add: demo_client_good two_listed_def target_info_def)

end
