(* ===== verification/ClientProps.thy ===== *)
theory ClientProps
  imports Replay
begin

text \<open>
  The properties of the client: its construction, its session, what its requests say and when its
  operations report success.
\<close>

section \<open>What an operation asks for\<close>

text \<open>
  \<open>asks m s e q b\<close>: the operation sends one request, a POST to the endpoint \<open>e\<close>, in which the
  server reads the parameters \<open>q\<close> in the query and \<open>b\<close> in the body, in the order of the encoding,
  which is by name.
\<close>

definition asks :: "('w observed st, 'e, 'a) io \<Rightarrow> 'w observed st \<Rightarrow> string \<Rightarrow> form \<Rightarrow> form \<Rightarrow> bool" where
  "asks m s e q b \<longleftrightarrow> (\<exists>req x. traffic (snd (m s)) = traffic s @ [(req, x)]
     \<and> req_method req = ''POST'' \<and> takeWhile (\<lambda>c. c \<noteq> CHR ''?'') (req_url req) = e
     \<and> request_forms req = Some (sort_key fst q, sort_key fst b))"

lemma asks_op:
  assumes "plain_endpoint e"
    and "pl = Encode b"
    and "m s = (case logged nas (post_request (e @ ''?'' @ Encode q) pl) (net s) of
      (r, w) \<Rightarrow> (f r, s\<lparr>net := w\<rparr>))"
  shows "asks m s e q b"
proof -
  obtain r w where n: "logged nas (post_request (e @ ''?'' @ Encode q) (Encode b)) (net s) = (r, w)"
    by (metis prod.exhaust)
  have "fst w = traffic s @ [(post_request (e @ ''?'' @ Encode q) (Encode b), r)]" by (rule logged_step [OF n])
  moreover have "takeWhile (\<lambda>c. c \<noteq> CHR ''?'') (e @ ''?'' @ Encode q) = e"
    using plain_endpoint_no_query [OF assms(1)] by (subst takeWhile_append2) auto
  ultimately show ?thesis
    using assms(3) request_forms_post [OF assms(1), of q b]
    unfolding assms(2) asks_def n by (auto simp: post_request_def)
qed

lemma login_forms:
  assumes "good_client c"
  shows "request_forms (login_request c) = Some ([], [(''pwd'', Password c), (''user'', Username c)])"
    and "takeWhile (\<lambda>c. c \<noteq> CHR ''?'') (req_url (login_request c)) = loginEndpoint c"
proof -
  have no: "CHR ''?'' \<notin> set (loginEndpoint c)"
    using assms by (simp add: good_client_def plain_endpoint_no_query)
  then have path: "dropWhile (\<lambda>c. c \<noteq> CHR ''?'') (loginEndpoint c) = []" by auto
  show "request_forms (login_request c) = Some ([], [(''pwd'', Password c), (''user'', Username c)])"
    by (simp add: path request_forms_def login_request_def post_request_def ReadForm_Encode
        ReadForm_def [of "''''"])
  show "takeWhile (\<lambda>c. c \<noteq> CHR ''?'') (req_url (login_request c)) = loginEndpoint c"
    using no by (auto simp: login_request_def post_request_def)
qed

lemma Login_asks:
  assumes "good_client (cl s)"
  shows "asks (Login (logged nas)) s (loginEndpoint (cl s)) []
    [(''user'', Username (cl s)), (''pwd'', Password (cl s))]"
proof -
  obtain r t where run: "Login (logged nas) s = (r, t)" by (metis prod.exhaust)
  obtain x where "traffic t = traffic s @ [(login_request (cl s), x)]"
    by (rule login_sends [OF run assms]) (auto simp: sends_def)
  moreover have "req_method (login_request (cl s)) = ''POST''" by (simp add: login_request_def post_request_def)
  ultimately show ?thesis using login_forms [OF assms] by (auto simp: asks_def run)
qed

section \<open>Properties\<close>

text \<open>
  C36: construction. For an ordinary address of the NAS, with any number of slashes at its end, a
  client is built whose endpoints are ordinary addresses, that has no session yet, and whose
  stored password is the base64 text of the one given.
\<close>

theorem NewClient_good:
  assumes "plain_address scheme host port path" and "path = [] \<or> last path \<noteq> CHR ''/''"
  shows "\<exists>c. NewClient user password (address scheme host port path @ replicate n (CHR ''/'')) = Inr c
    \<and> good_client c \<and> sid c = '''' \<and> Username c = user \<and> DecodeString (Password c) = Some password
    \<and> loginEndpoint c = address scheme host port path @ ''/cgi-bin/authLogin.cgi''"
  by (rule NewClient_plain [OF assms])

theorem NewClient_good_witness:
  "\<exists>c. NewClient ''admin'' ''secret'' ''https://10.0.0.7:443///'' = Inr c \<and> good_client c"
proof -
  have "plain_address ''https'' ''10.0.0.7'' '':443'' ''''"
    by (simp add: plain_address_def host_char_def is_digit_def is_alnum_def)
  from NewClient_good [OF this, of "''admin''" "''secret''" 3] show ?thesis
    by (auto simp: address_def numeral_3_eq_3)
qed

text \<open>
  C21: the session. A login asks with the user name and the password of the client; the session
  identifier becomes the one of the reply exactly when the NAS says the login passed, and nothing
  else of the client ever changes. Without a reply the login does not return.
\<close>

theorem Login_session:
  assumes "good_client (cl s)" and "nas (login_request (cl s)) (net s) = (x, w)"
  shows "Login nas s =
      (case x of
         Response code (Inr (Some doc)) \<Rightarrow>
           if code \<noteq> 200 then (Fail (ErrorString ''status code not 200''), s\<lparr>net := w\<rparr>)
           else if xml_string [''authPassed''] doc = ''1''
           then (Ret (), s\<lparr>cl := (cl s)\<lparr>sid := xml_string [''authSid''] doc\<rparr>, net := w\<rparr>)
           else (Fail (ErrorString ''invalid username or password''), s\<lparr>net := w\<rparr>)
       | Response code (Inr None) \<Rightarrow>
           (Fail (if code \<noteq> 200 then ErrorString ''status code not 200'' else XmlError), s\<lparr>net := w\<rparr>)
       | Response code (Inl e) \<Rightarrow> (Fail (TransportError e), s\<lparr>net := w\<rparr>)
       | DoErr e \<Rightarrow> (Fail (TransportError e), s\<lparr>net := w\<rparr>)
       | NoReply \<Rightarrow> (Hang, s\<lparr>net := w\<rparr>))
    \<and> request_forms (login_request (cl s)) = Some ([], [(''pwd'', Password (cl s)), (''user'', Username (cl s))])"
proof -
  show ?thesis
    using assms login_forms(1) [OF assms(1)]
    by (simp add: login_eq login_reply_def reply_result_def login_check_def unmarshalLogin_def
        split: http_reply.split sum.split option.split)
qed

theorem Login_session_witness:
  "Login (replayed refused) \<lparr>cl = demo_client, net = [ok (login_doc ''abc'')]\<rparr> =
    (Ret (), \<lparr>cl = demo_client\<lparr>sid := ''abc''\<rparr>, net = []\<rparr>)"
  using Login_session [of "\<lparr>cl = demo_client, net = [ok (login_doc ''abc'')]\<rparr>" "replayed refused"]
  by (simp add: demo_client_good ok_def login_doc_def xml_string_def)

text \<open>
  C16: the requests say what was asked. Whatever bytes a volume name, a session identifier or a
  credential has, each of the eleven operations sends one request, to its endpoint, and the server
  decodes from its query and its body exactly the arguments of the call, the session (for a login
  the credentials) and the function the operation stands for.
\<close>

theorem requests_carry_arguments:
  assumes "good_client (cl s)"
  shows "asks (Login (logged nas)) s (loginEndpoint (cl s)) []
      [(''user'', Username (cl s)), (''pwd'', Password (cl s))]
    \<and> asks (GetStoragePoolSubscription (logged nas) poolID) s (diskManageEndpoint (cl s))
      [(''sid'', sid (cl s)), (''store'', ''poolSubsc'')]
      [(''func'', ''extra_get''), (''Pool_Subs'', ''1''), (''poolID'', Itoa poolID)]
    \<and> asks (GetStorageLogicalVolumes (logged nas)) s (diskManageEndpoint (cl s))
      [(''sid'', sid (cl s)), (''store'', ''lvList'')] [(''func'', ''extra_get''), (''extra_vol_index'', ''1'')]
    \<and> asks (GetStorageISCSITargetList (logged nas)) s (iscsiPortalEndpoint (cl s))
      [(''sid'', sid (cl s)), (''func'', ''extra_get''), (''targetList'', ''1'')] []
    \<and> asks (GetStorageISCSILun (logged nas) l) s (iscsiPortalEndpoint (cl s))
      [(''sid'', sid (cl s)), (''func'', ''extra_get''), (''lun_info'', ''1''), (''lunID'', Itoa l)] []
    \<and> asks (CreateStorageISCSITarget (logged nas) name dd hg cm) s (iscsiTargetSettingsEndpoint (cl s))
      [(''sid'', sid (cl s))]
      [(''func'', ''add_target''), (''targetName'', name), (''targetAlias'', name),
       (''bTargetDataDigest'', b2is dd), (''bTargetHeaderDigest'', b2is hg), (''bTargetClusterEnable'', b2is cm)]
    \<and> asks (CreateStorageISCSIInitiator (logged nas) i ce cu cp me mu mp) s (iscsiTargetSettingsEndpoint (cl s))
      [(''sid'', sid (cl s))]
      [(''func'', ''add_init''), (''targetIndex'', Itoa i), (''initiatorIndex'', ''0''), (''bCHAPEnable'', b2is ce),
       (''CHAPUserName'', cu), (''CHAPPasswd'', cp), (''bMutualCHAPEnable'', b2is me),
       (''mutualCHAPUserName'', mu), (''mutualCHAPPasswd'', mp)]
    \<and> asks (CreateStorageISCSIBlockLUN (logged nas) name pl cap thin sec wc fua ssd tier) s
      (iscsiLunSettingsEndpoint (cl s)) [(''sid'', sid (cl s))]
      [(''func'', ''add_lun''), (''LUNThinAllocate'', b2is thin), (''LUNName'', name), (''LUNCapacity'', Itoa cap),
       (''LUNSectorSize'', Itoa sec), (''WCEnable'', b2is wc), (''FUAEnable'', b2is fua), (''FileIO'', ''no''),
       (''poolID'', Itoa pl), (''lv_ifssd'', b2yn ssd), (''LUNPath'', name), (''enable_tiering'', b2is tier)]
    \<and> asks (AttachStorageISCSITargetLUN (logged nas) l i) s (iscsiTargetSettingsEndpoint (cl s))
      [(''sid'', sid (cl s)), (''func'', ''add_lun''), (''LUNIndex'', Itoa l), (''targetIndex'', Itoa i)] []
    \<and> asks (DeleteStorageISCSITarget (logged nas) i) s (iscsiTargetSettingsEndpoint (cl s))
      [(''sid'', sid (cl s)), (''func'', ''remove_target''), (''targetIndex'', Itoa i)] []
    \<and> asks (DeleteStorageISCSIBlockLUN (logged nas) l bg) s (iscsiLunSettingsEndpoint (cl s))
      ([(''sid'', sid (cl s)), (''func'', ''remove_lun'')] @ (if bg then [(''run_background'', ''1'')] else [])
       @ [(''LUNIndex'', Itoa l)]) []"
proof -
  have p: "plain_endpoint (iscsiPortalEndpoint (cl s))" "plain_endpoint (iscsiTargetSettingsEndpoint (cl s))"
    "plain_endpoint (iscsiLunSettingsEndpoint (cl s))" "plain_endpoint (diskManageEndpoint (cl s))"
    using assms by (simp_all add: good_client_def)
  note none = Encode_Nil [symmetric]
  show ?thesis
    by (rule conjI, rule Login_asks [OF assms],
        rule conjI, rule asks_op [OF p(4) refl], rule pool.run_plain [OF p(4)],
        rule conjI, rule asks_op [OF p(4) refl], rule volumes.run_plain [OF p(4)],
        rule conjI, rule asks_op [OF p(1) none], rule target_list.run_plain [OF p(1)],
        rule conjI, rule asks_op [OF p(1) none], rule lun.run_plain [OF p(1)],
        rule conjI, rule asks_op [OF p(2) refl],
        rule add_target.run_plain [OF p(2), of _ "(name, dd, hg, cm)", unfolded prod.case],
        rule conjI, rule asks_op [OF p(2) refl],
        rule add_init.run_plain [OF p(2), of _ "(i, ce, cu, cp, me, mu, mp)", unfolded prod.case],
        rule conjI, rule asks_op [OF p(3) refl],
        rule add_lun.run_plain [OF p(3), of _ "(name, pl, cap, thin, sec, wc, fua, ssd, tier)", unfolded prod.case],
        rule conjI, rule asks_op [OF p(2) none],
        rule attach.run_plain [OF p(2), of _ "(l, i)", unfolded prod.case],
        rule conjI, rule asks_op [OF p(2) none], rule del_target.run_plain [OF p(2)],
        rule asks_op [OF p(3) none], rule del_lun.run_plain [OF p(3), of _ "(l, bg)", unfolded prod.case])
qed

theorem requests_carry_arguments_witness:
  "asks (CreateStorageISCSITarget (logged (replayed refused)) ''a&func=remove_target'' True False False) (replay [])
    (iscsiTargetSettingsEndpoint demo_client) [(''sid'', '''')]
    [(''func'', ''add_target''), (''targetName'', ''a&func=remove_target''),
     (''targetAlias'', ''a&func=remove_target''), (''bTargetDataDigest'', ''1''),
     (''bTargetHeaderDigest'', ''0''), (''bTargetClusterEnable'', ''0'')]"
  using requests_carry_arguments [of "replay []" "replayed refused" _ _ "''a&func=remove_target''" True False False]
  by (simp add: replay_def demo_client_good demo_client_sid b2is_def)

definition confirmed :: "'w nas \<Rightarrow> 'w st \<Rightarrow> int \<Rightarrow> 'w st \<Rightarrow> bool" where
  "confirmed nas s n t \<longleftrightarrow> cl t = cl s \<and> (\<exists>q doc. nas q (net s) = (Response 200 (Inr (Some doc)), net t)
     \<and> xml_int [''result''] doc = Some n)"

lemma unmarshalResult_result: "unmarshalResult doc = Some x \<Longrightarrow> xml_int [''result''] doc = Some (rr_Result x)"
  by (auto simp: unmarshalResult_def)

lemma unmarshalBlock_result:
  "unmarshalCreateBlockLUN doc = Some x \<Longrightarrow> xml_int [''result''] doc = Some (cb_Result x)"
  by (auto simp: unmarshalCreateBlockLUN_def split: option.splits)

context api_op
begin

lemma success_confirmed:
  assumes "call a s = (Ret b, t)" and "\<And>doc x. unm doc = Some x \<Longrightarrow> xml_int [''result''] doc = Some (res x)"
  shows "\<exists>x. chk a x = Inr b \<and> confirmed nas s (res x) t"
  by (rule success [OF assms(1)]) (use assms(2) keeps_client [OF assms(1)] in \<open>force simp: confirmed_def\<close>)

end

text \<open>
  C17: an operation that changes the NAS reports success only on a confirmation. The one reply it got
  has status 200 and a document whose result is the index of the new target, is not negative for
  an initiator or a LUN, echoes the index of the removed target, or is zero for a removed or
  attached LUN; the client is as before. (For an attached LUN the comment on the struct calls the
  result the LUN index; the code accepts 0 only, and this states what the code does.)
\<close>

theorem success_is_confirmed:
  "(CreateStorageISCSITarget nas name dd hg cm s = (Ret i, t) \<longrightarrow> 0 \<le> i \<and> confirmed nas s i t)
    \<and> (CreateStorageISCSIInitiator nas i ce cu cp me mu mp s = (Ret (), t) \<longrightarrow> (\<exists>n\<ge>0. confirmed nas s n t))
    \<and> (CreateStorageISCSIBlockLUN nas name pl cap thin sec wc fua ssd tier s = (Ret b, t) \<longrightarrow>
        0 \<le> cb_Result b \<and> confirmed nas s (cb_Result b) t)
    \<and> (AttachStorageISCSITargetLUN nas l i s = (Ret (), t) \<longrightarrow> confirmed nas s 0 t)
    \<and> (DeleteStorageISCSITarget nas i s = (Ret (), t) \<longrightarrow> confirmed nas s i t)
    \<and> (DeleteStorageISCSIBlockLUN nas l bg s = (Ret (), t) \<longrightarrow> confirmed nas s 0 t)"
proof (intro conjI impI)
  assume "CreateStorageISCSITarget nas name dd hg cm s = (Ret i, t)"
  from add_target.success_confirmed [of nas "(name, dd, hg, cm)" s i t rr_Result, unfolded prod.case, OF this unmarshalResult_result]
  show "0 \<le> i" "confirmed nas s i t" by (auto split: if_splits)
next
  assume "CreateStorageISCSIInitiator nas i ce cu cp me mu mp s = (Ret (), t)"
  from add_init.success_confirmed [of nas "(i, ce, cu, cp, me, mu, mp)" s "()" t rr_Result, unfolded prod.case, OF this unmarshalResult_result]
  show "\<exists>n\<ge>0. confirmed nas s n t" by (auto simp: not_less split: if_splits)
next
  assume "CreateStorageISCSIBlockLUN nas name pl cap thin sec wc fua ssd tier s = (Ret b, t)"
  from add_lun.success_confirmed [of nas "(name, pl, cap, thin, sec, wc, fua, ssd, tier)" s b t cb_Result, unfolded prod.case, OF this unmarshalBlock_result]
  show "0 \<le> cb_Result b" "confirmed nas s (cb_Result b) t" by (auto split: if_splits)
next
  assume "AttachStorageISCSITargetLUN nas l i s = (Ret (), t)"
  from attach.success_confirmed [of nas "(l, i)" s "()" t rr_Result, unfolded prod.case, OF this unmarshalResult_result]
  show "confirmed nas s 0 t" by (auto split: if_splits)
next
  assume "DeleteStorageISCSITarget nas i s = (Ret (), t)"
  from del_target.success_confirmed [of nas i s "()" t rr_Result, unfolded prod.case, OF this unmarshalResult_result]
  show "confirmed nas s i t" by (auto split: if_splits)
next
  assume "DeleteStorageISCSIBlockLUN nas l bg s = (Ret (), t)"
  from del_lun.success_confirmed [of nas "(l, bg)" s "()" t rr_Result, unfolded prod.case, OF this unmarshalResult_result]
  show "confirmed nas s 0 t" by (auto split: if_splits)
qed

theorem success_is_confirmed_witness:
  "\<exists>q doc. replayed refused q [ok (result_doc 4)] = (Response 200 (Inr (Some doc)), [])
    \<and> xml_int [''result''] doc = Some 4"
proof -
  let ?s = "\<lparr>cl = demo_client, net = [ok (result_doc 4)]\<rparr>"
  have "DeleteStorageISCSITarget (replayed refused) 4 ?s = (Ret (), \<lparr>cl = demo_client, net = []\<rparr>)"
    by (simp add: del_target_eq demo_client_good in_int64_def)
  with success_is_confirmed [THEN conjunct2, THEN conjunct2, THEN conjunct2, THEN conjunct2, THEN conjunct1]
  have "confirmed (replayed refused) ?s 4 \<lparr>cl = demo_client, net = []\<rparr>" by (rule mp)
  then show ?thesis by (simp add: confirmed_def)
qed

end
