(* ===== verification/Server.thy ===== *)
theory Server
  imports Node
begin

text \<open>
  \<^verbatim>\<open>Driver.Run\<close> of \<^verbatim>\<open>driver/driver.go\<close> and \<^verbatim>\<open>driver/identity.go\<close>: how a driver comes up on its
  endpoint, serves, becomes ready and stops, and what it tells about itself. The preparation is
  sequential and runs on the host; from then on two goroutines interleave, which is a step
  relation. A preparation that blocks makes no step.
\<close>

section \<open>Preparing the endpoint\<close>

text \<open>The driver is changed before the last calls of the preparation, so it is in the state.\<close>

record 'w prep =
  pr_driver :: driver
  pr_host :: 'w

definition on_host :: "('w, 'a) op \<Rightarrow> ('w prep, os_error, 'a) io" where
  "on_host m s = (case call m (pr_host s) of (r, w') \<Rightarrow> (r, s\<lparr>pr_host := w'\<rparr>))"

text \<open>\<open>parseErr\<close> words the error of a parse; \<open>listen\<close> is \<^verbatim>\<open>net.Listen\<close>.\<close>

definition listenOn :: "(string \<Rightarrow> string \<Rightarrow> ('w, unit) op) \<Rightarrow> url \<Rightarrow> string \<Rightarrow> ('w prep, string, unit) io" where
  "listenOn listen u grpcAddr =
     onErr (on_host (listen (Scheme u) grpcAddr)) (\<lambda>e. fail (''failed to listen: '' @ os_text e)) ret"

definition makeDirs :: "'w host \<Rightarrow> (string \<Rightarrow> string \<Rightarrow> ('w, unit) op) \<Rightarrow> url \<Rightarrow> string
    \<Rightarrow> ('w prep, string, unit) io" where
  "makeDirs host listen u grpcAddr =
     (let sockPath = Dir (Path u)
      in onErr (on_host (MkdirAll host sockPath 488))
           (\<lambda>e. fail (''failed to make directories for sock, error: '' @ os_text e)) (\<lambda>_ s.
         let configDir = Join2 sockPath ''config'';
             s' = s\<lparr>pr_driver := (pr_driver s)\<lparr>d_configDir := configDir\<rparr>\<rparr>
         in onErr (on_host (MkdirAll host configDir 488))
              (\<lambda>e. fail (''failed to make directories for config, error: '' @ os_text e))
              (\<lambda>_. listenOn listen u grpcAddr) s'))"

definition prepare :: "'w host \<Rightarrow> (string \<Rightarrow> string \<Rightarrow> ('w, unit) op) \<Rightarrow> (string \<Rightarrow> string)
    \<Rightarrow> ('w prep, string, unit) io" where
  "prepare host listen parseErr s =
     (case url_Parse (d_endpoint (pr_driver s)) of
        None \<Rightarrow> (Fail (''unable to parse address: '' @ parseErr (d_endpoint (pr_driver s))), s)
      | Some u \<Rightarrow>
          let grpcAddr = (if Host u = '''' then Path u else Join2 (Host u) (Path u))
          in if Scheme u \<noteq> ''unix'' then
               (Fail (''currently only unix domain sockets are supported, have: '' @ Scheme u), s)
             else
               onErr (on_host (Remove host grpcAddr))
                 (\<lambda>e. if os_notExist e then makeDirs host listen u grpcAddr
                      else fail (''failed to remove old unix domain socket file '' @ grpcAddr
                                   @ '', error: '' @ os_text e))
                 (\<lambda>_. makeDirs host listen u grpcAddr) s)"

section \<open>Serving\<close>

text \<open>
  Once it listens, the driver sets itself ready and starts two goroutines: one serves, the other
  waits for the context, then clears the flag and stops the server gracefully. \<open>Serve\<close> returns
  without an error once the server has been stopped, and may fail at any time before; if the
  server is stopped before \<open>Serve\<close> is called, \<open>Serve\<close> returns an error at once.
\<close>

datatype main_pc = Starting | Listening | Ready | Serving | Returned "string option"

datatype watch_pc = NotStarted | Waiting | Cancelled | Unready | Stopped

record server =
  sv_driver :: driver
  sv_main :: main_pc
  sv_watch :: watch_pc
  sv_cancelled :: bool

definition serverStart :: "driver \<Rightarrow> server" where
  "serverStart d = \<lparr>sv_driver = d, sv_main = Starting, sv_watch = NotStarted, sv_cancelled = False\<rparr>"

inductive run_step :: "'w host \<Rightarrow> (string \<Rightarrow> string \<Rightarrow> ('w, unit) op) \<Rightarrow> (string \<Rightarrow> string) \<Rightarrow> 'w
    \<Rightarrow> server \<Rightarrow> server \<Rightarrow> bool"
  for host :: "'w host" and listen :: "string \<Rightarrow> string \<Rightarrow> ('w, unit) op" and parseErr :: "string \<Rightarrow> string"
    and w :: 'w where
  prepared: "sv_main s = Starting \<Longrightarrow> prepare host listen parseErr \<lparr>pr_driver = sv_driver s, pr_host = w\<rparr> = (Ret (), p)
    \<Longrightarrow> run_step host listen parseErr w s (s\<lparr>sv_driver := pr_driver p, sv_main := Listening\<rparr>)"
| unprepared: "sv_main s = Starting \<Longrightarrow> prepare host listen parseErr \<lparr>pr_driver = sv_driver s, pr_host = w\<rparr> = (Fail e, p)
    \<Longrightarrow> run_step host listen parseErr w s (s\<lparr>sv_driver := pr_driver p, sv_main := Returned (Some e)\<rparr>)"
| set_ready: "sv_main s = Listening \<Longrightarrow>
    run_step host listen parseErr w s (s\<lparr>sv_driver := setReady True (sv_driver s), sv_main := Ready\<rparr>)"
| launch: "sv_main s = Ready \<Longrightarrow> run_step host listen parseErr w s (s\<lparr>sv_main := Serving, sv_watch := Waiting\<rparr>)"
| cancel: "run_step host listen parseErr w s (s\<lparr>sv_cancelled := True\<rparr>)"
| notice: "sv_watch s = Waiting \<Longrightarrow> sv_cancelled s \<Longrightarrow> run_step host listen parseErr w s (s\<lparr>sv_watch := Cancelled\<rparr>)"
| unready: "sv_watch s = Cancelled \<Longrightarrow>
    run_step host listen parseErr w s (s\<lparr>sv_driver := setReady False (sv_driver s), sv_watch := Unready\<rparr>)"
| stop: "sv_watch s = Unready \<Longrightarrow> run_step host listen parseErr w s (s\<lparr>sv_watch := Stopped\<rparr>)"
| served: "sv_main s = Serving \<Longrightarrow> sv_watch s = Stopped \<Longrightarrow> run_step host listen parseErr w s (s\<lparr>sv_main := Returned None\<rparr>)"
| serve_error: "sv_main s = Serving \<Longrightarrow> run_step host listen parseErr w s (s\<lparr>sv_main := Returned (Some e)\<rparr>)"

inductive runs :: "'w host \<Rightarrow> (string \<Rightarrow> string \<Rightarrow> ('w, unit) op) \<Rightarrow> (string \<Rightarrow> string) \<Rightarrow> 'w
    \<Rightarrow> driver \<Rightarrow> server \<Rightarrow> bool"
  for host :: "'w host" and listen :: "string \<Rightarrow> string \<Rightarrow> ('w, unit) op" and parseErr :: "string \<Rightarrow> string"
    and w :: 'w and d :: driver where
  start: "runs host listen parseErr w d (serverStart d)"
| step: "runs host listen parseErr w d s \<Longrightarrow> run_step host listen parseErr w s t \<Longrightarrow>
    runs host listen parseErr w d t"

inductive_cases run_stepE: "run_step host listen parseErr w s t"

section \<open>Identity\<close>

datatype pluginCapability = CONTROLLER_SERVICE | VOLUME_ACCESSIBILITY_CONSTRAINTS | EXPANSION_UNKNOWN

record pluginInfo =
  plugin_Name :: string
  VendorVersion :: string

definition GetPluginInfo :: "string \<Rightarrow> driver \<Rightarrow> pluginInfo" where
  "GetPluginInfo Version d = \<lparr>plugin_Name = d_name d, VendorVersion = Version\<rparr>"

definition GetPluginCapabilities :: "pluginCapability list" where
  "GetPluginCapabilities = [CONTROLLER_SERVICE, VOLUME_ACCESSIBILITY_CONSTRAINTS, EXPANSION_UNKNOWN]"

definition Probe :: "driver \<Rightarrow> bool" where
  "Probe d = d_ready d"

section \<open>Laws of the preparation\<close>

lemma on_host_cases [consumes 1, case_names Ret Fail Hang]:
  assumes "onErr (on_host m) h k s = (r, t)"
  obtains a w' where "call m (pr_host s) = (Ret a, w')" and "k a (s\<lparr>pr_host := w'\<rparr>) = (r, t)"
  | e w' where "call m (pr_host s) = (Fail e, w')" and "h e (s\<lparr>pr_host := w'\<rparr>) = (r, t)"
  | w' where "call m (pr_host s) = (Hang, w')" and "r = Hang" and "t = s\<lparr>pr_host := w'\<rparr>"
  using assms
proof (rule onErr_cases)
  fix a u
  assume "on_host m s = (Ret a, u)" and k: "k a u = (r, t)"
  then obtain w' where "call m (pr_host s) = (Ret a, w')" "u = s\<lparr>pr_host := w'\<rparr>"
    by (auto simp: on_host_def split: prod.splits)
  then show thesis using k that(1) by simp
next
  fix e u
  assume "on_host m s = (Fail e, u)" and h: "h e u = (r, t)"
  then obtain w' where "call m (pr_host s) = (Fail e, w')" "u = s\<lparr>pr_host := w'\<rparr>"
    by (auto simp: on_host_def split: prod.splits)
  then show thesis using h that(2) by simp
next
  assume "on_host m s = (Hang, t)" "r = Hang"
  then show thesis using that(3) by (auto simp: on_host_def split: prod.splits)
qed (auto simp: on_host_def split: prod.splits)

definition config_dir :: "url \<Rightarrow> string" where
  "config_dir u = Join2 (Dir (Path u)) ''config''"

lemma makeDirs_driver:
  assumes "makeDirs host listen u addr s = (r, t)"
  shows "pr_driver t = pr_driver s \<and> r \<noteq> Ret () \<or> pr_driver t = (pr_driver s)\<lparr>d_configDir := config_dir u\<rparr>"
  using assms unfolding makeDirs_def Let_def
proof (cases rule: on_host_cases)
  case (Ret a w')
  from Ret(2) show ?thesis
  proof (cases rule: on_host_cases)
    case (Ret a w'')
    from Ret(2) show ?thesis unfolding listenOn_def
      by (cases rule: on_host_cases) (auto simp: io_simps config_dir_def)
  qed (auto simp: io_simps config_dir_def)
qed (auto simp: io_simps)

lemma prepare_driver:
  assumes "prepare host listen parseErr s = (r, t)"
  shows "pr_driver t = pr_driver s \<and> r \<noteq> Ret ()
    \<or> (\<exists>u. url_Parse (d_endpoint (pr_driver s)) = Some u \<and> Scheme u = ''unix''
        \<and> pr_driver t = (pr_driver s)\<lparr>d_configDir := config_dir u\<rparr>)"
proof (cases "url_Parse (d_endpoint (pr_driver s))")
  case (Some u)
  show ?thesis
  proof (cases "Scheme u = ''unix''")
    case True
    let ?addr = "if Host u = '''' then Path u else Join2 (Host u) (Path u)"
    have "onErr (on_host (Remove host ?addr))
       (\<lambda>e. if os_notExist e then makeDirs host listen u ?addr
            else fail (''failed to remove old unix domain socket file '' @ ?addr @ '', error: '' @ os_text e))
       (\<lambda>_. makeDirs host listen u ?addr) s = (r, t)"
      using assms by (simp add: prepare_def Some True Let_def)
    then show ?thesis
      by (cases rule: on_host_cases)
         (auto simp: io_simps Some True dest!: makeDirs_driver split: if_splits)
  qed (use assms in \<open>auto simp: prepare_def Some Let_def\<close>)
qed (use assms in \<open>auto simp: prepare_def\<close>)

end
