(* ===== verification/ServerProps.thy ===== *)
theory ServerProps
  imports Server HostLaws
begin

text \<open>
  The readiness of a driver over all interleavings of its goroutines, and where a running driver
  keeps its connectors: an invariant of \<^verbatim>\<open>Driver.Run\<close> by rule induction, and its consequences.
\<close>

section \<open>The invariant\<close>

definition prepared_for :: "driver \<Rightarrow> driver \<Rightarrow> bool" where
  "prepared_for d d' \<longleftrightarrow>
     (\<exists>u b. url_Parse (d_endpoint d) = Some u \<and> Scheme u = ''unix''
        \<and> d' = d\<lparr>d_configDir := config_dir u, d_ready := b\<rparr>)"

definition server_inv :: "driver \<Rightarrow> server \<Rightarrow> bool" where
  "server_inv d s \<longleftrightarrow>
     (sv_main s = Starting \<longrightarrow> sv_driver s = d)
     \<and> (sv_main s \<in> {Starting, Listening, Ready} \<longrightarrow> sv_watch s = NotStarted)
     \<and> (sv_main s \<in> {Starting, Listening} \<longrightarrow> \<not> d_ready (sv_driver s))
     \<and> (sv_main s \<in> {Listening, Ready, Serving} \<or> sv_watch s \<noteq> NotStarted \<longrightarrow> prepared_for d (sv_driver s))
     \<and> (sv_watch s = NotStarted \<and> sv_main s \<noteq> Ready \<longrightarrow> sv_main s \<noteq> Serving \<and> \<not> d_ready (sv_driver s))
     \<and> (sv_main s = Ready \<or> sv_watch s \<in> {Waiting, Cancelled} \<longrightarrow> d_ready (sv_driver s))
     \<and> (sv_watch s \<in> {Unready, Stopped} \<longrightarrow> \<not> d_ready (sv_driver s))
     \<and> (sv_watch s \<noteq> NotStarted \<and> sv_watch s \<noteq> Waiting \<longrightarrow> sv_cancelled s)
     \<and> (sv_main s = Returned None \<longrightarrow> sv_watch s = Stopped)"

lemma prepared_for_ready [simp]: "prepared_for d (setReady b d') = prepared_for d d'"
proof -
  have "(\<exists>b'. setReady b d' = d\<lparr>d_configDir := c, d_ready := b'\<rparr>) = (\<exists>b'. d' = d\<lparr>d_configDir := c, d_ready := b'\<rparr>)" for c
    by (cases d, cases d') (auto simp: setReady_def)
  then show ?thesis unfolding prepared_for_def by blast
qed

lemma setReady_ready [simp]: "d_ready (setReady b d) = b"
  by (simp add: setReady_def)

lemma prepare_prepared:
  assumes "prepare host listen parseErr \<lparr>pr_driver = d, pr_host = w\<rparr> = (Ret (), p)"
  shows "prepared_for d (pr_driver p)" and "d_ready (pr_driver p) = d_ready d"
proof -
  obtain u where u: "url_Parse (d_endpoint d) = Some u" "Scheme u = ''unix''"
    "pr_driver p = d\<lparr>d_configDir := config_dir u\<rparr>"
    using prepare_driver [OF assms] by auto
  then show "prepared_for d (pr_driver p)" unfolding prepared_for_def
    by (intro exI [of _ u] exI [of _ "d_ready d"]) simp
  show "d_ready (pr_driver p) = d_ready d" by (simp add: u)
qed

lemma unprepared_ready:
  assumes "prepare host listen parseErr \<lparr>pr_driver = d, pr_host = w\<rparr> = (r, p)"
  shows "d_ready (pr_driver p) = d_ready d"
  using prepare_driver [OF assms] by auto

lemma step_keeps_inv:
  assumes "run_step host listen parseErr w s t" and "server_inv d s"
  shows "server_inv d t"
  using assms(1)
proof cases
  case (prepared p)
  have "sv_driver s = d" "\<not> d_ready d" using assms(2) prepared(2) by (auto simp: server_inv_def)
  then show ?thesis using assms(2) prepared prepare_prepared [OF prepared(3)] by (simp add: server_inv_def)
next
  case (unprepared e p)
  have "sv_driver s = d" "\<not> d_ready d" using assms(2) unprepared(2) by (auto simp: server_inv_def)
  then show ?thesis using assms(2) unprepared unprepared_ready [OF unprepared(3)] by (simp add: server_inv_def)
qed (use assms(2) in \<open>auto simp: server_inv_def\<close>)

lemma runs_inv: "runs host listen parseErr w d s \<Longrightarrow> \<not> d_ready d \<Longrightarrow> server_inv d s"
proof (induction rule: runs.induct)
  case start
  then show ?case by (simp add: server_inv_def serverStart_def)
next
  case (step s t)
  then show ?case using step_keeps_inv [OF step.hyps(2)] by simp
qed

lemma server_invD:
  assumes "server_inv d s"
  shows "sv_main s = Starting \<Longrightarrow> \<not> d_ready (sv_driver s)" and "sv_main s = Listening \<Longrightarrow> \<not> d_ready (sv_driver s)"
    and "sv_watch s = Unready \<Longrightarrow> \<not> d_ready (sv_driver s)" and "sv_watch s = Stopped \<Longrightarrow> \<not> d_ready (sv_driver s)"
    and "sv_main s = Serving \<Longrightarrow> prepared_for d (sv_driver s)" and "sv_main s = Ready \<Longrightarrow> prepared_for d (sv_driver s)"
    and "sv_watch s \<noteq> NotStarted \<Longrightarrow> prepared_for d (sv_driver s)"
    and "sv_watch s = NotStarted \<Longrightarrow> sv_main s \<noteq> Ready \<Longrightarrow> \<not> d_ready (sv_driver s)"
    and "sv_main s = Serving \<Longrightarrow> sv_watch s \<noteq> NotStarted"
    and "sv_watch s = Waiting \<Longrightarrow> d_ready (sv_driver s)"
    and "sv_watch s \<noteq> NotStarted \<Longrightarrow> sv_watch s \<noteq> Waiting \<Longrightarrow> sv_cancelled s"
    and "sv_main s = Returned None \<Longrightarrow> sv_watch s = Stopped"
    and "sv_main s = Ready \<Longrightarrow> d_ready (sv_driver s)" and "sv_watch s = Cancelled \<Longrightarrow> d_ready (sv_driver s)"
  using assms unfolding server_inv_def by (blast | simp)+

section \<open>Readiness\<close>

text \<open>
  C12: when a probe answers ready, over every interleaving of a driver that starts not ready. It does
  exactly from the moment \<^verbatim>\<open>Run\<close> has set the flag until the watcher has cleared it: after the
  endpoint was prepared and before the goroutines start, or while the watcher waits for the
  context or has seen it cancelled and not yet cleared the flag. Nothing else clears it; in
  particular it stays set when \<open>Serve\<close> has failed. While it is set the driver is the one
  prepared, with its configuration directory, on a unix endpoint; a driver that serves is ready
  until its context is cancelled; and a run that ends without an error was cancelled and is not
  ready.
\<close>

theorem readiness:
  assumes "runs host listen parseErr w d s" and "\<not> d_ready d"
  shows "(Probe (sv_driver s) \<longleftrightarrow> sv_main s = Ready \<or> sv_watch s = Waiting \<or> sv_watch s = Cancelled)
    \<and> (Probe (sv_driver s) \<longrightarrow> prepared_for d (sv_driver s))
    \<and> (sv_main s = Serving \<and> \<not> sv_cancelled s \<longrightarrow> Probe (sv_driver s))
    \<and> (sv_main s = Returned None \<longrightarrow> sv_cancelled s \<and> \<not> Probe (sv_driver s))"
proof -
  note inv = server_invD [OF runs_inv [OF assms]]
  have "Probe (sv_driver s) \<Longrightarrow> prepared_for d (sv_driver s)"
    unfolding Probe_def using inv(6-8) by blast
  moreover have "sv_main s = Serving \<and> \<not> sv_cancelled s \<Longrightarrow> Probe (sv_driver s)"
    unfolding Probe_def using inv(9-11) by blast
  moreover have "Probe (sv_driver s) \<longleftrightarrow> sv_main s = Ready \<or> sv_watch s = Waiting \<or> sv_watch s = Cancelled"
    unfolding Probe_def using inv(3,4,8,10,13,14) by (cases "sv_watch s") auto
  ultimately show ?thesis using inv(4,11,12) unfolding Probe_def by auto
qed

text \<open>A serving driver whose \<open>Serve\<close> fails is ready still.\<close>

lemma failed_serve_ready:
  assumes "runs host listen parseErr w d s" and "\<not> d_ready d" and "sv_main s = Serving" and "\<not> sv_cancelled s"
  shows "runs host listen parseErr w d (s\<lparr>sv_main := Returned (Some e)\<rparr>) \<and> Probe (sv_driver (s\<lparr>sv_main := Returned (Some e)\<rparr>))"
proof
  show "runs host listen parseErr w d (s\<lparr>sv_main := Returned (Some e)\<rparr>)"
    by (rule runs.step [OF assms(1)]) (rule run_step.serve_error [OF assms(3)])
  note inv = server_invD [OF runs_inv [OF assms(1,2)]]
  have "sv_watch s = Waiting" using inv(9,11) assms(3,4) by blast
  then show "Probe (sv_driver (s\<lparr>sv_main := Returned (Some e)\<rparr>))" using inv(10) by (simp add: Probe_def)
qed

section \<open>The files of a running driver\<close>

lemma rooted_Clean [simp]: "rooted (Clean s) = rooted s"
proof -
  obtain parts where "normal_parts (rooted s) parts" "Clean s = path_of (rooted s) parts"
    using Clean_normal by blast
  then show ?thesis by (simp add: path_of_split(1))
qed

lemma rooted_Dir: "rooted p \<Longrightarrow> rooted (Dir p)"
proof -
  assume p: "rooted p"
  then obtain cs where cs: "p = CHR ''/'' # cs" by (cases p) (auto simp: rooted_def)
  let ?q = "rev (dropWhile (\<lambda>c. c \<noteq> CHR ''/'') (rev p))"
  have "rooted ?q" by (simp add: cs rooted_def dropWhile_append hd_append)
  then show ?thesis unfolding Dir_def by simp
qed

lemma config_dir_props:
  assumes "rooted (Path u)"
  shows "rooted (config_dir u)" and "Clean (config_dir u) = config_dir u" and "config_dir u \<noteq> ''/''"
proof -
  have d: "rooted (Dir (Path u))" by (rule rooted_Dir [OF assms])
  then have ne: "Dir (Path u) \<noteq> []" by (simp add: rooted_def)
  then have "config_dir u = Clean (Dir (Path u) @ ''/'' @ ''config'')" by (simp add: config_dir_def Join2_def)
  moreover have "rooted (Dir (Path u) @ ''/'' @ ''config'')" using d ne by (simp add: rooted_def)
  ultimately show "rooted (config_dir u)" "Clean (config_dir u) = config_dir u" by (simp_all add: Clean_idem)
  have "config_dir u = (if Dir (Path u) = ''/'' then '''' else Dir (Path u)) @ ''/'' @ ''config''"
    unfolding config_dir_def by (rule Join2_plain [OF d]) (simp_all add: Dir_def Clean_idem plain_part_def)
  then show "config_dir u \<noteq> ''/''" by auto
qed

text \<open>
  C24: a driver that serves on an absolute socket path keeps the connector of each volume in a file
  of its own, directly inside its configuration directory: for identifiers without a slash the
  file is the directory, a slash, the identifier and the suffix, and two identifiers have the
  same file only if they are equal. The identifiers the controller hands out have no slash.
\<close>

theorem config_files:
  assumes "runs host listen parseErr w d s" and "\<not> d_ready d" and "sv_main s = Serving"
    and "url_Parse (d_endpoint d) = Some u" and "rooted (Path u)"
    and "CHR ''/'' \<notin> set volId" and "CHR ''/'' \<notin> set other"
  shows "getISCSILibConfigPath (sv_driver s) volId = config_dir u @ ''/'' @ volId @ ''.json''
    \<and> (getISCSILibConfigPath (sv_driver s) volId = getISCSILibConfigPath (sv_driver s) other \<longleftrightarrow> volId = other)
    \<and> CHR ''/'' \<notin> set (cleanISCSIName name)"
proof -
  have "prepared_for d (sv_driver s)" using server_invD(5) [OF runs_inv [OF assms(1,2)] assms(3)] .
  then have dir: "d_configDir (sv_driver s) = config_dir u"
    using assms(4) by (auto simp: prepared_for_def)
  note props = config_dir_props [OF assms(5)]
  have plain: "plain_part (x @ ''.json'')" if "CHR ''/'' \<notin> set x" for x
    using that by (cases x rule: rev_cases) (auto simp: plain_part_def)
  have "CHR ''/'' \<notin> set (cleanISCSIName name)"
    using cleanISCSIName_chars [of name] by (auto simp: list_all_iff clean_char_def)
  moreover have "Join2 (config_dir u) (volId @ ''.json'') = Join2 (config_dir u) (other @ ''.json'') \<longleftrightarrow> volId = other"
    using Join2_plain_inject [OF props(1,2) plain plain] assms(6,7) by simp
  ultimately show ?thesis
    using Join2_plain [OF props(1,2) plain [OF assms(6)]] props(3)
    by (simp add: getISCSILibConfigPath_def dir)
qed

section \<open>A run\<close>

definition sim_listen :: "string \<Rightarrow> string \<Rightarrow> (machine, unit) op" where
  "sim_listen scheme addr m = (Answer (), m)"

definition endpoint_url :: url where
  "endpoint_url = empty_url\<lparr>Scheme := ''unix'', Path := ''/csi/csi.sock''\<rparr>"

lemma endpoint_parses: "url_Parse ''unix:///csi/csi.sock'' = Some endpoint_url"
  by code_simp

lemma endpoint_dirs: "config_dir endpoint_url = ''/csi/config''"
  by code_simp

lemma sim_prepare:
  "\<exists>p. prepare (sim_host {}) sim_listen (\<lambda>_. '''') \<lparr>pr_driver = fresh_driver, pr_host = bare\<rparr> = (Ret (), p)"
  by (simp add: prepare_def fresh_driver_def endpoint_parses endpoint_url_def empty_url_def makeDirs_def listenOn_def
      onErr_def on_host_def call_def sim_host_def attempt_def sim_listen_def io_simps Let_def)

lemma sim_serves:
  "\<exists>s. runs (sim_host {}) sim_listen (\<lambda>_. '''') bare fresh_driver s \<and> sv_main s = Serving
    \<and> sv_watch s = Waiting \<and> \<not> sv_cancelled s"
proof -
  let ?s = "serverStart fresh_driver"
  let ?runs = "runs (sim_host {}) sim_listen (\<lambda>_. '''') bare fresh_driver"
  obtain p where p: "prepare (sim_host {}) sim_listen (\<lambda>_. '''') \<lparr>pr_driver = fresh_driver, pr_host = bare\<rparr>
      = (Ret (), p)" using sim_prepare by blast
  let ?s1 = "?s\<lparr>sv_driver := pr_driver p, sv_main := Listening\<rparr>"
  have "?runs ?s1"
    using p by (intro runs.step [OF runs.start] run_step.prepared) (simp_all add: serverStart_def)
  then have "?runs (?s1\<lparr>sv_driver := setReady True (sv_driver ?s1), sv_main := Ready\<rparr>)"
    by (rule runs.step) (rule run_step.set_ready, simp)
  then have "?runs (?s1\<lparr>sv_driver := setReady True (sv_driver ?s1), sv_main := Ready\<rparr>\<lparr>sv_main := Serving, sv_watch := Waiting\<rparr>)"
    by (rule runs.step) (rule run_step.launch, simp)
  then show ?thesis by (intro exI conjI) (assumption, simp_all add: serverStart_def)
qed

theorem readiness_witness:
  "\<exists>s. runs (sim_host {}) sim_listen (\<lambda>_. '''') bare fresh_driver s \<and> sv_main s = Serving \<and> Probe (sv_driver s)"
proof -
  obtain s where s: "runs (sim_host {}) sim_listen (\<lambda>_. '''') bare fresh_driver s" "sv_main s = Serving"
    "\<not> sv_cancelled s" using sim_serves by blast
  have "\<not> d_ready fresh_driver" by (simp add: fresh_driver_def)
  from readiness [OF s(1) this] s show ?thesis by blast
qed

theorem config_files_witness:
  "\<exists>s. runs (sim_host {}) sim_listen (\<lambda>_. '''') bare fresh_driver s
    \<and> getISCSILibConfigPath (sv_driver s) ''pvc1a'' = ''/csi/config/pvc1a.json''"
proof -
  obtain s where s: "runs (sim_host {}) sim_listen (\<lambda>_. '''') bare fresh_driver s" "sv_main s = Serving"
    using sim_serves by blast
  have "\<not> d_ready fresh_driver" "url_Parse (d_endpoint fresh_driver) = Some endpoint_url" "rooted (Path endpoint_url)"
    by (simp_all add: fresh_driver_def endpoint_parses) (simp add: endpoint_url_def rooted_def)
  from config_files [OF s(1) this(1) s(2) this(2,3), of "''pvc1a''" "''pvc1b''"] s(1) show ?thesis
    by (auto simp: endpoint_dirs)
qed

text \<open>An identifier with slashes leaves the directory.\<close>

lemma config_file_escapes: "getISCSILibConfigPath sim_driver ''../../etc/app'' = ''/etc/app.json''"
  by code_simp


end
