(* ===== verification/Programs.thy ===== *)
theory Programs
  imports Server
begin

text \<open>
  The programs under \<^verbatim>\<open>cmd\<close>: the plugin, the wrapper that finds \<^verbatim>\<open>iscsiadm\<close> on the host,
  and the manual test. What the operating system and the flag and logging libraries give them,
  parsed flags, environment, \<^verbatim>\<open>chroot\<close>, \<^verbatim>\<open>stat\<close> and \<^verbatim>\<open>exec\<close>, are parameters.
\<close>

section \<open>The plugin\<close>

record flags =
  fl_endpoint :: string
  fl_qnapURL :: string
  fl_logLevel :: string
  fl_version :: bool
  fl_controller :: bool
  fl_prefix :: string
  fl_nodeID :: string
  fl_portal :: string
  fl_storagePoolID :: int

definition DefaultVolumePrefix :: string where
  "DefaultVolumePrefix = ''csi''"

text \<open>The values of the flags that are not given.\<close>

definition default_flags :: flags where
  "default_flags =
     \<lparr>fl_endpoint = ''unix:///var/run/'' @ DefaultDriverName @ ''/csi.sock'', fl_qnapURL = '''',
      fl_logLevel = ''info'', fl_version = False, fl_controller = False, fl_prefix = DefaultVolumePrefix,
      fl_nodeID = '''', fl_portal = '''', fl_storagePoolID = 1\<rparr>"

text \<open>A program ends before it serves, with a text or fatally, or starts its driver.\<close>

datatype plugin_end = Printed string | Fatal string | Started driver client

text \<open>\<^verbatim>\<open>level\<close> says which log levels parse, \<^verbatim>\<open>getenv\<close> is empty where a variable is not set.\<close>

definition plugin_main :: "string \<Rightarrow> string \<Rightarrow> string \<Rightarrow> (string \<Rightarrow> bool) \<Rightarrow> (string \<Rightarrow> string) \<Rightarrow> flags
    \<Rightarrow> plugin_end" where
  "plugin_main Version Commit GitTreeState level getenv fl =
     (if fl_version fl then Printed (Version @ '' - '' @ Commit @ '' ('' @ GitTreeState @ '')'' @ [CHR 0x0A])
      else if \<not> level (fl_logLevel fl) then Fatal ''Failed to parse log level''
      else if fl_nodeID fl = '''' then Fatal ''Node ID must be specified''
      else
        let username = (if fl_controller fl then getenv ''QNAP_USERNAME'' else '''');
            password = (if fl_controller fl then getenv ''QNAP_PASSWORD'' else '''')
        in case NewDriver (fl_endpoint fl) (fl_qnapURL fl) username password (fl_controller fl)
                  (fl_prefix fl) (fl_nodeID fl) (fl_portal fl) (fl_storagePoolID fl) of
             Inl err \<Rightarrow> Fatal ''Failed to init CSI driver''
           | Inr (drv, client) \<Rightarrow> Started drv client)"

section \<open>The wrapper of iscsiadm\<close>

definition iscsiPaths :: "string list" where
  "iscsiPaths = [''/sbin/iscsiadm'', ''/usr/local/sbin/iscsiadm'', ''/bin/iscsiadm'', ''/usr/local/bin/iscsiadm'']"

datatype wrapper_end = WrapperFatal string | Replaced string "string list"

fun first_existing :: "(string \<Rightarrow> bool) \<Rightarrow> string list \<Rightarrow> string" where
  "first_existing stat [] = ''''"
| "first_existing stat (p # ps) = (if stat p then p else first_existing stat ps)"

text \<open>
  \<open>stat\<close> looks a path up under the given root, \<open>exec\<close> says whether a program can be started
  there; \<open>args\<close> are the arguments after the name of the program.
\<close>

definition iscsiadm_main :: "(string \<Rightarrow> string) \<Rightarrow> (string \<Rightarrow> bool) \<Rightarrow> (string \<Rightarrow> string \<Rightarrow> bool)
    \<Rightarrow> (string \<Rightarrow> string \<Rightarrow> bool) \<Rightarrow> string list \<Rightarrow> wrapper_end" where
  "iscsiadm_main getenv chroot stat exec args =
     (let chrootDir = (if getenv ''HOST_DIR'' = '''' then ''/host'' else getenv ''HOST_DIR'')
      in if \<not> chroot chrootDir then WrapperFatal ''Failed to chroot''
         else
           let iscsiadmPath = (if getenv ''ISCSIADM_PATH'' = '''' then first_existing (stat chrootDir) iscsiPaths
                               else getenv ''ISCSIADM_PATH'')
           in if iscsiadmPath = '''' then
                WrapperFatal ''iscsiadm binary not found, consider specifying ISCSIADM_PATH''
              else if exec chrootDir iscsiadmPath then Replaced iscsiadmPath (iscsiadmPath # args)
              else WrapperFatal ''Failed to exec'')"

section \<open>The manual test\<close>

text \<open>It unpublishes one volume through the socket; \<open>dial\<close> says whether that can be reached.\<close>

definition test_request :: nodeUnpublishVolumeRequest where
  "test_request = \<lparr>nu_VolumeId = ''testvol1'', nu_TargetPath = ''/tmp/lala''\<rparr>"

definition test_main :: "bool \<Rightarrow> 'w host \<Rightarrow> driver \<Rightarrow> ('w, string, unit) io" where
  "test_main dial host d =
     (if \<not> dial then fail ''Failed to listen to socket''
      else ignoring (NodeUnpublishVolume host d test_request) (ret ()))"

end
