(* ===== verification/ProgramProps.thy ===== *)
theory ProgramProps
  imports Programs
begin

text \<open>
  What the programs do with their environment: which binary the wrapper of \<^verbatim>\<open>iscsiadm\<close> becomes,
  and which driver the plugin starts.
\<close>

lemma first_existing_eq:
  "'''' \<notin> set ps \<Longrightarrow> p \<noteq> '''' \<Longrightarrow> first_existing stat ps = p \<longleftrightarrow>
    p \<in> set ps \<and> stat p \<and> (\<forall>q\<in>set (takeWhile (\<lambda>x. x \<noteq> p) ps). \<not> stat q)"
  by (induction ps) auto

text \<open>
  C38: without an explicit path the wrapper replaces itself by the first of its four candidate
  paths that exists under the root it changed to, with the arguments unchanged behind that path,
  and by nothing else: a binary at any other place, such as \<^verbatim>\<open>/usr/bin\<close>, is not found.
\<close>

theorem iscsiadm_search:
  assumes "getenv ''ISCSIADM_PATH'' = ''''" and "getenv ''HOST_DIR'' = ''''" and "chroot ''/host''"
  shows "iscsiadm_main getenv chroot stat exec args = Replaced p argv \<longleftrightarrow>
    argv = p # args \<and> exec ''/host'' p \<and> p \<in> set iscsiPaths \<and> stat ''/host'' p
    \<and> (\<forall>q\<in>set (takeWhile (\<lambda>x. x \<noteq> p) iscsiPaths). \<not> stat ''/host'' q)"
proof (cases "p = ''''")
  case True
  then show ?thesis using assms by (auto simp: iscsiadm_main_def iscsiPaths_def Let_def)
next
  case False
  have "'''' \<notin> set iscsiPaths" by (simp add: iscsiPaths_def)
  from first_existing_eq [OF this False, of "stat ''/host''"] show ?thesis
    using assms False by (auto simp: iscsiadm_main_def Let_def)
qed

theorem iscsiadm_search_witness:
  "iscsiadm_main (\<lambda>_. '''') (\<lambda>_. True) (\<lambda>_ p. p = ''/bin/iscsiadm'') (\<lambda>_ _. True) [''-m'', ''session'']
      = Replaced ''/bin/iscsiadm'' [''/bin/iscsiadm'', ''-m'', ''session'']
    \<and> iscsiadm_main (\<lambda>_. '''') (\<lambda>_. True) (\<lambda>_ p. p = ''/usr/bin/iscsiadm'') (\<lambda>_ _. True) []
      \<noteq> Replaced ''/usr/bin/iscsiadm'' [''/usr/bin/iscsiadm'']"
  by (simp add: iscsiadm_search iscsiPaths_def)

text \<open>
  C39: the plugin starts a driver only with a node identifier and an address that parses; the
  driver is not ready yet, carries the flags, and a node driver carries no credentials, whatever
  the environment holds.
\<close>

theorem plugin_starts:
  assumes "plugin_main Version Commit GitTreeState level getenv fl = Started d c"
  shows "fl_nodeID fl \<noteq> '''' \<and> d_nodeID d = fl_nodeID fl \<and> d_endpoint d = fl_endpoint fl
    \<and> d_portal d = fl_portal fl \<and> d_storagePoolID d = fl_storagePoolID fl \<and> \<not> Probe d
    \<and> url_Parse (TrimRight (fl_qnapURL fl) ''/'') = Some (baseURL c)
    \<and> (if fl_controller fl
       then Username c = getenv ''QNAP_USERNAME'' \<and> Password c = EncodeToString (getenv ''QNAP_PASSWORD'')
       else d_username d = '''' \<and> d_password d = '''' \<and> Username c = '''' \<and> Password c = '''')
    \<and> sid c = ''''"
  using assms
  by (auto simp: plugin_main_def NewDriver_def NewClient_def Let_def Probe_def
      split: if_splits sum.splits option.splits)

theorem plugin_starts_witness:
  "\<exists>d c. plugin_main '''' '''' '''' (\<lambda>_. True) (\<lambda>_. ''x'') (default_flags\<lparr>fl_nodeID := ''node1''\<rparr>) = Started d c
    \<and> Username c = '''' \<and> d_endpoint d = ''unix:///var/run/qnap.terrycain.github.com/csi.sock''"
proof -
  have "url_Parse '''' = Some empty_url" by code_simp
  then obtain d c where "plugin_main '''' '''' '''' (\<lambda>_. True) (\<lambda>_. ''x'') (default_flags\<lparr>fl_nodeID := ''node1''\<rparr>)
      = Started d c"
    by (auto simp: plugin_main_def default_flags_def NewDriver_def NewClient_def TrimRight_def Let_def)
  from plugin_starts [OF this] this show ?thesis by (auto simp: default_flags_def DefaultDriverName_def)
qed

end
