(* ===== verification/Spec2Isabelle.thy ===== *)
theory Spec2Isabelle
  imports Lifecycle DeleteProps ListProps ClientProps ServerProps ProgramProps
begin

text \<open>
  A verification library for the QNAP CSI driver: a Kubernetes storage driver in Go that creates,
  lists and deletes iSCSI volumes on a NAS through its HTTP and XML interface.

  \<^bold>\<open>The program.\<close> The plugin (\<^verbatim>\<open>cmd/qnap-csi-plugin\<close>) builds a \<^verbatim>\<open>Driver\<close> (\<^verbatim>\<open>driver/driver.go\<close>) that
  holds one client of the NAS (\<^verbatim>\<open>qnap/api.go\<close>) and serves three CSI services on a unix socket. The
  controller (\<^verbatim>\<open>driver/controller.go\<close>, with \<^verbatim>\<open>driver/utils.go\<close>) validates its request, logs in, and
  makes a fixed sequence of client calls with early returns; a client call is one POST whose reply
  is a status and an XML document. What it created it describes in a volume context, from which
  the node service (\<^verbatim>\<open>driver/node.go\<close>, \<^verbatim>\<open>driver/iscsi_iscsi.go\<close>) builds a connector, attaches and mounts
  the disk and keeps the connector in a file, by which the unpublish finds it again
  (\<^verbatim>\<open>driver/iscsi_util.go\<close>). The identity service (\<^verbatim>\<open>driver/identity.go\<close>) answers probes from the
  readiness flag that \<^verbatim>\<open>Driver.Run\<close> keeps. \<^verbatim>\<open>cmd/iscsiadm\<close> is the wrapper the iSCSI library calls.

  \<^bold>\<open>Effects.\<close> A Go function is a function from the state to an outcome and a new state
  (\<open>Prelude\<close>): \<open>Ret\<close> for a nil error, \<open>Fail\<close> for an error, \<open>Panic\<close> for a run-time panic, \<open>Hang\<close>
  for a call that never returns. The state \<open>'w st\<close> is the mutable client and the hidden state of
  the NAS. The NAS with the network is a parameter \<open>nas\<close>, any function from a request and its
  state to a reply and a new state; the theorems hold for every one, unless they say otherwise.
  A reply may be missing (\<open>NoReply\<close>): the client has no timeout and uses the background context, so
  the call, and with it the handler, does not return. To speak of traffic the NAS is wrapped by
  \<open>logged\<close>, which notes requests and replies; the wrapped NAS is one more instance of the parameter. The node handlers run on a machine: the iSCSI
  library, the mount utilities and the file system are the record \<open>host\<close>, again any functions of a
  hidden state; each operation answers, fails or blocks. The theorems on what publishing does assume
  \<open>lawful\<close>, the documented effect of each of these operations when it succeeds and what it leaves
  alone in any case, over a view of the machine; every operation may fail or block. The laws name
  no device in advance, let mounts stack at a path, confine \<open>MkdirAll\<close> and \<open>RemoveAll\<close> to their path
  (\<open>below\<close>), and assume nothing of the verdict of the mount point heuristic, which documents itself
  as inexact. They speak of paths without symbolic links on the way. \<open>sim_host\<close> is a machine that
  satisfies the laws.

  \<^bold>\<open>Theories and code.\<close>
  \<^item> \<open>GoText\<close>, \<open>GoBase64\<close>, \<open>GoUrl\<close>, \<open>GoAddress\<close>, \<open>GoUtf8\<close>: what the code uses of Go's library on
    byte strings: trimming, splitting, decimal numbers, base64, percent encoding, \<^verbatim>\<open>url.Values\<close>,
    parsing and printing of URLs, UTF-8 decoding. \<open>GoPath\<close>: the \<^verbatim>\<open>path\<close> package. \<open>GoJson\<close>:
    \<^verbatim>\<open>json.Unmarshal\<close> into a list and a map of strings.
  \<^item> \<open>XmlData\<close>, \<open>NasData\<close>: XML documents as trees, field selection as \<^verbatim>\<open>xml.Unmarshal\<close> does it, and
    the response structs of \<^verbatim>\<open>qnap/api.go\<close> with their status texts. The text of a document is not
    parsed: a reply carries a document or none.
  \<^item> \<open>Client\<close>: the \<^verbatim>\<open>Client\<close> struct and every operation of \<^verbatim>\<open>qnap/api.go\<close>, with the two helpers of
    \<^verbatim>\<open>qnap/utils.go\<close>. \<open>ClientLaws\<close>: the contract of an operation as the locale \<open>api_op\<close>, interpreted
    for each of them. \<open>ClientProps\<close>: the properties of the client.
  \<^item> \<open>Utils\<close>: \<^verbatim>\<open>driver/utils.go\<close> and the size constants, with their properties.
  \<^item> \<open>Driver\<close>: the \<^verbatim>\<open>Driver\<close> struct, \<^verbatim>\<open>NewDriver\<close>, \<^verbatim>\<open>setReady\<close>, the gRPC and CSI vocabulary.
  \<^item> \<open>Controller\<close>: every handler of \<^verbatim>\<open>driver/controller.go\<close>. \<^verbatim>\<open>CreateVolume\<close> is cut at its stages,
    each ending in the next: \<open>CreateVolume\<close>, \<open>provision\<close>, \<open>createTarget\<close>, \<open>createLUN\<close>,
    \<open>waitForLun\<close>, \<open>attachVolume\<close>, \<open>finishVolume\<close>.
  \<^item> \<open>Traffic\<close>: each operation as an entry of the traffic; \<open>Replay\<close>: a NAS that answers from a list,
    with which the concrete runs are evaluated.
  \<^item> \<open>CreateLaws\<close>, \<open>CreateMachine\<close>, \<open>CreateProps\<close>: which requests are accepted, when the readiness
    loop returns, the abstract machine \<open>create_step\<close> over phases that the handler refines, the
    bookkeeping invariant \<open>ledger\<close> of its paths, the bound \<open>to_go\<close> on their length, and the properties
    that follow.
  \<^item> \<open>DeleteProps\<close>, \<open>ListProps\<close>: the properties of deletion, listing, capacity and validation.
  \<^item> \<open>IscsiParams\<close>: \<^verbatim>\<open>driver/iscsi_iscsi.go\<close>, from the publish request to the connector. \<open>Disks\<close>:
    \<^verbatim>\<open>AttachDisk\<close> and \<^verbatim>\<open>DetachDisk\<close> of \<^verbatim>\<open>driver/iscsi_util.go\<close>, cut at their stages. \<open>Node\<close>: every handler of
    \<^verbatim>\<open>driver/node.go\<close> and the path of the connector file. \<open>ParamProps\<close>: which contexts are read and what
    reaches the library. \<open>HostLaws\<close>: the laws of a node and the simulated machine. \<open>NodeProps\<close>: the
    effects of attaching and detaching for every outcome, and the properties of the handlers.
  \<^item> \<open>Lifecycle\<close>: controller and node together, from the created volume to its publication.
  \<^item> \<open>Server\<close>: \<^verbatim>\<open>Driver.Run\<close>, its preparation as one function and its goroutines as the step relation
    \<open>run_step\<close>, and \<^verbatim>\<open>driver/identity.go\<close>. \<open>ServerProps\<close>: the invariant of its runs, readiness, and
    where connectors are kept. \<open>Programs\<close>, \<open>ProgramProps\<close>: the \<^verbatim>\<open>main\<close> functions under \<^verbatim>\<open>cmd\<close>.

  \<^bold>\<open>Loops.\<close> The readiness loop of \<^verbatim>\<open>CreateVolume\<close> has no bound, so it is a \<open>partial_function\<close>; the
  theorems say exactly when it returns, that a run of the handler sends at most nine requests
  besides its turns, and that this loop and an unanswered request are the only ways not to return.
  Every other loop is structural. \<open>drain\<close>, the loop of a caller of \<^verbatim>\<open>ListVolumes\<close>, has a page bound,
  and one page more than there are targets is enough.

  \<^bold>\<open>Ordinary addresses.\<close> Theorems about the content of requests assume \<open>good_client\<close>: endpoints
  of the form scheme, host, optional port and path without characters that need escaping. A client
  built from such an address is one.

  \<^bold>\<open>What the theorems showed of the code.\<close> Listing from an empty token panics; the readiness and
  IQN failures of \<^verbatim>\<open>CreateVolume\<close> leave a target and a LUN behind; its loop waits for any status but
  \<open>creating\<close>, not for a ready LUN; nothing bounds the wait for a reply of the NAS or for the host; a
  LUN whose removal fails once is lost; \<^verbatim>\<open>GetCapacity\<close> reports the total size as available. A
  publish that fails once the session is up leaves the disk attached for good, and so does an
  unpublish that fails to disconnect, since its retry finds no mount to count; a LUN number beyond 32 bits attaches another LUN; a name
  without letters and digits makes a volume that can be neither published nor deleted.

  \<^bold>\<open>Not modelled.\<close> Logging, with the interceptor that only logs; the sleep of the readiness loop;
  contexts other than the cancellation of \<^verbatim>\<open>Driver.Run\<close> (no handler uses its context); the mutex of
  the session and calls that overlap (a handler runs alone, only the goroutines of \<^verbatim>\<open>Driver.Run\<close>
  interleave, so a lock held by a call that does not return is not seen by the others); the parsing of
  flags and of XML text; the wording of errors raised by Go's library. The fields the iSCSI library
  adds to a connector belong to the host. Integers of type \<^verbatim>\<open>int\<close> are 64 bits wide: the numbers
  that reach the driver are parsed with that range, and nothing is computed from them but
  comparisons.
\<close>

section \<open>Properties across components\<close>

text \<open>
  C35: no handler changes the account. Whatever the NAS answers and however a handler ends, the
  addresses and the credentials of the client are as before; only the session identifier moves.
\<close>

theorem handlers_keep_account:
  "same_account s (snd (CreateVolume nas ms d req s))
    \<and> same_account s (snd (DeleteVolume nas volumeId s))
    \<and> same_account s (snd (ValidateVolumeCapabilities nas volumeId caps s))
    \<and> same_account s (snd (ListVolumes nas token m s))
    \<and> same_account s (snd (GetCapacity nas d s))
    \<and> same_account s (snd (Login nas s))"
  by (intro conjI stays_snd [OF stays_CreateVolume] stays_snd [OF stays_DeleteVolume] stays_snd [OF stays_Login]
      stays_snd [OF stays_readers(1)] stays_snd [OF stays_readers(2)] stays_snd [OF stays_readers(3)])

end
